(* ===== verification/Prelude.thy ===== *)
theory Prelude
  imports Main "HOL-Library.Word" "HOL-Library.List_Lexorder" "HOL-Library.Char_ord"
begin

text \<open>
  Shared vocabulary of the development.

  Rust's \<open>Result\<close> is the datatype \<open>result\<close>; the question-mark operator is \<open>and_then\<close>, an early
  \<open>return Err\<close> under a condition is \<open>fail_if\<close>, a \<open>for\<close> loop whose body may fail is \<open>for_each\<close>
  (no state) or \<open>fold_result\<close> (with the state the body mutates), and \<open>collect\<close> into a
  \<open>Result\<close> of a vector is \<open>collect_result\<close>. Each comes with an equation that says when it
  returns \<open>Ok\<close>; these equations are in the collection \<open>ok_simps\<close> and are what the component
  proofs use to open a handler that returned a value.

  Machine integers are words: \<open>u64\<close>, \<open>u32\<close> and \<open>u8\<close>; a Rust string is the list of its UTF-8 bytes,
  ordered lexicographically as \<open>str\<close> is.
\<close>

named_theorems ok_simps

section \<open>Results\<close>

datatype ('a, 'e) result = Ok 'a | Err 'e

primrec and_then :: "('a, 'e) result \<Rightarrow> ('a \<Rightarrow> ('b, 'e) result) \<Rightarrow> ('b, 'e) result" where
  "and_then (Ok x) f = f x"
| "and_then (Err e) f = Err e"

primrec map_err :: "('e \<Rightarrow> 'f) \<Rightarrow> ('a, 'e) result \<Rightarrow> ('a, 'f) result" where
  "map_err g (Ok x) = Ok x"
| "map_err g (Err e) = Err (g e)"

primrec is_ok :: "('a, 'e) result \<Rightarrow> bool" where
  "is_ok (Ok x) = True"
| "is_ok (Err e) = False"

definition ok_or :: "'a option \<Rightarrow> 'e \<Rightarrow> ('a, 'e) result" where
  "ok_or v e = (case v of None \<Rightarrow> Err e | Some x \<Rightarrow> Ok x)"

definition fail_if :: "bool \<Rightarrow> 'e \<Rightarrow> (unit, 'e) result" where
  "fail_if b e = (if b then Err e else Ok ())"

primrec for_each :: "('a \<Rightarrow> (unit, 'e) result) \<Rightarrow> 'a list \<Rightarrow> (unit, 'e) result" where
  "for_each f [] = Ok ()"
| "for_each f (x # xs) = and_then (f x) (\<lambda>_. for_each f xs)"

primrec fold_result :: "('s \<Rightarrow> 'a \<Rightarrow> ('s, 'e) result) \<Rightarrow> 's \<Rightarrow> 'a list \<Rightarrow> ('s, 'e) result" where
  "fold_result f s [] = Ok s"
| "fold_result f s (x # xs) = and_then (f s x) (\<lambda>t. fold_result f t xs)"

primrec collect_result :: "('a \<Rightarrow> ('b, 'e) result) \<Rightarrow> 'a list \<Rightarrow> ('b list, 'e) result" where
  "collect_result f [] = Ok []"
| "collect_result f (x # xs) =
     and_then (f x) (\<lambda>y. and_then (collect_result f xs) (\<lambda>ys. Ok (y # ys)))"

text \<open>\<open>Option\<close> helpers of the standard library: \<open>is_some_and\<close> and \<open>is_none_or\<close>.\<close>

definition is_some_and :: "'a option \<Rightarrow> ('a \<Rightarrow> bool) \<Rightarrow> bool" where
  "is_some_and v p = (case v of None \<Rightarrow> False | Some x \<Rightarrow> p x)"

definition is_none_or :: "'a option \<Rightarrow> ('a \<Rightarrow> bool) \<Rightarrow> bool" where
  "is_none_or v p = (case v of None \<Rightarrow> True | Some x \<Rightarrow> p x)"

type_synonym u64 = "64 word"
type_synonym u32 = "32 word"
type_synonym u8 = "8 word"
type_synonym bytes = "8 word list"

section \<open>When a result is \<open>Ok\<close>\<close>

lemma and_then_Ok [ok_simps]: "and_then r f = Ok y \<longleftrightarrow> (\<exists>x. r = Ok x \<and> f x = Ok y)"
  by (cases r) auto

lemma and_then_unit_Ok [ok_simps]:
  "and_then r (\<lambda>_::unit. g) = Ok y \<longleftrightarrow> r = Ok () \<and> g = Ok y"
  by (cases r) auto

lemma map_err_Ok [ok_simps]: "map_err g r = Ok y \<longleftrightarrow> r = Ok y"
  by (cases r) auto

lemma ok_or_Ok [ok_simps]: "ok_or v e = Ok x \<longleftrightarrow> v = Some x"
  by (simp add: ok_or_def split: option.splits)

lemma fail_if_Ok [ok_simps]: "fail_if b e = Ok u \<longleftrightarrow> \<not> b"
  by (simp add: fail_if_def)

lemma for_each_Ok [ok_simps]: "for_each f xs = Ok u \<longleftrightarrow> (\<forall>x \<in> set xs. f x = Ok ())"
  by (induction xs) (auto simp: and_then_unit_Ok)

lemma collect_result_Ok [ok_simps]:
  "collect_result f xs = Ok ys \<longleftrightarrow> list_all2 (\<lambda>x y. f x = Ok y) xs ys"
  by (induction xs arbitrary: ys) (auto simp: and_then_Ok list_all2_Cons1)

lemma is_ok_iff: "is_ok r \<longleftrightarrow> (\<exists>x. r = Ok x)"
  by (cases r) auto

lemma unit_result_Ok: "(r :: (unit, 'e) result) = Ok u \<longleftrightarrow> is_ok r"
  by (cases r) auto

lemma is_some_and_simps [simp]:
  "is_some_and None p = False" "is_some_and (Some x) p = p x"
  by (simp_all add: is_some_and_def)

lemma is_none_or_simps [simp]:
  "is_none_or None p = True" "is_none_or (Some x) p = p x"
  by (simp_all add: is_none_or_def)

lemma fold_result_append:
  "fold_result f s (xs @ ys) = and_then (fold_result f s xs) (\<lambda>t. fold_result f t ys)"
proof (induction xs arbitrary: s)
  case (Cons x xs)
  then show ?case by (cases "f s x") simp_all
qed simp

text \<open>
  An invariant rule for loops with state: if the body keeps the invariant, so does the loop.
\<close>

lemma fold_result_invariant:
  assumes "fold_result f s xs = Ok t" and "I s"
    and step: "\<And>s x t. \<lbrakk>x \<in> set xs; I s; f s x = Ok t\<rbrakk> \<Longrightarrow> I t"
  shows "I t"
  using assms
proof (induction xs arbitrary: s)
  case Nil
  then show ?case by simp
next
  case (Cons x xs)
  then obtain u where u: "f s x = Ok u" "fold_result f u xs = Ok t"
    by (auto simp: ok_simps)
  have "I u" using Cons.prems(2,3) u(1) by auto
  with u(2) Cons.prems(3) show ?case by (auto intro: Cons.IH)
qed

lemma fold_result_Cons_Ok:
  "fold_result f s (x # xs) = Ok t \<longleftrightarrow> (\<exists>u. f s x = Ok u \<and> fold_result f u xs = Ok t)"
  by (simp add: ok_simps)

section \<open>Strictly sorted lists\<close>

abbreviation strictly_sorted :: "'a::linorder list \<Rightarrow> bool" where
  "strictly_sorted \<equiv> sorted_wrt (<)"

lemma strictly_sorted_iff: "strictly_sorted xs \<longleftrightarrow> sorted xs \<and> distinct xs"
  by (rule strict_sorted_iff)

lemma strictly_sorted_eq:
  assumes "strictly_sorted xs" "strictly_sorted ys" "set xs = set ys"
  shows "xs = ys"
  using assms by (metis sorted_distinct_set_unique strictly_sorted_iff)

lemma strictly_sorted_map_eq:
  assumes "strictly_sorted (map f xs)" "strictly_sorted (map f ys)" "set xs = set ys"
  shows "xs = ys"
proof (rule map_sorted_distinct_set_unique[where f = f])
  show "inj_on f (set xs \<union> set ys)"
    using assms(1,3) by (simp add: strictly_sorted_iff distinct_map)
qed (use assms in \<open>simp_all add: strictly_sorted_iff\<close>)

lemma map_of_rev_distinct: "distinct (map fst xs) \<Longrightarrow> map_of (rev xs) = map_of xs"
  by (subst map_of_inject_set) (simp_all flip: rev_map)

lemma strictly_sorted_filter: "strictly_sorted xs \<Longrightarrow> strictly_sorted (filter P xs)"
  by (rule sorted_wrt_filter)

lemma strictly_sorted_map_filter:
  "strictly_sorted (map f xs) \<Longrightarrow> strictly_sorted (map f (filter P xs))"
  by (induction xs) auto

end
