(* ===== verification/Rust_Std.thy ===== *)
theory Rust_Std
  imports Prelude
begin

text \<open>
  The parts of Rust's standard library the modelled code calls: checked arithmetic, ASCII tests and
  case mapping, \<open>str::trim\<close>, \<open>str::strip_prefix\<close>, \<open>char::is_control\<close>, integer parsing and
  formatting, and \<open>slice::binary_search_by\<close>. Strings are UTF-8 byte lists, so \<open>length\<close> is
  \<open>str::len\<close>; the two Unicode-aware functions (\<open>trim\<close> and \<open>is_control\<close>) are written over the byte
  encodings of the characters they look for.
\<close>

section \<open>Integers\<close>

definition checked_add :: "'a::len word \<Rightarrow> 'a word \<Rightarrow> 'a word option" where
  "checked_add a b = (if unat a + unat b < 2 ^ LENGTH('a) then Some (a + b) else None)"

definition checked_sub :: "'a::len word \<Rightarrow> 'a word \<Rightarrow> 'a word option" where
  "checked_sub a b = (if b \<le> a then Some (a - b) else None)"

definition saturating_add :: "'a::len word \<Rightarrow> 'a word \<Rightarrow> 'a word" where
  "saturating_add a b = (if unat a + unat b < 2 ^ LENGTH('a) then a + b else - 1)"

text \<open>\<open>u64::try_from\<close>, \<open>u32::try_from\<close> and \<open>u8::try_from\<close> on a length or on a wider integer.\<close>

definition u64_try_from :: "nat \<Rightarrow> u64 option" where
  "u64_try_from n = (if n < 2 ^ 64 then Some (of_nat n) else None)"

definition u32_try_from :: "nat \<Rightarrow> u32 option" where
  "u32_try_from n = (if n < 2 ^ 32 then Some (of_nat n) else None)"

definition u8_try_from :: "u64 \<Rightarrow> u8 option" where
  "u8_try_from n = (if n < 256 then Some (ucast n) else None)"

section \<open>Characters and strings\<close>

abbreviation code :: "char \<Rightarrow> int" where
  "code c \<equiv> of_char c"

definition is_ascii_digit :: "char \<Rightarrow> bool" where
  "is_ascii_digit c \<longleftrightarrow> 48 \<le> code c \<and> code c \<le> 57"

definition is_lower_hexdigit :: "char \<Rightarrow> bool" where
  "is_lower_hexdigit c \<longleftrightarrow> is_ascii_digit c \<or> 97 \<le> code c \<and> code c \<le> 102"

definition is_ascii_hexdigit :: "char \<Rightarrow> bool" where
  "is_ascii_hexdigit c \<longleftrightarrow> is_lower_hexdigit c \<or> 65 \<le> code c \<and> code c \<le> 70"

definition ascii_lower :: "char \<Rightarrow> char" where
  "ascii_lower c = (if 65 \<le> code c \<and> code c \<le> 90 then char_of (code c + 32) else c)"

definition to_ascii_lowercase :: "string \<Rightarrow> string" where
  "to_ascii_lowercase s = map ascii_lower s"

fun strip_prefix :: "string \<Rightarrow> string \<Rightarrow> string option" where
  "strip_prefix [] s = Some s"
| "strip_prefix (p # ps) [] = None"
| "strip_prefix (p # ps) (c # cs) = (if p = c then strip_prefix ps cs else None)"

text \<open>
  \<open>char::is_control\<close> holds of the code points 0 to 31 and 127 to 159; the last thirty-two are the
  two-byte sequences 194, 128 to 159.
\<close>

fun has_control :: "string \<Rightarrow> bool" where
  "has_control [] = False"
| "has_control [c] = (code c < 32 \<or> code c = 127)"
| "has_control (c # d # cs) =
     (code c < 32 \<or> code c = 127 \<or> (code c = 194 \<and> 128 \<le> code d \<and> code d \<le> 159)
      \<or> has_control (d # cs))"

text \<open>The encodings of the Unicode \<open>White_Space\<close> characters that \<open>str::trim\<close> removes.\<close>

definition white_space :: "string list" where
  "white_space = map (map char_of)
     ([[9], [10], [11], [12], [13], [32], [194, 133], [194, 160], [225, 154, 128]]
      @ map (\<lambda>i. [226, 128, i]) ([128 .. 138] @ [168, 169, 175])
      @ [[226, 129, 159], [227, 128, 128 :: int]])"

function trim_start_with :: "string list \<Rightarrow> string \<Rightarrow> string" where
  "trim_start_with ws s =
     (case find (\<lambda>w. w \<noteq> [] \<and> strip_prefix w s \<noteq> None) ws of
        None \<Rightarrow> s
      | Some w \<Rightarrow> trim_start_with ws (drop (length w) s))"
  by pat_completeness auto

lemma strip_prefix_Some: "strip_prefix p s = Some r \<longleftrightarrow> s = p @ r"
  by (induction p s rule: strip_prefix.induct) auto

termination trim_start_with
proof (relation "measure (\<lambda>(ws, s). length s)", goal_cases)
  case (2 ws s w)
  then have "w \<noteq> []" "\<exists>r. strip_prefix w s = Some r"
    by (auto simp: find_Some_iff)
  then show ?case by (auto simp: strip_prefix_Some)
qed simp

declare trim_start_with.simps [simp del]

definition trim :: "string \<Rightarrow> string" where
  "trim s = rev (trim_start_with (map rev white_space)
     (rev (trim_start_with white_space s)))"

text \<open>Decimal formatting of an unsigned integer, and \<open>from_str_radix\<close> / \<open>parse\<close> for \<open>u64\<close>.\<close>

fun nat_text :: "nat \<Rightarrow> string" where
  "nat_text n =
     (if n < 10 then [char_of (48 + n)] else nat_text (n div 10) @ [char_of (48 + n mod 10)])"

declare nat_text.simps [simp del]

definition digit_value :: "nat \<Rightarrow> char \<Rightarrow> nat option" where
  "digit_value radix c =
     (let v = (if is_ascii_digit c then Some (nat (code c - 48))
               else if 97 \<le> code c \<and> code c \<le> 122 then Some (nat (code c - 87))
               else if 65 \<le> code c \<and> code c \<le> 90 then Some (nat (code c - 55))
               else None)
      in case v of None \<Rightarrow> None | Some d \<Rightarrow> if d < radix then Some d else None)"

fun digits_value :: "nat \<Rightarrow> nat \<Rightarrow> string \<Rightarrow> nat option" where
  "digits_value radix acc [] = Some acc"
| "digits_value radix acc (c # cs) =
     (case digit_value radix c of
        None \<Rightarrow> None
      | Some d \<Rightarrow> digits_value radix (acc * radix + d) cs)"

definition u64_from_str_radix :: "nat \<Rightarrow> string \<Rightarrow> u64 option" where
  "u64_from_str_radix radix s =
     (let ds = (case s of CHR ''+'' # cs \<Rightarrow> cs | _ \<Rightarrow> s)
      in if ds = [] then None
         else Option.bind (digits_value radix 0 ds) u64_try_from)"

section \<open>Binary search\<close>

text \<open>
  \<open>slice::binary_search_by\<close> with the comparison of a key: the loop halves its window \<open>sz\<close> and keeps \<open>base\<close>
  the last probed index whose key is not greater. \<open>Ok\<close> is a matching index, \<open>Err\<close> the index
  where the key would be inserted.
\<close>

function bs_loop :: "('a \<Rightarrow> 'k::linorder) \<Rightarrow> 'a list \<Rightarrow> 'k \<Rightarrow> nat \<Rightarrow> nat \<Rightarrow> nat" where
  "bs_loop key xs k base sz =
     (if sz \<le> 1 then base
      else let half = sz div 2; mid = base + half
           in bs_loop key xs k (if k < key (xs ! mid) then base else mid) (sz - half))"
  by pat_completeness auto
termination
  by (relation "measure (\<lambda>(key, xs, k, base, sz). sz)") auto

declare bs_loop.simps [simp del]

definition binary_search :: "('a \<Rightarrow> 'k::linorder) \<Rightarrow> 'a list \<Rightarrow> 'k \<Rightarrow> (nat, nat) result" where
  "binary_search key xs k =
     (if xs = [] then Err 0
      else let base = bs_loop key xs k 0 (length xs); found = key (xs ! base)
           in if found = k then Ok base
              else Err (if found < k then base + 1 else base))"

section \<open>Facts\<close>

text \<open>Code equations that stay on words and integers: natural numbers are unary when evaluated.\<close>

lemma word_add_overflow: "a + b < (a :: 'a::len word) \<longleftrightarrow> 2 ^ LENGTH('a) \<le> unat a + unat b"
  using no_olen_add_nat[of a b] linorder_not_le by metis

lemma checked_add_code [code]:
  "checked_add a b = (let c = a + b in if c < a then None else Some c)"
  by (simp add: checked_add_def word_add_overflow Let_def)

lemma saturating_add_code [code]:
  "saturating_add a b = (let c = a + b in if c < a then - 1 else c)"
  by (simp add: saturating_add_def word_add_overflow Let_def)

lemma int_less_power: "int n < 2 ^ k \<longleftrightarrow> n < 2 ^ k"
  by (metis of_nat_less_iff of_nat_numeral of_nat_power)

lemma u64_try_from_code [code]: "u64_try_from n = (if int n < 2 ^ 64 then Some (of_nat n) else None)"
  unfolding u64_try_from_def int_less_power ..

lemma u32_try_from_code [code]: "u32_try_from n = (if int n < 2 ^ 32 then Some (of_nat n) else None)"
  unfolding u32_try_from_def int_less_power ..

lemma checked_add_Some: "checked_add a b = Some c \<Longrightarrow> unat c = unat a + unat b"
  by (auto simp: checked_add_def unat_word_ariths split: if_splits)

lemma unat_u64: "unat (c :: u64) < 2 ^ 64"
  using unsigned_less[of c, where 'a = nat] by simp

lemma checked_add_u64: "checked_add (a :: u64) b = Some c \<longleftrightarrow> unat c = unat a + unat b"
proof
  show "checked_add a b = Some c \<Longrightarrow> unat c = unat a + unat b"
    by (auto simp: checked_add_def unat_add_lem[THEN iffD1] split: if_splits)
next
  assume c: "unat c = unat a + unat b"
  then have "unat a + unat b < 2 ^ 64" using unat_u64[of c] by simp
  moreover from this have "unat (a + b) = unat c" using c by (simp add: unat_add_lem[THEN iffD1])
  ultimately show "checked_add a b = Some c" by (simp add: checked_add_def word_unat_eq_iff)
qed

lemma checked_add_u64_None: "checked_add (a :: u64) b = None \<longleftrightarrow> 2 ^ 64 \<le> unat a + unat b"
  by (simp add: checked_add_def)

lemma u64_try_from_Some: "u64_try_from n = Some w \<longleftrightarrow> n < 2 ^ 64 \<and> w = of_nat n"
  by (auto simp: u64_try_from_def)

lemma unat_of_nat_u64: "n < 2 ^ 64 \<Longrightarrow> unat (of_nat n :: u64) = n"
  by (simp add: unat_of_nat)

lemma lower_hexdigit_ascii: "is_lower_hexdigit c \<Longrightarrow> is_ascii_hexdigit c"
  by (simp add: is_ascii_hexdigit_def)

lemma ascii_lower_hexdigit: "is_ascii_hexdigit c \<Longrightarrow> is_lower_hexdigit (ascii_lower c)"
  by (auto simp: is_ascii_hexdigit_def is_lower_hexdigit_def ascii_lower_def is_ascii_digit_def)

lemma ascii_lower_idem: "is_lower_hexdigit c \<Longrightarrow> ascii_lower c = c"
  by (auto simp: is_lower_hexdigit_def is_ascii_digit_def ascii_lower_def)

lemma strip_prefix_id: "p \<noteq> [] \<Longrightarrow> hd p \<notin> set s \<Longrightarrow> strip_prefix p s = None"
  by (cases "(p, s)" rule: strip_prefix.cases) auto

lemma bs_loop_bounds:
  assumes "1 \<le> sz"
  shows "base \<le> bs_loop key xs k base sz \<and> bs_loop key xs k base sz < base + sz"
  using assms
proof (induction key xs k base sz rule: bs_loop.induct)
  case (1 key xs k base sz)
  show ?case
  proof (cases "sz \<le> 1")
    case True
    with 1 show ?thesis by (simp add: bs_loop.simps)
  next
    case False
    let ?base = "if k < key (xs ! (base + sz div 2)) then base else base + sz div 2"
    have "?base \<le> bs_loop key xs k ?base (sz - sz div 2)
        \<and> bs_loop key xs k ?base (sz - sz div 2) < ?base + (sz - sz div 2)"
      using False by (intro 1(1)) auto
    with False show ?thesis
      by (subst (1 2) bs_loop.simps) (auto simp: Let_def split: if_splits)
  qed
qed

text \<open>
  On a strictly sorted vector every element before the search window is below the key or is its
  match, and every element after the window is above it; so the final probe decides.
\<close>

lemma bs_loop_sorted:
  assumes "strictly_sorted (map key xs)" and "base + sz \<le> length xs" and "1 \<le> sz"
    and "\<forall>i < length xs. base + sz \<le> i \<longrightarrow> k < key (xs ! i)"
    and "\<forall>i < base. key (xs ! i) < k"
  shows "let b = bs_loop key xs k base sz
    in (\<forall>i < length xs. b < i \<longrightarrow> k < key (xs ! i)) \<and> (\<forall>i < b. key (xs ! i) < k)"
  using assms
proof (induction key xs k base sz rule: bs_loop.induct)
  case (1 key xs k base sz)
  show ?case
  proof (cases "sz \<le> 1")
    case True
    have "bs_loop key xs k base sz = base" using True by (subst bs_loop.simps) simp
    with 1 True show ?thesis by (simp add: Let_def le_Suc_eq Suc_le_eq)
  next
    case False
    let ?mid = "base + sz div 2"
    have mid: "?mid < length xs" using False 1(3) by auto
    have mono: "key (xs ! i) < key (xs ! j)" if "i < j" "j < length xs" for i j
      using sorted_wrt_nth_less[OF 1(2), of i j] that by simp
    have step: "bs_loop key xs k base sz =
        bs_loop key xs k (if k < key (xs ! ?mid) then base else ?mid) (sz - sz div 2)"
      using False by (subst bs_loop.simps) (simp add: Let_def)
    show ?thesis
    proof (cases "k < key (xs ! ?mid)")
      case True
      have "\<forall>i < length xs. base + (sz - sz div 2) \<le> i \<longrightarrow> k < key (xs ! i)"
      proof (intro allI impI)
        fix i assume i: "i < length xs" "base + (sz - sz div 2) \<le> i"
        then have "?mid \<le> i" by linarith
        then show "k < key (xs ! i)" using True mono[of ?mid i] i
          by (cases "i = ?mid") (auto intro: less_trans)
      qed
      moreover have "base + (sz - sz div 2) \<le> length xs" using 1(3) by simp
      ultimately show ?thesis
        using "1.IH"[OF False refl refl] True False 1(2,6) step by auto
    next
      case not_less: False
      have "\<forall>i < ?mid. key (xs ! i) < k"
        using mono[OF _ mid] not_less by (meson less_le_trans not_less_iff_gr_or_eq leI)
      moreover have "?mid + (sz - sz div 2) \<le> length xs" using 1(3) by simp
      moreover have "\<forall>i < length xs. ?mid + (sz - sz div 2) \<le> i \<longrightarrow> k < key (xs ! i)"
        using 1(5) by auto
      ultimately show ?thesis
        using "1.IH"[OF False refl refl] not_less False 1(2) step by auto
    qed
  qed
qed

lemma binary_search_cases:
  assumes "strictly_sorted (map key xs)"
  shows "(\<exists>i < length xs. binary_search key xs k = Ok i \<and> key (xs ! i) = k)
    \<or> (\<exists>i \<le> length xs. binary_search key xs k = Err i
        \<and> (\<forall>x \<in> set (take i xs). key x < k) \<and> (\<forall>x \<in> set (drop i xs). k < key x))"
proof (cases "xs = []")
  case True
  then show ?thesis by (simp add: binary_search_def)
next
  case False
  let ?b = "bs_loop key xs k 0 (length xs)"
  have b: "?b < length xs" using bs_loop_bounds[of "length xs" 0 key xs k] False by (cases xs) auto
  have above: "\<forall>i < length xs. ?b < i \<longrightarrow> k < key (xs ! i)" and below: "\<forall>i < ?b. key (xs ! i) < k"
    using bs_loop_sorted[OF assms, of 0 "length xs" k] False by (auto simp: Let_def Suc_le_eq)
  consider "key (xs ! ?b) = k" | "key (xs ! ?b) < k" | "k < key (xs ! ?b)" by fastforce
  then show ?thesis
  proof cases
    case 1
    then show ?thesis using False b by (auto simp: binary_search_def Let_def)
  next
    case 2
    have "\<forall>x \<in> set (take (?b + 1) xs). key x < k"
      using 2 below by (auto simp: in_set_conv_nth less_Suc_eq)
    moreover have "\<forall>x \<in> set (drop (?b + 1) xs). k < key x"
      using above by (auto simp: in_set_conv_nth)
    ultimately show ?thesis using 2 False b
      by (intro disjI2 exI[of _ "?b + 1"]) (auto simp: binary_search_def Let_def)
  next
    case 3
    have "\<forall>x \<in> set (take ?b xs). key x < k"
      using below by (auto simp: in_set_conv_nth)
    moreover have "\<forall>x \<in> set (drop ?b xs). k < key x"
    proof -
      have "k < key (xs ! (?b + j))" if "?b + j < length xs" for j
        using 3 above that by (cases j) auto
      then show ?thesis by (auto simp: in_set_conv_nth)
    qed
    ultimately show ?thesis using 3 False b
      by (intro disjI2 exI[of _ ?b]) (auto simp: binary_search_def Let_def)
  qed
qed

end
