(* ===== verification/Keyed_Records.thy ===== *)
theory Keyed_Records
  imports Rust_Std
begin

text \<open>
  The two ordered containers of the catalog and the helpers that convert between them.

  \<^item> \<open>BTreeMap<String, T>\<close> of the engine's working catalog is a key-sorted association list
    (\<open>bt_insert\<close>, \<open>bt_get\<close>, \<open>bt_remove\<close>, \<open>bt_values\<close>); \<open>BTreeSet<String>\<close> is a sorted list.
  \<^item> the vectors of a \<open>CatalogSnapshot\<close> are sorted by the key inside each record; the store reads
    them with \<open>find_record\<close> and changes them with \<open>apply_snapshot_records\<close>, both by binary search.
  \<^item> \<open>records_by_key\<close> and \<open>record_diff\<close> of the engine turn a vector into a map and a changed map
    into the upserts and deletes of a batch.

  Both containers implement the interface \<open>ordered_map\<close>; its lemmas (two containers with the same
  lookup have the same entries; what a container holds after deletes and upserts) are proved once
  and used for both. The properties: binary search finds exactly the records of a sorted vector,
  and applying the diff of a working map gives back that map.
\<close>

section \<open>\<open>BTreeMap\<close> and \<open>BTreeSet\<close>\<close>

type_synonym ('k, 'v) btree = "('k \<times> 'v) list"

fun bt_insert :: "'k::linorder \<Rightarrow> 'v \<Rightarrow> ('k, 'v) btree \<Rightarrow> ('k, 'v) btree" where
  "bt_insert k v [] = [(k, v)]"
| "bt_insert k v (e # m) =
     (if fst e < k then e # bt_insert k v m
      else if fst e = k then (k, v) # m
      else (k, v) # e # m)"

definition bt_get :: "('k, 'v) btree \<Rightarrow> 'k \<Rightarrow> 'v option" where
  "bt_get m k = map_of m k"

definition bt_remove :: "'k \<Rightarrow> ('k, 'v) btree \<Rightarrow> ('k, 'v) btree" where
  "bt_remove k m = filter (\<lambda>e. fst e \<noteq> k) m"

definition bt_values :: "('k, 'v) btree \<Rightarrow> 'v list" where
  "bt_values m = map snd m"

text \<open>A loop over \<open>values_mut\<close> that rewrites every value in place.\<close>

definition bt_map_values :: "('v \<Rightarrow> 'v) \<Rightarrow> ('k, 'v) btree \<Rightarrow> ('k, 'v) btree" where
  "bt_map_values f m = map (\<lambda>(k, v). (k, f v)) m"

fun bset_insert :: "'k::linorder \<Rightarrow> 'k list \<Rightarrow> 'k list" where
  "bset_insert k [] = [k]"
| "bset_insert k (x # xs) =
     (if x < k then x # bset_insert k xs else if x = k then x # xs else k # x # xs)"

section \<open>Conversions\<close>

definition records_by_key :: "('r \<Rightarrow> 'k::linorder) \<Rightarrow> 'r list \<Rightarrow> ('k, 'r) btree" where
  "records_by_key key records = foldl (\<lambda>m r. bt_insert (key r) r m) [] records"

definition record_diff ::
  "('r \<Rightarrow> 'k::linorder) \<Rightarrow> 'r list \<Rightarrow> ('k, 'r) btree \<Rightarrow> 'r list \<times> 'k list" where
  "record_diff key before after =
     (let b = records_by_key key before;
          upserts = map snd (filter (\<lambda>(k, r). bt_get b k \<noteq> Some r) after);
          deletes = filter (\<lambda>k. bt_get after k = None) (map fst b)
      in (upserts, deletes))"

section \<open>Sorted vectors of records\<close>

definition find_record :: "('r \<Rightarrow> 'k::linorder) \<Rightarrow> 'r list \<Rightarrow> 'k \<Rightarrow> 'r option" where
  "find_record key records k =
     (case binary_search key records k of
        Ok i \<Rightarrow> if i < length records then Some (records ! i) else None
      | Err _ \<Rightarrow> None)"

definition upsert_record ::
  "'e \<Rightarrow> ('r \<Rightarrow> 'k::linorder) \<Rightarrow> 'r list \<Rightarrow> 'r \<Rightarrow> ('r list, 'e) result" where
  "upsert_record invalid_index key records r =
     (case binary_search key records (key r) of
        Ok i \<Rightarrow> if i < length records then Ok (records[i := r]) else Err invalid_index
      | Err i \<Rightarrow> Ok (take i records @ r # drop i records))"

definition apply_snapshot_records ::
  "'e \<Rightarrow> ('r \<Rightarrow> 'k::linorder) \<Rightarrow> 'r list \<Rightarrow> 'r list \<Rightarrow> 'k list \<Rightarrow> ('r list, 'e) result" where
  "apply_snapshot_records invalid_index key records upserts deletes =
     (if upserts = [] \<and> deletes = [] then Ok records
      else fold_result (upsert_record invalid_index key)
             (filter (\<lambda>r. key r \<notin> set deletes) records) upserts)"

section \<open>The ordered-map interface\<close>

locale ordered_map =
  fixes lookup :: "'m \<Rightarrow> 'k::linorder \<Rightarrow> 'v option"
    and update :: "'k \<Rightarrow> 'v \<Rightarrow> 'm \<Rightarrow> 'm"
    and retain :: "('k \<Rightarrow> bool) \<Rightarrow> 'm \<Rightarrow> 'm"
    and entries :: "'m \<Rightarrow> ('k \<times> 'v) list"
    and fits :: "'k \<Rightarrow> 'v \<Rightarrow> bool"
    and invar :: "'m \<Rightarrow> bool"
  assumes entries_sorted: "invar m \<Longrightarrow> strictly_sorted (map fst (entries m))"
    and lookup_entries: "invar m \<Longrightarrow> lookup m k = map_of (entries m) k"
    and invar_update: "invar m \<Longrightarrow> fits k v \<Longrightarrow> invar (update k v m)"
    and lookup_update: "invar m \<Longrightarrow> fits k v \<Longrightarrow> lookup (update k v m) = (lookup m)(k \<mapsto> v)"
    and invar_retain: "invar m \<Longrightarrow> invar (retain p m)"
    and lookup_retain: "invar m \<Longrightarrow> lookup (retain p m) k = (if p k then lookup m k else None)"
begin

lemma entries_distinct: "invar m \<Longrightarrow> distinct (map fst (entries m))"
  using entries_sorted strictly_sorted_iff by blast

lemma lookup_Some_iff: "invar m \<Longrightarrow> lookup m k = Some v \<longleftrightarrow> (k, v) \<in> set (entries m)"
  by (simp add: lookup_entries entries_distinct)

lemma entries_eqI:
  assumes "invar m" "invar n" "\<And>k. lookup m k = lookup n k"
  shows "entries m = entries n"
proof -
  have "set (entries m) = set (entries n)"
    using assms lookup_Some_iff by (metis subrelI subset_antisym)
  then show ?thesis
    using assms(1,2) entries_sorted by (intro strictly_sorted_map_eq[where f = fst]) auto
qed

lemma fold_update:
  assumes "invar m" "\<And>k v. (k, v) \<in> set es \<Longrightarrow> fits k v"
  shows "invar (fold (\<lambda>(k, v). update k v) es m)
    \<and> lookup (fold (\<lambda>(k, v). update k v) es m) k
      = (case map_of (rev es) k of Some v \<Rightarrow> Some v | None \<Rightarrow> lookup m k)"
  using assms
proof (induction es arbitrary: m)
  case (Cons e es)
  obtain a b where e: "e = (a, b)" by force
  have "invar (update a b m)" using Cons.prems e by (auto intro: invar_update)
  with Cons.IH[of "update a b m"] Cons.prems e show ?case
    by (auto simp: lookup_update map_add_def split: option.splits)
qed simp

text \<open>Deletes first, then upserts: what a record change leaves in the container.\<close>

lemma patch:
  assumes "invar m" "\<And>k v. (k, v) \<in> set es \<Longrightarrow> fits k v" "distinct (map fst es)"
  shows "invar (fold (\<lambda>(k, v). update k v) es (retain (\<lambda>k. k \<notin> D) m))"
    and "lookup (fold (\<lambda>(k, v). update k v) es (retain (\<lambda>k. k \<notin> D) m)) k =
      (case map_of es k of Some v \<Rightarrow> Some v | None \<Rightarrow> if k \<in> D then None else lookup m k)"
  using fold_update[of "retain (\<lambda>k. k \<notin> D) m" es k] assms
  by (auto simp: invar_retain lookup_retain map_of_rev_distinct split: option.splits)

end

section \<open>\<open>BTreeMap\<close> implements the interface\<close>

abbreviation bt_sorted :: "('k::linorder, 'v) btree \<Rightarrow> bool" where
  "bt_sorted m \<equiv> strictly_sorted (map fst m)"

lemma set_fst_bt_insert: "fst ` set (bt_insert k v m) = insert k (fst ` set m)"
  by (induction m) auto

lemma bt_insert_sorted: "bt_sorted m \<Longrightarrow> bt_sorted (bt_insert k v m)"
proof (induction m)
  case (Cons e m)
  then have IH: "bt_sorted (bt_insert k v m)" and e: "\<forall>x \<in> fst ` set m. fst e < x"
    by auto
  have "\<forall>x \<in> fst ` set (bt_insert k v m). fst e < x" if "fst e < k"
    using e that by (simp add: set_fst_bt_insert)
  with IH e Cons.prems show ?case by (fastforce dest: less_trans)
qed simp

lemma bt_get_insert: "bt_sorted m \<Longrightarrow> bt_get (bt_insert k v m) = (bt_get m)(k \<mapsto> v)"
proof (induction m)
  case (Cons e m)
  have "bt_get (bt_insert k v m) = (bt_get m)(k \<mapsto> v)"
    using Cons.prems by (intro Cons.IH) auto
  moreover have "map_of m k = None" if "k < fst e"
    using Cons.prems that by (auto simp: map_of_eq_None_iff)
  ultimately show ?case
    using Cons.prems by (cases e) (auto simp: bt_get_def fun_eq_iff not_less_iff_gr_or_eq)
qed (simp add: bt_get_def fun_eq_iff)

lemma bt_sorted_filter: "bt_sorted m \<Longrightarrow> bt_sorted (filter P m)"
  by (rule strictly_sorted_map_filter)

lemma map_of_filter_fst: "map_of (filter (\<lambda>e. p (fst e)) m) k = (if p k then map_of m k else None)"
  by (induction m) auto

interpretation btree: ordered_map bt_get bt_insert "\<lambda>p. filter (\<lambda>e. p (fst e))" "\<lambda>m. m"
  "\<lambda>_ _. True" bt_sorted
  by unfold_locales
    (auto simp: bt_get_insert bt_insert_sorted bt_sorted_filter bt_get_def map_of_filter_fst)

lemma bt_remove_sorted: "bt_sorted m \<Longrightarrow> bt_sorted (bt_remove k m)"
  by (simp add: bt_remove_def bt_sorted_filter)

lemma bt_get_remove: "bt_get (bt_remove k m) j = (if j = k then None else bt_get m j)"
  using map_of_filter_fst[of "\<lambda>j. j \<noteq> k" m j] by (simp add: bt_remove_def bt_get_def)

lemma fst_bt_map_values [simp]: "map fst (bt_map_values f m) = map fst m"
  by (induction m) (auto simp: bt_map_values_def)

lemma bt_get_map_values: "bt_get (bt_map_values f m) k = map_option f (bt_get m k)"
  by (induction m) (auto simp: bt_map_values_def bt_get_def)

lemma bt_get_Nil [simp]: "bt_get [] k = None"
  by (simp add: bt_get_def)

lemma bt_values_simps [simp]:
  "bt_values [] = []" "bt_values (bt_map_values f m) = map f (bt_values m)"
  "length (bt_values m) = length m"
  by (auto simp: bt_values_def bt_map_values_def)

lemma bt_values_iff: "bt_sorted m \<Longrightarrow> v \<in> set (bt_values m) \<longleftrightarrow> (\<exists>k. bt_get m k = Some v)"
  by (force simp: bt_values_def btree.lookup_Some_iff)

lemma set_bset_insert [simp]: "set (bset_insert k xs) = insert k (set xs)"
  by (induction xs) auto

section \<open>Sorted record vectors implement the interface\<close>

abbreviation key_sorted :: "('r \<Rightarrow> 'k::linorder) \<Rightarrow> 'r list \<Rightarrow> bool" where
  "key_sorted key rs \<equiv> strictly_sorted (map key rs)"

abbreviation keyed_entries :: "('r \<Rightarrow> 'k) \<Rightarrow> 'r list \<Rightarrow> ('k \<times> 'r) list" where
  "keyed_entries key rs \<equiv> map (\<lambda>r. (key r, r)) rs"

lemma map_of_keyed_entries:
  assumes "key_sorted key rs"
  shows "map_of (keyed_entries key rs) k = Some r \<longleftrightarrow> r \<in> set rs \<and> key r = k"
proof -
  have "distinct (map fst (keyed_entries key rs))"
    using assms by (simp add: comp_def strictly_sorted_iff)
  then show ?thesis by (auto simp: image_iff)
qed

lemma map_of_keyed_entries_None:
  "map_of (keyed_entries key rs) k = None \<longleftrightarrow> k \<notin> key ` set rs"
  by (force simp: map_of_eq_None_iff)

lemma find_record_sorted:
  assumes "key_sorted key rs"
  shows "find_record key rs k = map_of (keyed_entries key rs) k"
  using binary_search_cases[OF assms, of k]
proof
  assume "\<exists>i < length rs. binary_search key rs k = Ok i \<and> key (rs ! i) = k"
  then obtain i where i: "i < length rs" "binary_search key rs k = Ok i" "key (rs ! i) = k" by blast
  then have "map_of (keyed_entries key rs) k = Some (rs ! i)"
    by (simp add: map_of_keyed_entries[OF assms])
  with i show ?thesis by (simp add: find_record_def)
next
  assume "\<exists>i \<le> length rs. binary_search key rs k = Err i
    \<and> (\<forall>x \<in> set (take i rs). key x < k) \<and> (\<forall>x \<in> set (drop i rs). k < key x)"
  then obtain i where i: "binary_search key rs k = Err i"
    "\<forall>x \<in> set (take i rs). key x < k" "\<forall>x \<in> set (drop i rs). k < key x" by blast
  have "set rs = set (take i rs) \<union> set (drop i rs)"
    by (metis append_take_drop_id set_append)
  with i(2,3) have "k \<notin> key ` set rs" by auto
  then have "map_of (keyed_entries key rs) k = None" by (simp add: map_of_keyed_entries_None)
  with i(1) show ?thesis by (simp add: find_record_def)
qed

lemma upsert_record_sorted:
  assumes "key_sorted key rs"
  shows "\<exists>rs'. upsert_record e key rs r = Ok rs' \<and> key_sorted key rs'
    \<and> set rs' = insert r {x \<in> set rs. key x \<noteq> key r}"
  using binary_search_cases[OF assms, of "key r"]
proof
  assume "\<exists>i < length rs. binary_search key rs (key r) = Ok i \<and> key (rs ! i) = key r"
  then obtain i where i: "i < length rs" "binary_search key rs (key r) = Ok i" "key (rs ! i) = key r"
    by blast
  have keys: "map key (rs[i := r]) = map key rs"
    using i by (metis list_update_id map_update nth_map)
  have inj: "inj_on key (set rs)" and dist: "distinct rs"
    using assms by (auto simp: strictly_sorted_iff distinct_map)
  have "set (rs[i := r]) = insert r (set rs - {rs ! i})"
    using set_update_distinct[OF dist i(1)] by simp
  moreover have "x = rs ! i" if "x \<in> set rs" "key x = key r" for x
    using inj_onD[OF inj, of x "rs ! i"] that i(3) nth_mem[OF i(1)] by simp
  then have "set rs - {rs ! i} = {x \<in> set rs. key x \<noteq> key r}" using i(3) by auto
  ultimately have "set (rs[i := r]) = insert r {x \<in> set rs. key x \<noteq> key r}" by simp
  then show ?thesis using assms i keys by (auto simp: upsert_record_def)
next
  assume "\<exists>i \<le> length rs. binary_search key rs (key r) = Err i
    \<and> (\<forall>x \<in> set (take i rs). key x < key r) \<and> (\<forall>x \<in> set (drop i rs). key r < key x)"
  then obtain i where i: "binary_search key rs (key r) = Err i"
    "\<forall>x \<in> set (take i rs). key x < key r" "\<forall>x \<in> set (drop i rs). key r < key x" by blast
  let ?new = "take i rs @ r # drop i rs"
  have split: "set rs = set (take i rs) \<union> set (drop i rs)"
    by (metis append_take_drop_id set_append)
  have "key_sorted key (take i rs @ drop i rs)" using assms by simp
  then have "key_sorted key ?new"
    using i(2,3) by (auto simp: sorted_wrt_append simp del: append_take_drop_id)
  moreover have "key x \<noteq> key r" if "x \<in> set (take i rs) \<union> set (drop i rs)" for x
    using that i(2,3) by (metis UnE less_irrefl)
  then have "{x \<in> set (take i rs) \<union> set (drop i rs). key x \<noteq> key r}
      = set (take i rs) \<union> set (drop i rs)"
    by blast
  then have "set ?new = insert r {x \<in> set rs. key x \<noteq> key r}"
    unfolding split by simp
  ultimately show ?thesis using i(1) by (auto simp: upsert_record_def)
qed

definition vec_update :: "('r \<Rightarrow> 'k::linorder) \<Rightarrow> 'k \<Rightarrow> 'r \<Rightarrow> 'r list \<Rightarrow> 'r list" where
  "vec_update key k r rs = (case upsert_record () key rs r of Ok rs' \<Rightarrow> rs' | Err _ \<Rightarrow> rs)"

lemma vec_update_sorted:
  assumes "key_sorted key rs"
  shows "key_sorted key (vec_update key k r rs)"
    and "set (vec_update key k r rs) = insert r {x \<in> set rs. key x \<noteq> key r}"
proof -
  obtain rs' where rs': "upsert_record () key rs r = Ok rs'" "key_sorted key rs'"
    "set rs' = insert r {x \<in> set rs. key x \<noteq> key r}"
    using upsert_record_sorted[OF assms, of "()" r] by blast
  have eq: "vec_update key k r rs = rs'" by (simp add: vec_update_def rs'(1))
  show "key_sorted key (vec_update key k r rs)" unfolding eq by (rule rs'(2))
  show "set (vec_update key k r rs) = insert r {x \<in> set rs. key x \<noteq> key r}"
    unfolding eq by (rule rs'(3))
qed

lemma upsert_record_vec_update:
  assumes "key_sorted key rs"
  shows "upsert_record e key rs r = Ok (vec_update key (key r) r rs)"
proof -
  consider i where "i < length rs" "binary_search key rs (key r) = Ok i"
    | i where "binary_search key rs (key r) = Err i"
    using binary_search_cases[OF assms, of "key r"] by blast
  then show ?thesis by cases (simp_all add: vec_update_def upsert_record_def)
qed

lemma map_of_vec_update:
  assumes "key_sorted key rs" "key r = k"
  shows "map_of (keyed_entries key (vec_update key k r rs)) = (map_of (keyed_entries key rs))(k \<mapsto> r)"
proof
  fix j
  note up = vec_update_sorted[OF assms(1), of k r]
  show "map_of (keyed_entries key (vec_update key k r rs)) j
      = ((map_of (keyed_entries key rs))(k \<mapsto> r)) j"
  proof (cases "map_of (keyed_entries key (vec_update key k r rs)) j")
    case None
    then have "j \<notin> key ` set (vec_update key k r rs)" unfolding map_of_keyed_entries_None .
    then have "j \<noteq> k" "j \<notin> key ` set rs" using up(2) assms(2) by auto
    then have "map_of (keyed_entries key rs) j = None" by (simp add: map_of_keyed_entries_None)
    with None \<open>j \<noteq> k\<close> show ?thesis by simp
  next
    case (Some x)
    then have x: "x = r \<and> j = k \<or> x \<in> set rs \<and> key x = j \<and> j \<noteq> k"
      unfolding map_of_keyed_entries[OF up(1)] up(2) using assms(2) by auto
    then have "j \<noteq> k \<Longrightarrow> map_of (keyed_entries key rs) j = Some x"
      by (simp add: map_of_keyed_entries[OF assms(1)])
    with x Some show ?thesis by auto
  qed
qed

lemma keyed_entries_filter:
  "keyed_entries key (filter (\<lambda>r. p (key r)) rs) = filter (\<lambda>e. p (fst e)) (keyed_entries key rs)"
  by (induction rs) auto

interpretation vec: ordered_map "find_record key" "vec_update key"
  "\<lambda>p. filter (\<lambda>r. p (key r))" "keyed_entries key" "\<lambda>k r. key r = k" "key_sorted key" for key
proof (unfold_locales, goal_cases)
  case (1 m)
  then show ?case by (simp add: comp_def)
next
  case (2 m k)
  then show ?case by (rule find_record_sorted)
next
  case (3 m k v)
  then show ?case by (simp add: vec_update_sorted)
next
  case (4 m k v)
  then show ?case
    by (simp add: find_record_sorted vec_update_sorted map_of_vec_update fun_eq_iff del: map_of_map)
next
  case (5 m p)
  then show ?case by (rule strictly_sorted_map_filter)
next
  case (6 m p k)
  have "key_sorted key (filter (\<lambda>r. p (key r)) m)"
    using 6 by (rule strictly_sorted_map_filter)
  then show ?case
    using 6 unfolding find_record_sorted[OF 6] keyed_entries_filter map_of_filter_fst
    by (simp add: find_record_sorted keyed_entries_filter map_of_filter_fst)
qed

section \<open>Diff and patch\<close>

lemma bt_insert_last: "\<forall>x \<in> fst ` set m. x < k \<Longrightarrow> bt_insert k v m = m @ [(k, v)]"
  by (induction m) auto

lemma records_by_key_sorted:
  assumes "key_sorted key rs"
  shows "records_by_key key rs = keyed_entries key rs"
proof -
  have "foldl (\<lambda>m r. bt_insert (key r) r m) (keyed_entries key xs) ys = keyed_entries key (xs @ ys)"
    if "key_sorted key (xs @ ys)" for xs ys
    using that
  proof (induction ys arbitrary: xs)
    case (Cons y ys)
    then have "bt_insert (key y) y (keyed_entries key xs) = keyed_entries key (xs @ [y])"
      by (subst bt_insert_last) (auto simp: sorted_wrt_append)
    with Cons show ?case using Cons.IH[of "xs @ [y]"] by simp
  qed simp
  from this[of "[]" rs] assms show ?thesis by (simp add: records_by_key_def)
qed

lemma fold_result_upsert:
  assumes "key_sorted key rs"
  shows "fold_result (upsert_record e key) rs us
    = Ok (fold (\<lambda>(k, r). vec_update key k r) (keyed_entries key us) rs)"
  using assms
proof (induction us arbitrary: rs)
  case (Cons u us)
  then show ?case
    using Cons.IH[of "vec_update key (key u) u rs"]
    by (simp add: upsert_record_vec_update vec_update_sorted)
qed simp

text \<open>What the records are after any patch with distinct upsert keys.\<close>

lemma apply_snapshot_records_sorted:
  assumes "key_sorted key rs" "distinct (map key us)"
  shows "\<exists>rs'. apply_snapshot_records e key rs us ds = Ok rs' \<and> key_sorted key rs'
    \<and> (\<forall>k. find_record key rs' k =
        (case map_of (keyed_entries key us) k of Some r \<Rightarrow> Some r
         | None \<Rightarrow> if k \<in> set ds then None else find_record key rs k))"
proof (cases "us = [] \<and> ds = []")
  case True
  then show ?thesis using assms by (simp add: apply_snapshot_records_def)
next
  case False
  let ?kept = "filter (\<lambda>r. key r \<notin> set ds) rs"
  let ?final = "fold (\<lambda>(k, r). vec_update key k r) (keyed_entries key us) ?kept"
  have dist: "distinct (map fst (keyed_entries key us))" using assms(2) by (simp add: comp_def)
  have "apply_snapshot_records e key rs us ds = Ok ?final"
    using False fold_result_upsert[of key ?kept e us] assms(1)
    by (auto simp: apply_snapshot_records_def strictly_sorted_map_filter)
  moreover have "key_sorted key ?final"
    by (rule vec.patch(1)[OF assms(1) _ dist]) auto
  moreover have "find_record key ?final k =
      (case map_of (keyed_entries key us) k of Some r \<Rightarrow> Some r
       | None \<Rightarrow> if k \<in> set ds then None else find_record key rs k)" for k
    by (rule vec.patch(2)[OF assms(1) _ dist]) auto
  ultimately show ?thesis by blast
qed

abbreviation keyed :: "('r \<Rightarrow> 'k) \<Rightarrow> ('k, 'r) btree \<Rightarrow> bool" where
  "keyed key m \<equiv> \<forall>(k, r) \<in> set m. key r = k"

lemma keyed_entries_values: "keyed key m \<Longrightarrow> keyed_entries key (bt_values m) = m"
  by (induction m) (auto simp: bt_values_def)

lemma map_key_values: "keyed key m \<Longrightarrow> map key (bt_values m) = map fst m"
  by (induction m) (auto simp: bt_values_def)

lemma key_sorted_values: "bt_sorted m \<Longrightarrow> keyed key m \<Longrightarrow> key_sorted key (bt_values m)"
  by (simp add: map_key_values)

lemma map_of_filter_distinct:
  "distinct (map fst m) \<Longrightarrow> map_of (filter P m) k
    = (case map_of m k of None \<Rightarrow> None | Some v \<Rightarrow> if P (k, v) then Some v else None)"
  by (induction m) (auto split: option.splits simp: map_of_eq_None_iff image_iff)

lemma vec_eqI:
  assumes "key_sorted key xs" "key_sorted key ys" "\<And>k. find_record key xs k = find_record key ys k"
  shows "xs = ys"
proof -
  have "map snd (keyed_entries key xs) = map snd (keyed_entries key ys)"
    using vec.entries_eqI[OF assms] by simp
  then show ?thesis by (simp add: comp_def)
qed

text \<open>
  Applying the diff of a map to the vector it was read from yields the values of the map.
\<close>

lemma record_diff_apply:
  assumes before: "key_sorted key before" and after: "bt_sorted after" "keyed key after"
    and diff: "record_diff key before after = (us, ds)"
  shows "apply_snapshot_records e key before us ds = Ok (bt_values after)"
proof -
  let ?b = "keyed_entries key before"
  let ?F = "filter (\<lambda>(k, r). map_of ?b k \<noteq> Some r) after"
  have dist: "distinct (map fst after)" using after(1) strictly_sorted_iff by blast
  have us: "us = bt_values ?F" and ds: "ds = filter (\<lambda>k. map_of after k = None) (map fst ?b)"
    using diff records_by_key_sorted[OF before]
    by (auto simp: record_diff_def Let_def bt_get_def bt_values_def)
  have F: "keyed_entries key us = ?F"
    unfolding us using after(2) by (intro keyed_entries_values) auto
  have "key_sorted key us"
    unfolding us using after by (intro key_sorted_values bt_sorted_filter) auto
  then have "distinct (map key us)" using strictly_sorted_iff by blast
  from apply_snapshot_records_sorted[OF before this, of e ds] obtain rs' where
    rs': "apply_snapshot_records e key before us ds = Ok rs'" "key_sorted key rs'"
    and look: "\<And>k. find_record key rs' k = (case map_of (keyed_entries key us) k of Some r \<Rightarrow> Some r
         | None \<Rightarrow> if k \<in> set ds then None else find_record key before k)"
    by blast
  have goal: "key_sorted key (bt_values after)" using after by (rule key_sorted_values)
  have "rs' = bt_values after"
  proof (rule vec_eqI[OF rs'(2) goal])
    fix k
    have "find_record key (bt_values after) k = map_of after k"
      unfolding find_record_sorted[OF goal] keyed_entries_values[OF after(2)] ..
    moreover have "k \<in> set ds \<longleftrightarrow> map_of after k = None \<and> map_of ?b k \<noteq> None"
      unfolding ds by (force simp: map_of_eq_None_iff)
    ultimately show "find_record key rs' k = find_record key (bt_values after) k"
      unfolding look F find_record_sorted[OF before] map_of_filter_distinct[OF dist]
      by (auto split: option.splits)
  qed
  with rs'(1) show ?thesis by simp
qed

end
