(* ===== verification/Catalog_Model.thy ===== *)
theory Catalog_Model
  imports Keyed_Records
begin

text \<open>
  The data of the Zone Catalog and its record-level validators, from
  \<^verbatim>\<open>src/src/inspection/catalog/model.rs\<close> and the catalog types of
  \<^verbatim>\<open>src/src/inspection/zones.rs\<close>.

  Structs are records whose fields carry a short prefix (\<open>br\<close> for a block reference, \<open>cp\<close> for a
  checkpoint, \<open>fr\<close> for the frontier, \<open>sg\<close> for a segment, \<open>gp\<close> for a gap, \<open>zr\<close> for a zone record,
  \<open>ev\<close> for an evidence reference, \<open>cb\<close> for a batch, \<open>cs\<close> for a snapshot, \<open>cm\<close> for the metadata).
  Enum constructors whose Rust names clash carry their enum's name. The text of an error is one
  constructor per message of the source, with the label of the checked field as an argument.
\<close>

section \<open>Enumerations\<close>

datatype network_scope =
    GenesisId string
  | FinalizedAnchor string u64 string string

datatype coverage_status = CoverageComplete | CoveragePartial | CoverageRebuilding | CoverageUnknown

datatype prefix_status = PrefixComplete | PrefixUnavailable | PrefixUnknown

datatype l1_finality = L1Final | L1Finalizing | L1Unknown

datatype gap_reason = MissingParent | MissingBlockBody | ParentLinkMismatch | SourceUnavailable

datatype gap_status = GapPending | GapRepairing | GapBackoff

datatype snapshot_origin = ReplayDerived | PointSnapshotOrigin | FullConfiguration

datatype evidence_kind =
    ChannelCreated | ChannelConfiguration | ChannelOperation | SequencerBlock | RawInscription

datatype evidence_use = Presence | PointSnapshot | ReplayContribution

datatype identity_assurance = Provisional | SourceAttested | AncestryVerified

datatype transition_stage = Prepared | SettingsRebound | Committed

section \<open>Errors\<close>

datatype (plugins only: code size) label =
    LCatalogFileId | LCoverageSegmentId | LCoverageGapId | LLowerCoverageSegmentId
  | LUpperCoverageSegmentId | LRequiredParentId | LChannelId | LChannelTipHash
  | LSequencerCommitteeMember | LLatestEvidenceId | LSnapshotCoverageSegmentId | LEvidenceId
  | LEvidenceChannelId | LEvidenceCoverageSegmentId | LEvidenceBlockId | LEvidenceTransactionHash
  | LGenesisId | LFinalizedAnchorBlockId | LFinalizedAnchorParentId | LCheckpointBlockId
  | LCheckpointParentId | LBlockId | LDeletedChannelId | LDeletedEvidenceId
  | LDeletedCoverageSegmentId | LDeletedCoverageGapId | LTargetLib | LRepairBlock
  | LRepairUpperCheckpoint | LRepairLowerCheckpoint | LRecoveredBlock | LConfirmedTargetLib
  | LConfirmedLowerCheckpoint | LConfirmedUpperFrontier | LVerifiedUpperFrontier
  | LMissingRepairBlockId | LUnresolvedRepairBlockId | LExpectedGenesisId | LTransactionHash
  | LBlockIdOf label | LIdOf label | LParentIdOf label

datatype record_label =
  RMetadata | RFrontier | RTraversal | RSegment | REvidence | RZone | RGap

datatype invalidation_reason =
    DatabaseUnreadable | SchemaMissing | SchemaVersion | TableSchema | RecordVersion
  | RecordDecode | RecordInvariant

datatype (plugins only: code size) catalog_error =
    Invalidated invalidation_reason catalog_detail
  | RevisionConflict u64 u64
  | InvalidInput catalog_detail
  | Storage catalog_detail
and catalog_detail =
    NotCanonicalHex label | NotHex label | InvalidLocalId label
  | AliasDuplicatesScope | DuplicateAliases | TransitionNotStrengthening
  | PendingTransitionChangedScope | CommittedTransitionIncomplete | AncestryNeedsGenesis
  | CheckpointSlotMismatch | ScannedWithoutCheckpoint | FrontierBeyondLib | FloorBeyondFrontier
  | CursorBeyondTarget | FrontierPrecedesFloor | SingleBlockConflict | GapJoinsSameSegment
  | GapUpperNotAfterLower | InvalidZoneLabel | DuplicateCommitteeMembers | ActiveNotAccredited
  | LastSeenPrecedesFirst | ZoneWithoutEvidence | InvalidMessageId | InvalidGenesisTime
  | RandomnessUnavailable
  | PersistedInvalid record_label catalog_error
  | UpdatePrecedesCreation | EvidenceSegmentMissing string | EvidenceOutsideSegment string
  | EvidenceCountOverflow | ZoneSegmentMissing string | ZoneOutsideSegment string
  | ZoneLatestMissing string | ZoneLatestForeign string | ZoneCountMismatch string u64 u64
  | OrphanEvidence string | GapLowerMissing string | GapUpperMissing string
  | GapBoundaryMismatch string | InvalidReplacementIndex
  | EvidenceRemovalOverflow | EvidenceAdditionOverflow | EvidenceRemovalExceeds
  | DuplicateUpsert record_label string | DuplicateDelete record_label string
  | UpsertedAndDeleted record_label string
  | BatchViolatesInvariant catalog_detail
  | ReadOnlyCommit | TimeMovesBackwards | RevisionExhausted | ReadOnlyMetadataUpdate
  | StoreOwnedFieldsChanged | NewRevisionNotZero | PathExists | RecordMissing record_label
  | SchemaRecordMissing | SchemaDecodeFailed | SchemaVersionMismatch u32 | SchemaRecordVersion u32
  | RecordDecodeFailed record_label | RecordVersionMismatch record_label u32
  | KeyMismatch record_label | EncodeFailed
  | OtherTransitionExists | ScopeChangedBeforePromotion | TransitionMissing | TransitionBoundariesChanged
  | SettingsNotRebound

type_synonym 'a catalog_result = "('a, catalog_error) result"

section \<open>Records\<close>

record block_reference =
  br_slot :: u64
  br_block_id :: string

record block_checkpoint =
  cp_slot :: u64
  cp_block_id :: string
  cp_parent_id :: string

record frontier =
  fr_scanned_through_slot :: "u64 option"
  fr_checkpoint :: "block_checkpoint option"
  fr_observed_lib :: "block_reference option"
  fr_coverage_floor :: "u64 option"
  fr_prefix_status :: prefix_status
  fr_coverage_status :: coverage_status

record traversal =
  tr_target_lib :: "block_reference option"
  tr_ingestion_cursor :: "block_reference option"

record coverage_segment =
  sg_segment_id :: string
  sg_floor :: block_checkpoint
  sg_frontier :: block_reference
  sg_reaches_target_lib :: bool

record coverage_gap =
  gp_gap_id :: string
  gp_lower_segment_id :: string
  gp_lower_checkpoint :: block_reference
  gp_upper_segment_id :: string
  gp_upper_block :: block_reference
  gp_required_parent_id :: string
  gp_reason :: gap_reason
  gp_status :: gap_status
  gp_attempts :: u32
  gp_first_seen_at_unix :: u64
  gp_last_attempt_at_unix :: "u64 option"

record l1_channel =
  lc_tip_slot :: "u64 option"
  lc_tip_hash :: "string option"
  lc_lib_slot :: "u64 option"
  lc_balance :: "string option"
  lc_key_count :: "u64 option"
  lc_withdraw_threshold :: "string option"
  lc_operation_count :: u64
  lc_finality_state :: l1_finality

record sequencer_committee =
  sc_members :: "string list"
  sc_active_member :: "string option"
  sc_observed_at_slot :: "u64 option"

record classification_counters =
  cc_channel_operations :: u64
  cc_recognized_l2_blocks :: u64
  cc_raw_inscriptions :: u64
  cc_conflicting_evidence :: bool

record snapshot_provenance =
  sp_origin :: snapshot_origin
  sp_coverage_segment_id :: string
  sp_observed_slot :: u64
  sp_source_revision :: u64

record zone_record =
  zr_channel_id :: string
  zr_observed_label :: "string option"
  zr_l1_channel :: l1_channel
  zr_sequencer_committee :: "sequencer_committee option"
  zr_classification :: classification_counters
  zr_first_seen_slot :: u64
  zr_last_seen_slot :: u64
  zr_latest_evidence_id :: string
  zr_evidence_count :: u64
  zr_snapshot_provenance :: snapshot_provenance
  zr_updated_at_unix :: u64

record evidence_reference =
  ev_evidence_id :: string
  ev_channel_id :: string
  ev_coverage_segment_id :: string
  ev_l1_slot :: u64
  ev_block_id :: string
  ev_transaction_hash :: "string option"
  ev_operation_index :: u32
  ev_message_id :: "string option"
  ev_evidence_kind :: evidence_kind
  ev_evidence_use :: evidence_use

record identity_alias =
  ia_network_scope :: network_scope
  ia_accepted_at_unix :: u64

record identity_transition =
  it_old_scope :: network_scope
  it_new_scope :: network_scope
  it_anchor :: block_checkpoint
  it_checkpoint :: block_checkpoint
  it_source_revision :: u64
  it_stage :: transition_stage
  it_prepared_at_unix :: u64

record catalog_metadata =
  cm_catalog_file_id :: string
  cm_network_scope :: network_scope
  cm_identity_aliases :: "identity_alias list"
  cm_identity_assurance :: identity_assurance
  cm_identity_transition :: "identity_transition option"
  cm_catalog_revision :: u64
  cm_created_at_unix :: u64
  cm_updated_at_unix :: u64

record catalog_batch =
  cb_expected_catalog_revision :: u64
  cb_updated_at_unix :: u64
  cb_upsert_zones :: "zone_record list"
  cb_delete_zone_ids :: "string list"
  cb_upsert_evidence :: "evidence_reference list"
  cb_delete_evidence_ids :: "string list"
  cb_upsert_segments :: "coverage_segment list"
  cb_delete_segment_ids :: "string list"
  cb_upsert_gaps :: "coverage_gap list"
  cb_delete_gap_ids :: "string list"
  cb_frontier :: "frontier option"
  cb_traversal :: "traversal option"

record catalog_snapshot =
  cs_metadata :: catalog_metadata
  cs_frontier :: "frontier option"
  cs_traversal :: "traversal option"
  cs_zones :: "zone_record list"
  cs_evidence :: "evidence_reference list"
  cs_segments :: "coverage_segment list"
  cs_gaps :: "coverage_gap list"

section \<open>Identifiers\<close>

definition validate_hex_id :: "string \<Rightarrow> label \<Rightarrow> unit catalog_result" where
  "validate_hex_id v l =
     (if length v \<noteq> 64 \<or> \<not> list_all is_lower_hexdigit v
      then Err (InvalidInput (NotCanonicalHex l)) else Ok ())"

definition canonical_hex_id :: "string \<Rightarrow> label \<Rightarrow> string catalog_result" where
  "canonical_hex_id v l =
     (let t = trim v;
          t = (case strip_prefix ''0x'' t of Some r \<Rightarrow> r
               | None \<Rightarrow> (case strip_prefix ''0X'' t of Some r \<Rightarrow> r | None \<Rightarrow> t))
      in if length t \<noteq> 64 \<or> \<not> list_all is_ascii_hexdigit t
         then Err (InvalidInput (NotHex l)) else Ok (to_ascii_lowercase t))"

definition validate_local_id :: "string \<Rightarrow> label \<Rightarrow> unit catalog_result" where
  "validate_local_id v l =
     (if v = [] \<or> 256 < length v \<or> has_control v
      then Err (InvalidInput (InvalidLocalId l)) else Ok ())"

section \<open>Record validators\<close>

definition validate_checkpoint :: "block_checkpoint \<Rightarrow> unit catalog_result" where
  "validate_checkpoint c =
     and_then (validate_hex_id (cp_block_id c) LCheckpointBlockId)
       (\<lambda>_. validate_hex_id (cp_parent_id c) LCheckpointParentId)"

definition validate_block_reference :: "block_reference \<Rightarrow> unit catalog_result" where
  "validate_block_reference r = validate_hex_id (br_block_id r) LBlockId"

fun validate_network_scope :: "network_scope \<Rightarrow> unit catalog_result" where
  "validate_network_scope (GenesisId g) = validate_hex_id g LGenesisId"
| "validate_network_scope (FinalizedAnchor time slot b p) =
     (if time = [] \<or> has_control time then Err (InvalidInput InvalidGenesisTime)
      else and_then (validate_hex_id b LFinalizedAnchorBlockId)
             (\<lambda>_. validate_hex_id p LFinalizedAnchorParentId))"

fun canonical_network_scope :: "network_scope \<Rightarrow> network_scope catalog_result" where
  "canonical_network_scope (GenesisId g) =
     and_then (canonical_hex_id g LGenesisId) (\<lambda>g'. Ok (GenesisId g'))"
| "canonical_network_scope (FinalizedAnchor time slot b p) =
     (let t = trim time
      in if t = [] \<or> has_control t then Err (InvalidInput InvalidGenesisTime)
         else and_then (canonical_hex_id b LFinalizedAnchorBlockId) (\<lambda>b'.
              and_then (canonical_hex_id p LFinalizedAnchorParentId) (\<lambda>p'.
              Ok (FinalizedAnchor t slot b' p'))))"

definition is_genesis_scope :: "network_scope \<Rightarrow> bool" where
  "is_genesis_scope s = (case s of GenesisId _ \<Rightarrow> True | FinalizedAnchor _ _ _ _ \<Rightarrow> False)"

text \<open>The alias loop of \<open>validate_metadata\<close>: \<open>earlier\<close> are the aliases before the current index.\<close>

fun validate_aliases ::
  "network_scope \<Rightarrow> network_scope list \<Rightarrow> identity_alias list \<Rightarrow> unit catalog_result" where
  "validate_aliases scope earlier [] = Ok ()"
| "validate_aliases scope earlier (a # as) =
     and_then (validate_network_scope (ia_network_scope a)) (\<lambda>_.
     if ia_network_scope a = scope then Err (InvalidInput AliasDuplicatesScope)
     else if ia_network_scope a \<in> set earlier then Err (InvalidInput DuplicateAliases)
     else validate_aliases scope (earlier @ [ia_network_scope a]) as)"

definition validate_transition ::
  "catalog_metadata \<Rightarrow> identity_transition \<Rightarrow> unit catalog_result" where
  "validate_transition m t =
     and_then (validate_network_scope (it_old_scope t)) (\<lambda>_.
     and_then (validate_network_scope (it_new_scope t)) (\<lambda>_.
     and_then (validate_checkpoint (it_anchor t)) (\<lambda>_.
     and_then (validate_checkpoint (it_checkpoint t)) (\<lambda>_.
     if is_genesis_scope (it_old_scope t) \<or> \<not> is_genesis_scope (it_new_scope t)
     then Err (InvalidInput TransitionNotStrengthening)
     else case it_stage t of
        Committed \<Rightarrow>
          if cm_network_scope m \<noteq> it_new_scope t
             \<or> it_old_scope t \<notin> ia_network_scope ` set (cm_identity_aliases m)
          then Err (InvalidInput CommittedTransitionIncomplete) else Ok ()
      | _ \<Rightarrow>
          if cm_network_scope m \<noteq> it_old_scope t
          then Err (InvalidInput PendingTransitionChangedScope) else Ok ()))))"

definition validate_metadata :: "catalog_metadata \<Rightarrow> unit catalog_result" where
  "validate_metadata m =
     and_then (validate_local_id (cm_catalog_file_id m) LCatalogFileId) (\<lambda>_.
     and_then (validate_network_scope (cm_network_scope m)) (\<lambda>_.
     and_then (validate_aliases (cm_network_scope m) [] (cm_identity_aliases m)) (\<lambda>_.
     and_then (case cm_identity_transition m of None \<Rightarrow> Ok () | Some t \<Rightarrow> validate_transition m t)
       (\<lambda>_. if cm_identity_assurance m = AncestryVerified
               \<and> \<not> is_genesis_scope (cm_network_scope m)
            then Err (InvalidInput AncestryNeedsGenesis) else Ok ()))))"

definition catalog_metadata_new ::
  "string option \<Rightarrow> network_scope \<Rightarrow> u64 \<Rightarrow> catalog_metadata catalog_result" where
  "catalog_metadata_new random_hex scope created =
     and_then (canonical_network_scope scope) (\<lambda>scope'.
     and_then (ok_or random_hex (Storage RandomnessUnavailable)) (\<lambda>r.
     Ok \<lparr>cm_catalog_file_id = ''catalog_'' @ r, cm_network_scope = scope',
         cm_identity_aliases = [],
         cm_identity_assurance =
           (if is_genesis_scope scope' then SourceAttested else Provisional),
         cm_identity_transition = None, cm_catalog_revision = 0,
         cm_created_at_unix = created, cm_updated_at_unix = created\<rparr>))"

definition validate_frontier :: "frontier \<Rightarrow> unit catalog_result" where
  "validate_frontier f =
     and_then (case fr_checkpoint f of
         Some c \<Rightarrow> and_then (validate_checkpoint c) (\<lambda>_.
           fail_if (fr_scanned_through_slot f \<noteq> Some (cp_slot c))
             (InvalidInput CheckpointSlotMismatch))
       | None \<Rightarrow> fail_if (fr_scanned_through_slot f \<noteq> None)
             (InvalidInput ScannedWithoutCheckpoint)) (\<lambda>_.
     and_then (case fr_observed_lib f of
         Some l \<Rightarrow> and_then (validate_block_reference l) (\<lambda>_.
           fail_if (is_some_and (fr_scanned_through_slot f) (\<lambda>s. s > br_slot l))
             (InvalidInput FrontierBeyondLib))
       | None \<Rightarrow> Ok ()) (\<lambda>_.
     fail_if (is_some_and (fr_coverage_floor f) (\<lambda>floor.
         is_none_or (fr_scanned_through_slot f) (\<lambda>scanned. floor > scanned)))
       (InvalidInput FloorBeyondFrontier)))"

definition validate_traversal :: "traversal \<Rightarrow> unit catalog_result" where
  "validate_traversal t =
     and_then (case tr_target_lib t of Some r \<Rightarrow> validate_block_reference r | None \<Rightarrow> Ok ()) (\<lambda>_.
     case tr_ingestion_cursor t of
        Some c \<Rightarrow> and_then (validate_block_reference c) (\<lambda>_.
          fail_if (is_some_and (tr_target_lib t) (\<lambda>target. br_slot c > br_slot target))
            (InvalidInput CursorBeyondTarget))
      | None \<Rightarrow> Ok ())"

definition validate_segment :: "coverage_segment \<Rightarrow> unit catalog_result" where
  "validate_segment s =
     and_then (validate_local_id (sg_segment_id s) LCoverageSegmentId) (\<lambda>_.
     and_then (validate_checkpoint (sg_floor s)) (\<lambda>_.
     and_then (validate_block_reference (sg_frontier s)) (\<lambda>_.
     if br_slot (sg_frontier s) < cp_slot (sg_floor s)
     then Err (InvalidInput FrontierPrecedesFloor)
     else if br_slot (sg_frontier s) = cp_slot (sg_floor s)
             \<and> br_block_id (sg_frontier s) \<noteq> cp_block_id (sg_floor s)
     then Err (InvalidInput SingleBlockConflict) else Ok ())))"

definition validate_gap :: "coverage_gap \<Rightarrow> unit catalog_result" where
  "validate_gap g =
     and_then (validate_local_id (gp_gap_id g) LCoverageGapId) (\<lambda>_.
     and_then (validate_local_id (gp_lower_segment_id g) LLowerCoverageSegmentId) (\<lambda>_.
     and_then (validate_local_id (gp_upper_segment_id g) LUpperCoverageSegmentId) (\<lambda>_.
     and_then (validate_block_reference (gp_lower_checkpoint g)) (\<lambda>_.
     and_then (validate_block_reference (gp_upper_block g)) (\<lambda>_.
     and_then (validate_hex_id (gp_required_parent_id g) LRequiredParentId) (\<lambda>_.
     if gp_lower_segment_id g = gp_upper_segment_id g
     then Err (InvalidInput GapJoinsSameSegment)
     else if br_slot (gp_upper_block g) \<le> br_slot (gp_lower_checkpoint g)
     then Err (InvalidInput GapUpperNotAfterLower) else Ok ()))))))"

text \<open>The member loop of \<open>validate_zone\<close>: \<open>seen\<close> is the hash set of earlier members.\<close>

fun validate_members :: "string list \<Rightarrow> string list \<Rightarrow> unit catalog_result" where
  "validate_members seen [] = Ok ()"
| "validate_members seen (m # ms) =
     and_then (validate_local_id m LSequencerCommitteeMember) (\<lambda>_.
     if m \<in> set seen then Err (InvalidInput DuplicateCommitteeMembers)
     else validate_members (m # seen) ms)"

definition validate_committee :: "sequencer_committee \<Rightarrow> unit catalog_result" where
  "validate_committee c =
     and_then (validate_members [] (sc_members c)) (\<lambda>_.
     fail_if (is_some_and (sc_active_member c) (\<lambda>a. a \<notin> set (sc_members c)))
       (InvalidInput ActiveNotAccredited))"

definition validate_zone :: "zone_record \<Rightarrow> unit catalog_result" where
  "validate_zone z =
     and_then (validate_hex_id (zr_channel_id z) LChannelId) (\<lambda>_.
     and_then (fail_if (is_some_and (zr_observed_label z)
         (\<lambda>l. l = [] \<or> 256 < length l \<or> has_control l)) (InvalidInput InvalidZoneLabel)) (\<lambda>_.
     and_then (case lc_tip_hash (zr_l1_channel z) of
         Some h \<Rightarrow> validate_hex_id h LChannelTipHash | None \<Rightarrow> Ok ()) (\<lambda>_.
     and_then (case zr_sequencer_committee z of
         Some c \<Rightarrow> validate_committee c | None \<Rightarrow> Ok ()) (\<lambda>_.
     and_then (validate_local_id (zr_latest_evidence_id z) LLatestEvidenceId) (\<lambda>_.
     and_then (validate_local_id (sp_coverage_segment_id (zr_snapshot_provenance z))
         LSnapshotCoverageSegmentId) (\<lambda>_.
     if zr_last_seen_slot z < zr_first_seen_slot z
     then Err (InvalidInput LastSeenPrecedesFirst)
     else if zr_evidence_count z = 0 then Err (InvalidInput ZoneWithoutEvidence)
     else Ok ()))))))"

definition validate_evidence :: "evidence_reference \<Rightarrow> unit catalog_result" where
  "validate_evidence e =
     and_then (validate_local_id (ev_evidence_id e) LEvidenceId) (\<lambda>_.
     and_then (validate_hex_id (ev_channel_id e) LEvidenceChannelId) (\<lambda>_.
     and_then (validate_local_id (ev_coverage_segment_id e) LEvidenceCoverageSegmentId) (\<lambda>_.
     and_then (validate_hex_id (ev_block_id e) LEvidenceBlockId) (\<lambda>_.
     and_then (case ev_transaction_hash e of
         Some h \<Rightarrow> validate_hex_id h LEvidenceTransactionHash | None \<Rightarrow> Ok ()) (\<lambda>_.
     fail_if (is_some_and (ev_message_id e) (\<lambda>v. v = [] \<or> has_control v))
       (InvalidInput InvalidMessageId))))))"

section \<open>Facts\<close>

text \<open>When a validator accepts, as one equation per validator.\<close>

definition hex_id :: "string \<Rightarrow> bool" where
  "hex_id v \<longleftrightarrow> length v = 64 \<and> list_all is_lower_hexdigit v"

lemma validate_hex_id_Ok [ok_simps]: "validate_hex_id v l = Ok u \<longleftrightarrow> hex_id v"
  by (simp add: validate_hex_id_def hex_id_def)

lemma validate_hex_id_hex_id: "hex_id v \<Longrightarrow> validate_hex_id v l = Ok ()"
  by (simp add: ok_simps)

lemma validate_checkpoint_Ok [ok_simps]:
  "validate_checkpoint c = Ok u \<longleftrightarrow> hex_id (cp_block_id c) \<and> hex_id (cp_parent_id c)"
  by (simp add: validate_checkpoint_def ok_simps)

lemma validate_block_reference_Ok [ok_simps]:
  "validate_block_reference r = Ok u \<longleftrightarrow> hex_id (br_block_id r)"
  by (simp add: validate_block_reference_def ok_simps)

lemma validate_members_Ok:
  "validate_members seen ms = Ok u \<longleftrightarrow>
     distinct ms \<and> set ms \<inter> set seen = {}
     \<and> (\<forall>m \<in> set ms. validate_local_id m LSequencerCommitteeMember = Ok ())"
  by (induction ms arbitrary: seen) (auto simp: ok_simps)

lemma validate_segment_slots:
  "validate_segment s = Ok u \<Longrightarrow> cp_slot (sg_floor s) \<le> br_slot (sg_frontier s)"
  by (auto simp: validate_segment_def ok_simps split: if_splits)

text \<open>Canonicalisation produces identifiers the validators accept, and is idempotent.\<close>

lemma canonical_hex_id_valid: "canonical_hex_id v l = Ok r \<Longrightarrow> hex_id r"
  by (auto simp: canonical_hex_id_def hex_id_def Let_def to_ascii_lowercase_def list_all_iff
      ascii_lower_hexdigit split: option.splits if_splits)

text \<open>A sample identifier, for the concrete inputs the properties are applied to.\<close>

definition sample_id :: "char \<Rightarrow> string" where
  "sample_id c = replicate 64 c"

end
