(* ===== verification/Channel_Operations.thy ===== *)
theory Channel_Operations
  imports Catalog_Model
begin

text \<open>
  Decoding of Channel operations from a finalized block, from
  \<^verbatim>\<open>src/src/blockchain/channel_operations.rs\<close>.

  A \<open>serde_json\<close> value is the datatype \<open>json\<close> with the constructors of \<open>Value\<close>; its numbers are
  left abstract. What the code calls of other crates is a field of the record \<open>externals\<close>: the
  number accessors and the serialiser of \<open>serde_json\<close>, the hexadecimal codec of \<open>hex\<close>, SHA-256, and the Borsh
  decoding of a Sequencer block, which yields the re-encoding of its hashable data (if that
  succeeds) and the hash its header carries.
\<close>

section \<open>JSON values and external functions\<close>

datatype 'n json =
    JNull
  | JBool bool
  | JNumber 'n
  | JString string
  | JArray "'n json list"
  | JObject "(string \<times> 'n json) list"

record 'n externals =
  x_as_u64 :: "'n \<Rightarrow> u64 option"
  x_number_text :: "'n \<Rightarrow> string"
  x_json_to_vec :: "'n json \<Rightarrow> bytes option"
  x_hex_decode :: "string \<Rightarrow> bytes option"
  x_hex_encode :: "bytes \<Rightarrow> string"
  x_sha256 :: "bytes \<Rightarrow> bytes"
  x_sequencer_block :: "bytes \<Rightarrow> (bytes option \<times> bytes) option"

definition json_get :: "string \<Rightarrow> 'n json \<Rightarrow> 'n json option" where
  "json_get k v = (case v of JObject m \<Rightarrow> map_of m k | _ \<Rightarrow> None)"

definition as_array :: "'n json \<Rightarrow> 'n json list option" where
  "as_array v = (case v of JArray vs \<Rightarrow> Some vs | _ \<Rightarrow> None)"

definition as_str :: "'n json \<Rightarrow> string option" where
  "as_str v = (case v of JString s \<Rightarrow> Some s | _ \<Rightarrow> None)"

definition as_u64 :: "'n externals \<Rightarrow> 'n json \<Rightarrow> u64 option" where
  "as_u64 ext v = (case v of JNumber n \<Rightarrow> x_as_u64 ext n | _ \<Rightarrow> None)"

section \<open>Errors and decoded operations\<close>

datatype decode_label =
  DTransactionHash | DInscribeParent | DChannelId | DChannelKey | DInscribeSigner

datatype (plugins only: code size) decode_detail =
    TransactionsNotArray | OperationIndexOverflow | OpcodeOverflow | OperationHashMissing
  | OperationPayloadMissing u8 | UnsupportedOpcode u8 | ConfigKeysMissing | ConfigKeyNotText
  | ConfigKeysEmpty | WithdrawThresholdMissing | InscribeParentMissing | InscribeSignerMissing
  | InscriptionMissing | ReencodeFailed | InscriptionNotHex | NonByteValue | InscriptionNotBytes
  | ChannelIdMissing | NotHexText decode_label | LocalTextInvalid decode_label

datatype decode_error = DecodeInvalid decode_detail | DecodeOverflow decode_detail

type_synonym 'a decode_result = "('a, decode_error) result"

datatype inscription_classification = ClassSequencerBlock | ClassRaw | ClassConflicting

datatype decoded_kind =
    DConfiguration "string list" string
  | DInscription string string bytes inscription_classification
  | DDeposit
  | DWithdraw

record 'n decoded_operation =
  do_channel_id :: string
  do_transaction_hash :: string
  do_operation_index :: u32
  do_opcode :: u8
  do_payload :: "'n json"
  do_kind :: decoded_kind

definition operation_name :: "'n decoded_operation \<Rightarrow> string" where
  "operation_name op = (case do_kind op of
     DConfiguration _ _ \<Rightarrow> ''ChannelConfig''
   | DInscription _ _ _ _ \<Rightarrow> ''ChannelInscribe''
   | DDeposit \<Rightarrow> ''ChannelDeposit''
   | DWithdraw \<Rightarrow> ''ChannelWithdraw'')"

section \<open>Text and number parsing\<close>

definition strip_hex_prefix :: "string \<Rightarrow> string" where
  "strip_hex_prefix s =
     (case strip_prefix ''0x'' s of Some r \<Rightarrow> r
      | None \<Rightarrow> (case strip_prefix ''0X'' s of Some r \<Rightarrow> r | None \<Rightarrow> s))"

definition channel_canonical_hex :: "string \<Rightarrow> decode_label \<Rightarrow> string decode_result" where
  "channel_canonical_hex v l =
     (let t = strip_hex_prefix v
      in if length t \<noteq> 64 \<or> \<not> list_all is_ascii_hexdigit t
         then Err (DecodeInvalid (NotHexText l)) else Ok (to_ascii_lowercase t))"

definition canonical_local_text :: "string \<Rightarrow> decode_label \<Rightarrow> string decode_result" where
  "canonical_local_text v l =
     (let t = trim v
      in if t = [] \<or> 256 < length t \<or> has_control t
         then Err (DecodeInvalid (LocalTextInvalid l)) else Ok t)"

definition parse_opcode :: "'n externals \<Rightarrow> 'n json \<Rightarrow> u64 option" where
  "parse_opcode ext v =
     (case as_u64 ext v of
        Some n \<Rightarrow> Some n
      | None \<Rightarrow> Option.bind (as_str v) (\<lambda>s.
          let t = trim s
          in case (case strip_prefix ''0x'' t of Some r \<Rightarrow> Some r | None \<Rightarrow> strip_prefix ''0X'' t) of
               Some r \<Rightarrow> u64_from_str_radix 16 r
             | None \<Rightarrow> u64_from_str_radix 10 t))"

definition integer_text :: "'n externals \<Rightarrow> 'n json \<Rightarrow> string option" where
  "integer_text ext v = (case v of
     JNumber n \<Rightarrow> Some (x_number_text ext n)
   | JString s \<Rightarrow> if trim s \<noteq> [] then Some (trim s) else None
   | _ \<Rightarrow> None)"

definition required_channel_id :: "'n json \<Rightarrow> string list \<Rightarrow> string decode_result" where
  "required_channel_id v keys =
     and_then (ok_or (case List.map_filter (\<lambda>k. Option.bind (json_get k v) as_str) keys of
         s # _ \<Rightarrow> Some s | [] \<Rightarrow> None) (DecodeInvalid ChannelIdMissing))
       (\<lambda>candidate. channel_canonical_hex candidate DChannelId)"

section \<open>Inscriptions\<close>

definition inscription_bytes :: "'n externals \<Rightarrow> 'n json \<Rightarrow> bytes decode_result" where
  "inscription_bytes ext v = (case v of
     JString s \<Rightarrow> ok_or (x_hex_decode ext (strip_hex_prefix s)) (DecodeInvalid InscriptionNotHex)
   | JArray vs \<Rightarrow> collect_result (\<lambda>e.
       ok_or (Option.bind (as_u64 ext e) u8_try_from) (DecodeInvalid NonByteValue)) vs
   | _ \<Rightarrow> Err (DecodeInvalid InscriptionNotBytes))"

text \<open>The domain separation prefix of a Sequencer block hash: 24 characters and eight zero bytes.\<close>

definition block_hash_prefix :: bytes where
  "block_hash_prefix = map (\<lambda>c. of_int (code c)) ''/LEE/v0.3/Message/Block/'' @ replicate 8 0"

definition classify_inscription ::
  "'n externals \<Rightarrow> bytes \<Rightarrow> inscription_classification decode_result" where
  "classify_inscription ext bs =
     (case x_sequencer_block ext bs of
        None \<Rightarrow> Ok ClassRaw
      | Some (hashable, header_hash) \<Rightarrow>
          and_then (ok_or hashable (DecodeInvalid ReencodeFailed)) (\<lambda>encoded.
          Ok (if x_sha256 ext (block_hash_prefix @ encoded) = header_hash
              then ClassSequencerBlock else ClassConflicting)))"

definition parse_inscription ::
  "'n externals \<Rightarrow> 'n json \<Rightarrow> (string \<times> decoded_kind) decode_result" where
  "parse_inscription ext payload =
     and_then (required_channel_id payload [''channel_id'']) (\<lambda>channel_id.
     and_then (ok_or (Option.bind (json_get ''parent'' payload) as_str)
         (DecodeInvalid InscribeParentMissing)) (\<lambda>p.
     and_then (channel_canonical_hex p DInscribeParent) (\<lambda>parent.
     and_then (ok_or (Option.bind (json_get ''signer'' payload) as_str)
         (DecodeInvalid InscribeSignerMissing)) (\<lambda>s.
     and_then (canonical_local_text s DInscribeSigner) (\<lambda>signer.
     and_then (ok_or (json_get ''inscription'' payload) (DecodeInvalid InscriptionMissing)) (\<lambda>i.
     and_then (inscription_bytes ext i) (\<lambda>bs.
     and_then (classify_inscription ext bs) (\<lambda>classification.
     Ok (channel_id, DInscription parent signer bs classification)))))))))"

section \<open>Configurations\<close>

definition parse_key :: "'n json \<Rightarrow> string decode_result" where
  "parse_key v =
     and_then (ok_or (as_str v) (DecodeInvalid ConfigKeyNotText)) (\<lambda>k.
     canonical_local_text k DChannelKey)"

definition parse_configuration ::
  "'n externals \<Rightarrow> 'n json \<Rightarrow> (string \<times> decoded_kind) decode_result" where
  "parse_configuration ext payload =
     and_then (required_channel_id payload [''channel'']) (\<lambda>channel_id.
     and_then (ok_or (Option.bind (json_get ''keys'' payload) as_array)
         (DecodeInvalid ConfigKeysMissing)) (\<lambda>ks.
     and_then (collect_result parse_key ks) (\<lambda>keys.
     if keys = [] then Err (DecodeInvalid ConfigKeysEmpty)
     else and_then (ok_or (Option.bind (json_get ''withdraw_threshold'' payload) (integer_text ext))
            (DecodeInvalid WithdrawThresholdMissing)) (\<lambda>threshold.
          Ok (channel_id, DConfiguration keys threshold)))))"

section \<open>Operations and blocks\<close>

definition decode_channel_operation ::
  "'n externals \<Rightarrow> string option \<Rightarrow> u32 \<Rightarrow> 'n json \<Rightarrow> 'n decoded_operation option decode_result" where
  "decode_channel_operation ext transaction_hash operation_index operation =
     (case Option.bind (json_get ''opcode'' operation) (parse_opcode ext) of
        None \<Rightarrow> Ok None
      | Some opcode64 \<Rightarrow>
          if \<not> (0x10 \<le> opcode64 \<and> opcode64 \<le> 0x13) then Ok None
          else
            and_then (ok_or (u8_try_from opcode64) (DecodeOverflow OpcodeOverflow)) (\<lambda>opcode.
            and_then (ok_or transaction_hash (DecodeInvalid OperationHashMissing)) (\<lambda>h.
            and_then (channel_canonical_hex h DTransactionHash) (\<lambda>hash.
            and_then (ok_or (json_get ''payload'' operation)
                (DecodeInvalid (OperationPayloadMissing opcode))) (\<lambda>payload.
            and_then
              (if opcode = 0x10 then parse_configuration ext payload
               else if opcode = 0x11 then parse_inscription ext payload
               else if opcode = 0x12 then and_then (required_channel_id payload [''channel_id''])
                 (\<lambda>c. Ok (c, DDeposit))
               else if opcode = 0x13 then and_then (required_channel_id payload [''channel_id''])
                 (\<lambda>c. Ok (c, DWithdraw))
               else Err (DecodeInvalid (UnsupportedOpcode opcode))) (\<lambda>(channel_id, kind).
            Ok (Some \<lparr>do_channel_id = channel_id, do_transaction_hash = hash,
                      do_operation_index = operation_index, do_opcode = opcode,
                      do_payload = payload, do_kind = kind\<rparr>)))))))"

definition decode_indexed ::
  "'n externals \<Rightarrow> string option \<Rightarrow> 'n decoded_operation list \<Rightarrow> nat \<times> 'n json
   \<Rightarrow> 'n decoded_operation list decode_result" where
  "decode_indexed ext transaction_hash decoded = (\<lambda>(index, operation).
     and_then (ok_or (u32_try_from index) (DecodeOverflow OperationIndexOverflow)) (\<lambda>operation_index.
     and_then (decode_channel_operation ext transaction_hash operation_index operation) (\<lambda>r.
     Ok (case r of Some op \<Rightarrow> decoded @ [op] | None \<Rightarrow> decoded))))"

definition decode_transaction ::
  "'n externals \<Rightarrow> 'n decoded_operation list \<Rightarrow> 'n json \<Rightarrow> 'n decoded_operation list decode_result" where
  "decode_transaction ext decoded transaction =
     (case json_get ''mantle_tx'' transaction of
        None \<Rightarrow> Ok decoded
      | Some mantle_tx \<Rightarrow> (case Option.bind (json_get ''ops'' mantle_tx) as_array of
            None \<Rightarrow> Ok decoded
          | Some operations \<Rightarrow>
              fold_result (decode_indexed ext (Option.bind (json_get ''hash'' mantle_tx) as_str))
                decoded (enumerate 0 operations)))"

definition decode_block_channel_operations ::
  "'n externals \<Rightarrow> 'n json \<Rightarrow> 'n decoded_operation list decode_result" where
  "decode_block_channel_operations ext block =
     and_then (ok_or (Option.bind (json_get ''transactions'' block) as_array)
         (DecodeInvalid TransactionsNotArray)) (\<lambda>transactions.
     fold_result (decode_transaction ext) [] transactions)"

end
