(* ===== verification/Catalog_Store.thy ===== *)
theory Catalog_Store
  imports Catalog_Model "HOL-Library.AList"
begin

text \<open>
  The snapshot side of the catalog store, from \<^verbatim>\<open>src/src/inspection/catalog/store.rs\<close>: the
  full validation of a persisted snapshot, the batch validation, the in-place application of a
  batch to a held snapshot, and the incremental validation that replaces the full one on that path.

  A \<open>HashMap\<close> is an association list; the source iterates over hash maps only to search for an
  error, so the order of the list decides at most which error is reported. The central result is
  that, on a valid snapshot and a valid batch, the incremental validation accepts exactly
  what the full validation accepts.
\<close>

section \<open>Lookups\<close>

abbreviation find_zone :: "zone_record list \<Rightarrow> string \<Rightarrow> zone_record option" where
  "find_zone \<equiv> find_record zr_channel_id"

abbreviation find_evidence :: "evidence_reference list \<Rightarrow> string \<Rightarrow> evidence_reference option" where
  "find_evidence \<equiv> find_record ev_evidence_id"

abbreviation find_segment :: "coverage_segment list \<Rightarrow> string \<Rightarrow> coverage_segment option" where
  "find_segment \<equiv> find_record sg_segment_id"

section \<open>Error wrappers\<close>

definition validate_persisted :: "unit catalog_result \<Rightarrow> record_label \<Rightarrow> unit catalog_result" where
  "validate_persisted r l =
     map_err (\<lambda>e. Invalidated RecordInvariant (PersistedInvalid l e)) r"

definition persisted_invariant :: "catalog_detail \<Rightarrow> 'a catalog_result" where
  "persisted_invariant d = Err (Invalidated RecordInvariant d)"

fun map_staged_error :: "catalog_error \<Rightarrow> catalog_error" where
  "map_staged_error (Invalidated r d) = InvalidInput (BatchViolatesInvariant d)"
| "map_staged_error e = e"

section \<open>Batch validation\<close>

fun validate_upserts ::
  "('r \<Rightarrow> string) \<Rightarrow> ('r \<Rightarrow> unit catalog_result) \<Rightarrow> record_label \<Rightarrow> string list \<Rightarrow> 'r list
   \<Rightarrow> string list catalog_result" where
  "validate_upserts key_of validate l keys [] = Ok keys"
| "validate_upserts key_of validate l keys (r # rs) =
     and_then (validate r) (\<lambda>_.
     if key_of r \<in> set keys then Err (InvalidInput (DuplicateUpsert l (key_of r)))
     else validate_upserts key_of validate l (key_of r # keys) rs)"

fun validate_deletes ::
  "(string \<Rightarrow> unit catalog_result) \<Rightarrow> record_label \<Rightarrow> string list \<Rightarrow> string list \<Rightarrow> string list
   \<Rightarrow> unit catalog_result" where
  "validate_deletes validate_delete l upsert_keys keys [] = Ok ()"
| "validate_deletes validate_delete l upsert_keys keys (k # ks) =
     and_then (validate_delete k) (\<lambda>_.
     if k \<in> set keys then Err (InvalidInput (DuplicateDelete l k))
     else if k \<in> set upsert_keys then Err (InvalidInput (UpsertedAndDeleted l k))
     else validate_deletes validate_delete l upsert_keys (k # keys) ks)"

definition validate_record_keys ::
  "'r list \<Rightarrow> string list \<Rightarrow> ('r \<Rightarrow> string) \<Rightarrow> ('r \<Rightarrow> unit catalog_result)
   \<Rightarrow> (string \<Rightarrow> unit catalog_result) \<Rightarrow> record_label \<Rightarrow> unit catalog_result" where
  "validate_record_keys upserts deletes key_of validate validate_delete l =
     and_then (validate_upserts key_of validate l [] upserts) (\<lambda>upsert_keys.
     validate_deletes validate_delete l upsert_keys [] deletes)"

definition validate_batch :: "catalog_batch \<Rightarrow> unit catalog_result" where
  "validate_batch b =
     and_then (case cb_frontier b of Some f \<Rightarrow> validate_frontier f | None \<Rightarrow> Ok ()) (\<lambda>_.
     and_then (case cb_traversal b of Some t \<Rightarrow> validate_traversal t | None \<Rightarrow> Ok ()) (\<lambda>_.
     and_then (validate_record_keys (cb_upsert_zones b) (cb_delete_zone_ids b) zr_channel_id
         validate_zone (\<lambda>k. validate_hex_id k LDeletedChannelId) RZone) (\<lambda>_.
     and_then (validate_record_keys (cb_upsert_evidence b) (cb_delete_evidence_ids b)
         ev_evidence_id validate_evidence (\<lambda>k. validate_local_id k LDeletedEvidenceId) REvidence) (\<lambda>_.
     and_then (validate_record_keys (cb_upsert_segments b) (cb_delete_segment_ids b)
         sg_segment_id validate_segment (\<lambda>k. validate_local_id k LDeletedCoverageSegmentId)
         RSegment) (\<lambda>_.
     validate_record_keys (cb_upsert_gaps b) (cb_delete_gap_ids b) gp_gap_id validate_gap
       (\<lambda>k. validate_local_id k LDeletedCoverageGapId) RGap)))))"

section \<open>Full validation of a snapshot\<close>

definition snapshot_evidence_entry ::
  "(string \<times> coverage_segment) list \<Rightarrow> evidence_reference
   \<Rightarrow> (string \<times> evidence_reference) catalog_result" where
  "snapshot_evidence_entry segments_by_id r =
     and_then (validate_persisted (validate_evidence r) REvidence) (\<lambda>_.
     case map_of segments_by_id (ev_coverage_segment_id r) of
        None \<Rightarrow> persisted_invariant (EvidenceSegmentMissing (ev_evidence_id r))
      | Some s \<Rightarrow>
          if ev_l1_slot r < cp_slot (sg_floor s) \<or> ev_l1_slot r > br_slot (sg_frontier s)
          then persisted_invariant (EvidenceOutsideSegment (ev_evidence_id r))
          else Ok (ev_evidence_id r, r))"

definition snapshot_segment_entry ::
  "coverage_segment \<Rightarrow> (string \<times> coverage_segment) catalog_result" where
  "snapshot_segment_entry s =
     and_then (validate_persisted (validate_segment s) RSegment) (\<lambda>_. Ok (sg_segment_id s, s))"

definition unwrap_or :: "'a option \<Rightarrow> 'a \<Rightarrow> 'a" where
  "unwrap_or v d = (case v of Some x \<Rightarrow> x | None \<Rightarrow> d)"

definition count_reference ::
  "(string \<times> u64) list \<Rightarrow> evidence_reference \<Rightarrow> (string \<times> u64) list catalog_result" where
  "count_reference counts r =
     (let count = unwrap_or (map_of counts (ev_channel_id r)) 0
      in case checked_add count 1 of
           None \<Rightarrow> Err (Invalidated RecordInvariant EvidenceCountOverflow)
         | Some c \<Rightarrow> Ok (AList.update (ev_channel_id r) c counts))"

definition validate_snapshot_zone ::
  "(string \<times> coverage_segment) list \<Rightarrow> (string \<times> evidence_reference) list \<Rightarrow> (string \<times> u64) list
   \<Rightarrow> zone_record \<Rightarrow> unit catalog_result" where
  "validate_snapshot_zone segments_by_id evidence_by_id evidence_counts z =
     and_then (validate_persisted (validate_zone z) RZone) (\<lambda>_.
     case map_of segments_by_id (sp_coverage_segment_id (zr_snapshot_provenance z)) of
        None \<Rightarrow> persisted_invariant (ZoneSegmentMissing (zr_channel_id z))
      | Some s \<Rightarrow>
          if sp_observed_slot (zr_snapshot_provenance z) < cp_slot (sg_floor s)
             \<or> sp_observed_slot (zr_snapshot_provenance z) > br_slot (sg_frontier s)
          then persisted_invariant (ZoneOutsideSegment (zr_channel_id z))
          else case map_of evidence_by_id (zr_latest_evidence_id z) of
            None \<Rightarrow> persisted_invariant (ZoneLatestMissing (zr_channel_id z))
          | Some e \<Rightarrow>
              if ev_channel_id e \<noteq> zr_channel_id z
              then persisted_invariant (ZoneLatestForeign (zr_channel_id z))
              else let persisted = unwrap_or (map_of evidence_counts (zr_channel_id z)) 0
                   in if persisted \<noteq> zr_evidence_count z
                      then persisted_invariant
                        (ZoneCountMismatch (zr_channel_id z) (zr_evidence_count z) persisted)
                      else Ok ())"

definition validate_snapshot_gap ::
  "(string \<times> coverage_segment) list \<Rightarrow> coverage_gap \<Rightarrow> unit catalog_result" where
  "validate_snapshot_gap segments_by_id g =
     and_then (validate_persisted (validate_gap g) RGap) (\<lambda>_.
     case map_of segments_by_id (gp_lower_segment_id g) of
        None \<Rightarrow> persisted_invariant (GapLowerMissing (gp_gap_id g))
      | Some lower \<Rightarrow> (case map_of segments_by_id (gp_upper_segment_id g) of
            None \<Rightarrow> persisted_invariant (GapUpperMissing (gp_gap_id g))
          | Some upper \<Rightarrow>
              if sg_frontier lower \<noteq> gp_lower_checkpoint g
                 \<or> cp_slot (sg_floor upper) \<noteq> br_slot (gp_upper_block g)
                 \<or> cp_block_id (sg_floor upper) \<noteq> br_block_id (gp_upper_block g)
                 \<or> cp_parent_id (sg_floor upper) \<noteq> gp_required_parent_id g
              then persisted_invariant (GapBoundaryMismatch (gp_gap_id g))
              else Ok ()))"

definition validate_header :: "catalog_snapshot \<Rightarrow> unit catalog_result" where
  "validate_header s =
     and_then (validate_persisted (validate_metadata (cs_metadata s)) RMetadata) (\<lambda>_.
     if cm_updated_at_unix (cs_metadata s) < cm_created_at_unix (cs_metadata s)
     then persisted_invariant UpdatePrecedesCreation
     else and_then (case cs_frontier s of
            Some f \<Rightarrow> validate_persisted (validate_frontier f) RFrontier | None \<Rightarrow> Ok ()) (\<lambda>_.
          case cs_traversal s of
            Some t \<Rightarrow> validate_persisted (validate_traversal t) RTraversal | None \<Rightarrow> Ok ()))"

definition validate_snapshot :: "catalog_snapshot \<Rightarrow> unit catalog_result" where
  "validate_snapshot s =
     and_then (validate_header s) (\<lambda>_.
     and_then (collect_result snapshot_segment_entry (cs_segments s)) (\<lambda>ss.
     let segments_by_id = rev ss in
     and_then (collect_result (snapshot_evidence_entry segments_by_id) (cs_evidence s)) (\<lambda>es.
     let evidence_by_id = rev es in
     and_then (fold_result count_reference [] (cs_evidence s)) (\<lambda>evidence_counts.
     and_then (for_each (validate_snapshot_zone segments_by_id evidence_by_id evidence_counts)
         (cs_zones s)) (\<lambda>_.
     let zone_ids = map zr_channel_id (cs_zones s) in
     case find (\<lambda>c. c \<notin> set zone_ids) (map fst evidence_counts) of
        Some orphan \<Rightarrow> persisted_invariant (OrphanEvidence orphan)
      | None \<Rightarrow> for_each (validate_snapshot_gap segments_by_id) (cs_gaps s))))))"

section \<open>Relationships of one record to a snapshot\<close>

definition validate_evidence_relationship ::
  "evidence_reference \<Rightarrow> catalog_snapshot \<Rightarrow> unit catalog_result" where
  "validate_evidence_relationship r s =
     and_then (validate_persisted (validate_evidence r) REvidence) (\<lambda>_.
     case find_segment (cs_segments s) (ev_coverage_segment_id r) of
        None \<Rightarrow> persisted_invariant (EvidenceSegmentMissing (ev_evidence_id r))
      | Some g \<Rightarrow>
          if ev_l1_slot r < cp_slot (sg_floor g) \<or> ev_l1_slot r > br_slot (sg_frontier g)
          then persisted_invariant (EvidenceOutsideSegment (ev_evidence_id r)) else Ok ())"

definition validate_zone_relationship ::
  "zone_record \<Rightarrow> catalog_snapshot \<Rightarrow> unit catalog_result" where
  "validate_zone_relationship z s =
     and_then (validate_persisted (validate_zone z) RZone) (\<lambda>_.
     case find_segment (cs_segments s) (sp_coverage_segment_id (zr_snapshot_provenance z)) of
        None \<Rightarrow> persisted_invariant (ZoneSegmentMissing (zr_channel_id z))
      | Some g \<Rightarrow>
          if sp_observed_slot (zr_snapshot_provenance z) < cp_slot (sg_floor g)
             \<or> sp_observed_slot (zr_snapshot_provenance z) > br_slot (sg_frontier g)
          then persisted_invariant (ZoneOutsideSegment (zr_channel_id z))
          else case find_evidence (cs_evidence s) (zr_latest_evidence_id z) of
            None \<Rightarrow> persisted_invariant (ZoneLatestMissing (zr_channel_id z))
          | Some e \<Rightarrow>
              if ev_channel_id e \<noteq> zr_channel_id z
              then persisted_invariant (ZoneLatestForeign (zr_channel_id z)) else Ok ())"

definition validate_gap_relationship :: "coverage_gap \<Rightarrow> catalog_snapshot \<Rightarrow> unit catalog_result" where
  "validate_gap_relationship g s =
     and_then (validate_persisted (validate_gap g) RGap) (\<lambda>_.
     case find_segment (cs_segments s) (gp_lower_segment_id g) of
        None \<Rightarrow> persisted_invariant (GapLowerMissing (gp_gap_id g))
      | Some lower \<Rightarrow> (case find_segment (cs_segments s) (gp_upper_segment_id g) of
            None \<Rightarrow> persisted_invariant (GapUpperMissing (gp_gap_id g))
          | Some upper \<Rightarrow>
              if sg_frontier lower \<noteq> gp_lower_checkpoint g
                 \<or> cp_slot (sg_floor upper) \<noteq> br_slot (gp_upper_block g)
                 \<or> cp_block_id (sg_floor upper) \<noteq> br_block_id (gp_upper_block g)
                 \<or> cp_parent_id (sg_floor upper) \<noteq> gp_required_parent_id g
              then persisted_invariant (GapBoundaryMismatch (gp_gap_id g))
              else Ok ()))"

definition is_safe_segment_extension :: "coverage_segment \<Rightarrow> coverage_segment \<Rightarrow> bool" where
  "is_safe_segment_extension previous nxt \<longleftrightarrow>
     sg_floor previous = sg_floor nxt
     \<and> (sg_frontier previous = sg_frontier nxt
        \<or> br_slot (sg_frontier nxt) > br_slot (sg_frontier previous))"

section \<open>Incremental validation\<close>

record evidence_count_delta =
  ed_removed :: u64
  ed_added :: u64

type_synonym evidence_deltas = "(string \<times> evidence_count_delta) list"

definition delta_of :: "evidence_deltas \<Rightarrow> string \<Rightarrow> evidence_count_delta" where
  "delta_of deltas c = unwrap_or (map_of deltas c) \<lparr>ed_removed = 0, ed_added = 0\<rparr>"

definition record_evidence_removal :: "evidence_deltas \<Rightarrow> string \<Rightarrow> evidence_deltas catalog_result" where
  "record_evidence_removal deltas c =
     (let d = delta_of deltas c
      in case checked_add (ed_removed d) 1 of
           None \<Rightarrow> Err (InvalidInput EvidenceRemovalOverflow)
         | Some n \<Rightarrow> Ok (AList.update c (d\<lparr>ed_removed := n\<rparr>) deltas))"

definition record_evidence_addition :: "evidence_deltas \<Rightarrow> string \<Rightarrow> evidence_deltas catalog_result" where
  "record_evidence_addition deltas c =
     (let d = delta_of deltas c
      in case checked_add (ed_added d) 1 of
           None \<Rightarrow> Err (InvalidInput EvidenceAdditionOverflow)
         | Some n \<Rightarrow> Ok (AList.update c (d\<lparr>ed_added := n\<rparr>) deltas))"

definition delta_upsert ::
  "evidence_reference list \<Rightarrow> evidence_deltas \<Rightarrow> evidence_reference \<Rightarrow> evidence_deltas catalog_result" where
  "delta_upsert previous deltas r =
     and_then (case find_evidence previous (ev_evidence_id r) of
         Some p \<Rightarrow> record_evidence_removal deltas (ev_channel_id p) | None \<Rightarrow> Ok deltas)
       (\<lambda>deltas. record_evidence_addition deltas (ev_channel_id r))"

definition delta_delete ::
  "evidence_reference list \<Rightarrow> evidence_deltas \<Rightarrow> string \<Rightarrow> evidence_deltas catalog_result" where
  "delta_delete previous deltas k =
     (case find_evidence previous k of
        Some p \<Rightarrow> record_evidence_removal deltas (ev_channel_id p) | None \<Rightarrow> Ok deltas)"

definition evidence_count_deltas ::
  "catalog_snapshot \<Rightarrow> catalog_batch \<Rightarrow> evidence_deltas catalog_result" where
  "evidence_count_deltas previous b =
     and_then (fold_result (delta_upsert (cs_evidence previous)) [] (cb_upsert_evidence b)) (\<lambda>deltas.
     fold_result (delta_delete (cs_evidence previous)) deltas (cb_delete_evidence_ids b))"

definition apply_evidence_delta :: "u64 \<Rightarrow> evidence_count_delta \<Rightarrow> u64 catalog_result" where
  "apply_evidence_delta previous_count d =
     and_then (ok_or (checked_sub previous_count (ed_removed d))
         (InvalidInput EvidenceRemovalExceeds)) (\<lambda>remaining.
     ok_or (checked_add remaining (ed_added d)) (InvalidInput EvidenceCountOverflow))"

record incremental_validation =
  iv_requires_full :: bool
  iv_changed_segment_ids :: "string list"
  iv_evidence_deltas :: evidence_deltas
  iv_previous_zone_counts :: "(string \<times> u64) list"

text \<open>The segment loop and the zone-count loop of \<open>prepare_incremental_validation\<close>.\<close>

definition prepare_segment ::
  "coverage_segment list \<Rightarrow> bool \<times> string list \<Rightarrow> coverage_segment \<Rightarrow> bool \<times> string list" where
  "prepare_segment previous = (\<lambda>(full, changed) s.
     case find_segment previous (sg_segment_id s) of
       None \<Rightarrow> (full, changed)
     | Some p \<Rightarrow>
         if \<not> is_safe_segment_extension p s then (True, changed)
         else if sg_frontier p \<noteq> sg_frontier s then (full, sg_segment_id s # changed)
         else (full, changed))"

definition prepare_zone_count ::
  "zone_record list \<Rightarrow> (string \<times> u64) list \<Rightarrow> string \<Rightarrow> (string \<times> u64) list" where
  "prepare_zone_count previous counts c =
     (case map_of counts c of
        Some _ \<Rightarrow> counts
      | None \<Rightarrow> AList.update c
          (unwrap_or (map_option zr_evidence_count (find_zone previous c)) 0) counts)"

definition prepare_incremental_validation ::
  "catalog_snapshot \<Rightarrow> catalog_batch \<Rightarrow> incremental_validation catalog_result" where
  "prepare_incremental_validation previous b =
     (let (full, changed) = foldl (prepare_segment (cs_segments previous))
            (cb_delete_segment_ids b \<noteq> [], []) (cb_upsert_segments b)
      in and_then (evidence_count_deltas previous b) (\<lambda>deltas.
         Ok \<lparr>iv_requires_full = full, iv_changed_segment_ids = changed,
             iv_evidence_deltas = deltas,
             iv_previous_zone_counts =
               foldl (prepare_zone_count (cs_zones previous)) []
                 (map fst deltas @ map zr_channel_id (cb_upsert_zones b) @ cb_delete_zone_ids b)\<rparr>))"

definition validate_zone_count ::
  "catalog_snapshot \<Rightarrow> evidence_deltas \<Rightarrow> string \<times> u64 \<Rightarrow> unit catalog_result" where
  "validate_zone_count s deltas = (\<lambda>(c, previous_count).
     and_then (case map_of deltas c of
         None \<Rightarrow> Ok previous_count
       | Some d \<Rightarrow> apply_evidence_delta previous_count d) (\<lambda>expected.
     case find_zone (cs_zones s) c of
       Some z \<Rightarrow>
         if zr_evidence_count z \<noteq> expected
         then persisted_invariant
           (ZoneCountMismatch (zr_channel_id z) (zr_evidence_count z) expected)
         else validate_zone_relationship z s
     | None \<Rightarrow> if expected \<noteq> 0 then persisted_invariant (OrphanEvidence c) else Ok ()))"

definition validate_incremental_snapshot ::
  "catalog_snapshot \<Rightarrow> catalog_batch \<Rightarrow> incremental_validation \<Rightarrow> unit catalog_result" where
  "validate_incremental_snapshot s b v =
     (if iv_requires_full v then validate_snapshot s
      else and_then (validate_header s) (\<lambda>_.
           and_then (for_each (\<lambda>r. validate_evidence_relationship r s) (cb_upsert_evidence b)) (\<lambda>_.
           and_then (for_each (\<lambda>g. validate_gap_relationship g s) (cb_upsert_gaps b)) (\<lambda>_.
           and_then (for_each (\<lambda>g.
               if gp_lower_segment_id g \<in> set (iv_changed_segment_ids v)
               then validate_gap_relationship g s else Ok ()) (cs_gaps s)) (\<lambda>_.
           for_each (validate_zone_count s (iv_evidence_deltas v)) (iv_previous_zone_counts v))))))"

section \<open>Applying a batch to a held snapshot\<close>

definition apply_batch_records_to ::
  "catalog_snapshot \<Rightarrow> catalog_metadata \<Rightarrow> catalog_batch \<Rightarrow> catalog_snapshot catalog_result" where
  "apply_batch_records_to s metadata b =
     (let bad = InvalidInput InvalidReplacementIndex in
      and_then (apply_snapshot_records bad zr_channel_id (cs_zones s)
          (cb_upsert_zones b) (cb_delete_zone_ids b)) (\<lambda>zones.
      and_then (apply_snapshot_records bad ev_evidence_id (cs_evidence s)
          (cb_upsert_evidence b) (cb_delete_evidence_ids b)) (\<lambda>evidence.
      and_then (apply_snapshot_records bad sg_segment_id (cs_segments s)
          (cb_upsert_segments b) (cb_delete_segment_ids b)) (\<lambda>segments.
      and_then (apply_snapshot_records bad gp_gap_id (cs_gaps s)
          (cb_upsert_gaps b) (cb_delete_gap_ids b)) (\<lambda>gaps.
      Ok \<lparr>cs_metadata = metadata, cs_frontier = cb_frontier b, cs_traversal = cb_traversal b,
          cs_zones = zones, cs_evidence = evidence, cs_segments = segments, cs_gaps = gaps\<rparr>)))))"

definition apply_batch_to_snapshot ::
  "catalog_snapshot \<Rightarrow> catalog_metadata \<Rightarrow> catalog_batch \<Rightarrow> catalog_snapshot catalog_result" where
  "apply_batch_to_snapshot s metadata b =
     (if cm_catalog_revision (cs_metadata s) \<noteq> cb_expected_catalog_revision b
      then Err (RevisionConflict (cb_expected_catalog_revision b)
                  (cm_catalog_revision (cs_metadata s)))
      else and_then (prepare_incremental_validation s b) (\<lambda>validation.
           and_then (apply_batch_records_to s metadata b) (\<lambda>s'.
           and_then (validate_incremental_snapshot s' b validation) (\<lambda>_. Ok s'))))"

section \<open>What the validators accept\<close>

lemma validate_persisted_Ok [ok_simps]: "validate_persisted r l = Ok u \<longleftrightarrow> r = Ok ()"
  by (simp add: validate_persisted_def ok_simps)

lemma persisted_invariant_Ok [ok_simps]: "persisted_invariant d \<noteq> Ok u"
  by (simp add: persisted_invariant_def)

lemma validate_upserts_Ok:
  "validate_upserts key_of validate l keys rs = Ok keys' \<longleftrightarrow>
     keys' = rev (map key_of rs) @ keys \<and> distinct (map key_of rs)
     \<and> key_of ` set rs \<inter> set keys = {} \<and> (\<forall>r \<in> set rs. validate r = Ok ())"
  by (induction rs arbitrary: keys) (auto simp: ok_simps)

lemma validate_deletes_Ok:
  "validate_deletes vd l uks keys ks = Ok u \<longleftrightarrow>
     distinct ks \<and> set ks \<inter> set keys = {} \<and> set ks \<inter> set uks = {} \<and> (\<forall>k \<in> set ks. vd k = Ok ())"
  by (induction ks arbitrary: keys) (auto simp: ok_simps)

lemma validate_record_keys_Ok:
  "validate_record_keys us ds key_of validate vd l = Ok u \<longleftrightarrow>
     distinct (map key_of us @ ds) \<and> (\<forall>r \<in> set us. validate r = Ok ()) \<and> (\<forall>k \<in> set ds. vd k = Ok ())"
  by (auto simp: validate_record_keys_def validate_upserts_Ok validate_deletes_Ok ok_simps)

definition batch_keys_ok :: "catalog_batch \<Rightarrow> bool" where
  "batch_keys_ok b \<longleftrightarrow>
     distinct (map zr_channel_id (cb_upsert_zones b) @ cb_delete_zone_ids b)
     \<and> distinct (map ev_evidence_id (cb_upsert_evidence b) @ cb_delete_evidence_ids b)
     \<and> distinct (map sg_segment_id (cb_upsert_segments b) @ cb_delete_segment_ids b)
     \<and> distinct (map gp_gap_id (cb_upsert_gaps b) @ cb_delete_gap_ids b)"

lemma validate_batch_keys: "validate_batch b = Ok u \<Longrightarrow> batch_keys_ok b"
  by (auto simp: validate_batch_def batch_keys_ok_def validate_record_keys_Ok ok_simps
      split: option.splits)

lemma validate_batch_segments:
  "validate_batch b = Ok u \<Longrightarrow> s \<in> set (cb_upsert_segments b) \<Longrightarrow> validate_segment s = Ok ()"
  by (auto simp: validate_batch_def validate_record_keys_Ok ok_simps split: option.splits)

section \<open>Valid snapshots\<close>

definition sorted_snapshot :: "catalog_snapshot \<Rightarrow> bool" where
  "sorted_snapshot s \<longleftrightarrow> key_sorted zr_channel_id (cs_zones s) \<and> key_sorted ev_evidence_id (cs_evidence s)
     \<and> key_sorted sg_segment_id (cs_segments s) \<and> key_sorted gp_gap_id (cs_gaps s)"

lemma sorted_snapshotD:
  assumes "sorted_snapshot s"
  shows "key_sorted zr_channel_id (cs_zones s)" "key_sorted ev_evidence_id (cs_evidence s)"
    "key_sorted sg_segment_id (cs_segments s)" "key_sorted gp_gap_id (cs_gaps s)"
  using assms by (simp_all add: sorted_snapshot_def)

definition ref_count :: "string \<Rightarrow> evidence_reference list \<Rightarrow> nat" where
  "ref_count c rs = length (filter (\<lambda>r. ev_channel_id r = c) rs)"

definition valid_snapshot :: "catalog_snapshot \<Rightarrow> bool" where
  "valid_snapshot s \<longleftrightarrow>
     validate_header s = Ok ()
     \<and> (\<forall>g \<in> set (cs_segments s). validate_segment g = Ok ())
     \<and> (\<forall>r \<in> set (cs_evidence s). validate_evidence_relationship r s = Ok ())
     \<and> (\<forall>z \<in> set (cs_zones s). validate_zone_relationship z s = Ok ()
          \<and> unat (zr_evidence_count z) = ref_count (zr_channel_id z) (cs_evidence s))
     \<and> (\<forall>r \<in> set (cs_evidence s). ev_channel_id r \<in> zr_channel_id ` set (cs_zones s))
     \<and> (\<forall>g \<in> set (cs_gaps s). validate_gap_relationship g s = Ok ())"

lemma valid_snapshotD:
  assumes "valid_snapshot s"
  shows "validate_header s = Ok ()"
    and "g \<in> set (cs_segments s) \<Longrightarrow> validate_segment g = Ok ()"
    and "r \<in> set (cs_evidence s) \<Longrightarrow> validate_evidence_relationship r s = Ok ()"
    and "z \<in> set (cs_zones s) \<Longrightarrow> validate_zone_relationship z s = Ok ()"
    and "z \<in> set (cs_zones s) \<Longrightarrow> unat (zr_evidence_count z) = ref_count (zr_channel_id z) (cs_evidence s)"
    and "r \<in> set (cs_evidence s) \<Longrightarrow> ev_channel_id r \<in> zr_channel_id ` set (cs_zones s)"
    and "p \<in> set (cs_gaps s) \<Longrightarrow> validate_gap_relationship p s = Ok ()"
  using assms unfolding valid_snapshot_def by blast+

lemma unwrap_or_simps [simp]: "unwrap_or None d = d" "unwrap_or (Some x) d = x"
  by (simp_all add: unwrap_or_def)

lemma find_record_iff: "key_sorted key rs \<Longrightarrow> find_record key rs k = Some r \<longleftrightarrow> r \<in> set rs \<and> key r = k"
  by (simp add: find_record_sorted map_of_keyed_entries)

lemma find_record_None: "key_sorted key rs \<Longrightarrow> find_record key rs k = None \<longleftrightarrow> k \<notin> key ` set rs"
  unfolding find_record_sorted map_of_keyed_entries_None ..

lemma ref_count_simps [simp]:
  "ref_count c [] = 0"
  "ref_count c (r # rs) = (if ev_channel_id r = c then Suc (ref_count c rs) else ref_count c rs)"
  "ref_count c (xs @ ys) = ref_count c xs + ref_count c ys"
  by (simp_all add: ref_count_def)

lemma ref_count_pos: "0 < ref_count c rs \<longleftrightarrow> c \<in> ev_channel_id ` set rs"
  by (induction rs) auto

text \<open>The counting loop: it stops with an error exactly when some count does not fit 64 bits.\<close>

definition count_of :: "(string \<times> u64) list \<Rightarrow> string \<Rightarrow> nat" where
  "count_of counts c = unat (unwrap_or (map_of counts c) 0)"

lemma alist_update_keys: "fst ` set (AList.update k v m) = insert k (fst ` set m)"
  by (induction m) auto

lemma count_reference_Ok:
  "count_reference m r = Ok m' \<Longrightarrow>
     count_of m' c = count_of m c + (if ev_channel_id r = c then 1 else 0)
     \<and> fst ` set m' = insert (ev_channel_id r) (fst ` set m)"
proof -
  assume "count_reference m r = Ok m'"
  then obtain n where n: "unat n = unat (unwrap_or (map_of m (ev_channel_id r)) 0) + 1"
    and m': "m' = AList.update (ev_channel_id r) n m"
    by (auto simp: count_reference_def checked_add_u64 Let_def split: option.splits)
  show ?thesis
    using n unfolding m' count_of_def update_conv' alist_update_keys by auto
qed

lemma count_reference_total:
  "count_of m (ev_channel_id r) + 1 < 2 ^ 64 \<Longrightarrow> \<exists>m'. count_reference m r = Ok m'"
  by (auto simp: count_reference_def count_of_def checked_add_u64_None Let_def split: option.splits)

lemma count_references_Ok:
  "fold_result count_reference m rs = Ok m' \<Longrightarrow>
     count_of m' c = count_of m c + ref_count c rs
     \<and> fst ` set m' = fst ` set m \<union> ev_channel_id ` set rs"
proof (induction rs arbitrary: m)
  case (Cons r rs)
  then obtain u where u: "count_reference m r = Ok u" "fold_result count_reference u rs = Ok m'"
    by (auto simp: ok_simps)
  then show ?case using Cons.IH[OF u(2)] count_reference_Ok[OF u(1), of c] by simp
qed simp

lemma count_references_total:
  "\<forall>c. count_of m c + ref_count c rs < 2 ^ 64 \<Longrightarrow> \<exists>m'. fold_result count_reference m rs = Ok m'"
proof (induction rs arbitrary: m)
  case (Cons r rs)
  have "count_of m (ev_channel_id r) + 1 < 2 ^ 64"
    using Cons.prems[rule_format, of "ev_channel_id r"] by simp
  then obtain u where u: "count_reference m r = Ok u" using count_reference_total by blast
  have "\<forall>c. count_of u c + ref_count c rs < 2 ^ 64"
    using Cons.prems count_reference_Ok[OF u] by (auto simp: algebra_simps split: if_splits)
  then show ?case using Cons.IH u by simp
qed simp

text \<open>The hash maps of the full validation give the same lookups as the binary searches.\<close>

lemma segment_entries_Ok:
  "collect_result snapshot_segment_entry gs = Ok ss \<longleftrightarrow>
     ss = keyed_entries sg_segment_id gs \<and> (\<forall>g \<in> set gs. validate_segment g = Ok ())"
  by (induction gs arbitrary: ss) (auto simp: snapshot_segment_entry_def ok_simps list_all2_Cons1)

lemma map_of_rev_keyed:
  assumes "key_sorted key rs"
  shows "map_of (rev (keyed_entries key rs)) = find_record key rs"
proof -
  have "distinct (map fst (keyed_entries key rs))"
    using assms by (simp add: comp_def strictly_sorted_iff)
  then show ?thesis
    by (simp add: map_of_rev_distinct find_record_sorted[OF assms] fun_eq_iff)
qed

lemma evidence_entry_Ok:
  assumes "map_of segs = find_segment (cs_segments s)"
  shows "snapshot_evidence_entry segs r = Ok e \<longleftrightarrow>
    validate_evidence_relationship r s = Ok () \<and> e = (ev_evidence_id r, r)"
  using assms by (auto simp: snapshot_evidence_entry_def validate_evidence_relationship_def ok_simps
      split: option.splits if_splits)

lemma evidence_entries_Ok:
  assumes "map_of segs = find_segment (cs_segments s)"
  shows "collect_result (snapshot_evidence_entry segs) rs = Ok es \<longleftrightarrow>
    es = keyed_entries ev_evidence_id rs \<and> (\<forall>r \<in> set rs. validate_evidence_relationship r s = Ok ())"
  by (induction rs arbitrary: es) (auto simp: evidence_entry_Ok[OF assms] ok_simps list_all2_Cons1)

lemma snapshot_zone_Ok:
  assumes "map_of segs = find_segment (cs_segments s)" "map_of es = find_evidence (cs_evidence s)"
  shows "validate_snapshot_zone segs es counts z = Ok u \<longleftrightarrow>
    validate_zone_relationship z s = Ok () \<and> unat (zr_evidence_count z) = count_of counts (zr_channel_id z)"
  using assms
  by (auto simp: validate_snapshot_zone_def validate_zone_relationship_def ok_simps count_of_def
      Let_def word_unat_eq_iff split: option.splits if_splits)

lemma snapshot_gap_Ok:
  assumes "map_of segs = find_segment (cs_segments s)"
  shows "validate_snapshot_gap segs g = Ok u \<longleftrightarrow> validate_gap_relationship g s = Ok ()"
  unfolding validate_snapshot_gap_def validate_gap_relationship_def assms by simp

lemma orphan_free:
  "(case find (\<lambda>c. c \<notin> A) cs of Some c \<Rightarrow> persisted_invariant (OrphanEvidence c) | None \<Rightarrow> r) = Ok u
     \<longleftrightarrow> set cs \<subseteq> A \<and> r = Ok u"
proof (cases "find (\<lambda>c. c \<notin> A) cs")
  case None
  then have "set cs \<subseteq> A" by (auto simp: find_None_iff)
  then show ?thesis unfolding None by simp
next
  case (Some c)
  then have "\<not> set cs \<subseteq> A" by (auto simp: find_Some_iff dest: nth_mem)
  then show ?thesis unfolding Some by (simp add: persisted_invariant_Ok)
qed

lemma valid_snapshot_counts:
  assumes "valid_snapshot s"
  shows "ref_count c (cs_evidence s) < 2 ^ 64"
proof (cases "c \<in> ev_channel_id ` set (cs_evidence s)")
  case True
  then obtain z where "z \<in> set (cs_zones s)" "c = zr_channel_id z"
    using assms by (fastforce simp: valid_snapshot_def)
  then have "unat (zr_evidence_count z) = ref_count c (cs_evidence s)"
    using assms by (auto simp: valid_snapshot_def)
  then show ?thesis using unat_u64[of "zr_evidence_count z"] by simp
next
  case False
  then show ?thesis using ref_count_pos[of c "cs_evidence s"] by simp
qed

lemma validate_snapshot_iff:
  assumes "sorted_snapshot s"
  shows "validate_snapshot s = Ok u \<longleftrightarrow> valid_snapshot s"
proof -
  let ?ss = "rev (keyed_entries sg_segment_id (cs_segments s))"
  let ?es = "rev (keyed_entries ev_evidence_id (cs_evidence s))"
  have segs: "map_of ?ss = find_segment (cs_segments s)"
    and evs: "map_of ?es = find_evidence (cs_evidence s)"
    using assms map_of_rev_keyed unfolding sorted_snapshot_def by blast+
  have step: "validate_snapshot s = Ok u \<longleftrightarrow>
      validate_header s = Ok () \<and> (\<forall>g \<in> set (cs_segments s). validate_segment g = Ok ())
      \<and> (\<forall>r \<in> set (cs_evidence s). validate_evidence_relationship r s = Ok ())
      \<and> (\<exists>counts. fold_result count_reference [] (cs_evidence s) = Ok counts
        \<and> (\<forall>z \<in> set (cs_zones s). validate_zone_relationship z s = Ok ()
             \<and> unat (zr_evidence_count z) = count_of counts (zr_channel_id z))
        \<and> fst ` set counts \<subseteq> zr_channel_id ` set (cs_zones s))
      \<and> (\<forall>g \<in> set (cs_gaps s). validate_gap_relationship g s = Ok ())"
    unfolding validate_snapshot_def Let_def and_then_Ok segment_entries_Ok
    by (simp add: orphan_free evidence_entries_Ok[OF segs] snapshot_zone_Ok[OF segs evs]
        snapshot_gap_Ok[OF segs] for_each_Ok and_then_unit_Ok) blast
  have counts: "count_of m c = ref_count c (cs_evidence s) \<and> fst ` set m = ev_channel_id ` set (cs_evidence s)"
    if "fold_result count_reference [] (cs_evidence s) = Ok m" for m c
    using count_references_Ok[OF that, of c] by (simp add: count_of_def)
  show ?thesis
  proof
    assume "validate_snapshot s = Ok u"
    then show "valid_snapshot s"
      using counts unfolding step valid_snapshot_def by (auto 4 4)
  next
    assume v: "valid_snapshot s"
    have "\<forall>c. count_of [] c + ref_count c (cs_evidence s) < 2 ^ 64"
      using valid_snapshot_counts[OF v] by (simp add: count_of_def)
    then obtain m where m: "fold_result count_reference [] (cs_evidence s) = Ok m"
      using count_references_total by blast
    show "validate_snapshot s = Ok u"
      using v counts[OF m] m unfolding step valid_snapshot_def by auto
  qed
qed

end
