(* ===== verification/Catalog_Working.thy ===== *)
theory Catalog_Working
  imports Channel_Operations Catalog_Store "HOL-Library.Product_Lexorder"
begin

text \<open>
  The working copy of the catalog and the ingestion of blocks into it, from the second half of
  \<^verbatim>\<open>src/src/inspection/catalog/engine.rs\<close>: the maps built from a snapshot and turned back into a batch,
  the evidence references of a block's Channel operations, the latest-evidence indexes, and the
  recomputation of the Zone records. The L1 types come from
  \<^verbatim>\<open>src/src/inspection/catalog/source.rs\<close>.
\<close>

section \<open>L1 blocks\<close>

record l1_chain_snapshot =
  ls_tip :: block_reference
  ls_lib :: block_reference

record 'n l1_block =
  lb_checkpoint :: block_checkpoint
  lb_payload :: "'n json"

record 'n l1_event =
  le_block :: "'n l1_block"
  le_snapshot :: l1_chain_snapshot

datatype source_error = InvalidRequest string | Unavailable string | InvalidResponse string

abbreviation event_checkpoint :: "'n l1_event \<Rightarrow> block_checkpoint" where
  "event_checkpoint e \<equiv> lb_checkpoint (le_block e)"

section \<open>Engine errors\<close>

text \<open>One constructor per message of the source, grouped by the part of the engine that raises it.\<close>

datatype (plugins only: code size) page_detail =
    ContextTimeBackwards | RepairLimitZero | RepairLimitExceeded | TargetBehindCursor u64 u64
  | TargetConflictsCursor | TargetMovedBackward u64 u64 | TargetIdChanged | PageLostFirst
  | PageNotAfterCursor u64 u64 | CoverageWithoutCursor | SplitEmptyPage | SlotsNotAscending
  | PageSnapshotChanged | EventBeyondTarget u64 u64 | EventConflictsTarget | EventSnapshotBehind
  | GenesisSlotNonZero | GenesisConflict | CursorNoSegment | CursorManySegments | TargetMissing
  | ConnectedNoEvents | ConnectedNoFinal | InitialSegmentExists string | CatchUpFrontierMissing
  | ActiveSegmentMissing string | CatchUpTraversalMissing | PageNoChange | FrontierMissing

datatype (plugins only: code size) repair_detail =
    RepairCycle string | RepairSourceError source_error | RepairWrongBlock string string
  | RepairNotPreceding string u64 u64 | RepairCrossedLower u64 string | RepairGenesisConflict
  | RepairNoPending | RepairUpperChanged | EmptyRepairNotConnected | ConnectedLostOldest
  | ConnectedLostNewest | RepairMissesUpperParent | RepairNotBeforeUpper | RepairContainsUpper
  | RepairCrossesBoundary | RepairMissesLower | PrefixMissesGenesis | PrefixGenesisConflict
  | UnresolvedUpperChanged | UnresolvedReachesLower | UnresolvedIdMismatch | UnresolvedLostOldest
  | UnresolvedLostNewest | UnresolvedBoundaryMismatch | UnresolvedCrossesBoundary
  | RequestLowerNotBefore | RecoveredDuplicate | RecoveredNotLinked

datatype (plugins only: code size) gap_detail =
    GapNoPending | GapUpperChanged | GapNeedsUnresolved | UnknownGap string
  | GapNoUpperSegment string string | PrefixNotUnavailable | PrefixNoFloor | PrefixNoSegment
  | PrefixSegmentDisappeared | PrefixNoGenesis | PrefixSegmentMissing | PrefixLostBlocks
  | GapLowerSegmentMissing | GapUpperSegmentMissing | GapNeedsUpperFrontier
  | GapUpperFrontierMismatch | GapAttemptsExhausted | GapNoChange | DisconnectedNoFloor
  | DisconnectedNoFrontier | DisconnectedParentMismatch | DisconnectedSegmentExists string
  | PrefixOverCoverage | DisconnectedNoChange | ConfirmTargetChanged | ConfirmLowerChanged
  | PrefixNoCheckpoint | ConfirmFrontierChanged

datatype (plugins only: code size) ingest_detail =
    DecodeFailed decode_detail | EvidenceConflict string | ZoneNoEvidence string
  | IngestZoneMissing string | OperationCountOverflow | EvidenceCounterOverflow
  | ZoneEvidenceOverflow | KeyCountOverflow | RefetchMismatch | RefetchNoHash
  | RefetchTransactionsNotArray | RefetchDuplicateHash | RefetchTransactionMissing
  | RefetchOperationsMissing | RefetchOperationMissing | RefetchNotChannel | RefetchOtherChannel
  | EncodeConfigurationFailed | EncodeOperationFailed | RefetchKindMismatch | NotHexBlockText label

datatype (plugins only: code size) engine_error =
    InvalidState engine_detail
  | InvalidBlock engine_detail
  | SourceInconsistent engine_detail
  | EngineOverflow engine_detail
and engine_detail =
    InPage page_detail | InRepair repair_detail | InGap gap_detail | InIngest ingest_detail
  | InvalidId catalog_error | RepairInvalidCheckpoint engine_error

type_synonym 'a engine_result = "('a, engine_error) result"

section \<open>Context\<close>

record engine_context =
  cx_source_revision :: u64
  cx_updated_at_unix :: u64
  cx_repair_block_limit :: nat

definition DEFAULT_CATALOG_REPAIR_BLOCKS :: nat where
  "DEFAULT_CATALOG_REPAIR_BLOCKS = 64"

definition MAX_CATALOG_REPAIR_BLOCKS :: nat where
  "MAX_CATALOG_REPAIR_BLOCKS = 512"

definition with_repair_block_limit :: "u64 \<Rightarrow> u64 \<Rightarrow> nat \<Rightarrow> engine_context engine_result" where
  "with_repair_block_limit source_revision updated_at limit =
     (if limit = 0 then Err (InvalidState (InPage RepairLimitZero))
      else if limit > MAX_CATALOG_REPAIR_BLOCKS then Err (InvalidState (InPage RepairLimitExceeded))
      else Ok \<lparr>cx_source_revision = source_revision, cx_updated_at_unix = updated_at,
               cx_repair_block_limit = limit\<rparr>)"

definition engine_context_new :: "u64 \<Rightarrow> u64 \<Rightarrow> engine_context engine_result" where
  "engine_context_new source_revision updated_at =
     with_repair_block_limit source_revision updated_at DEFAULT_CATALOG_REPAIR_BLOCKS"

section \<open>Evidence order\<close>

definition evidence_kind_rank :: "evidence_kind \<Rightarrow> u8" where
  "evidence_kind_rank k = (case k of
     ChannelCreated \<Rightarrow> 0 | ChannelConfiguration \<Rightarrow> 1 | ChannelOperation \<Rightarrow> 2
   | RawInscription \<Rightarrow> 3 | SequencerBlock \<Rightarrow> 4)"

definition evidence_kind_tag :: "evidence_kind \<Rightarrow> string" where
  "evidence_kind_tag k = (case k of
     ChannelCreated \<Rightarrow> ''created'' | ChannelConfiguration \<Rightarrow> ''config''
   | ChannelOperation \<Rightarrow> ''operation'' | SequencerBlock \<Rightarrow> ''sequencer'' | RawInscription \<Rightarrow> ''raw'')"

definition evidence_order :: "evidence_reference \<Rightarrow> u64 \<times> string \<times> u32 \<times> u8 \<times> string" where
  "evidence_order r =
     (ev_l1_slot r, unwrap_or (ev_transaction_hash r) [], ev_operation_index r,
      evidence_kind_rank (ev_evidence_kind r), ev_evidence_id r)"

section \<open>The working catalog\<close>

record working_catalog =
  wk_frontier :: "frontier option"
  wk_traversal :: "traversal option"
  wk_zones :: "(string, zone_record) btree"
  wk_evidence :: "(string, evidence_reference) btree"
  wk_latest_primary :: "(string, string) btree"
  wk_latest_configuration :: "(string, string) btree"
  wk_segments :: "(string, coverage_segment) btree"
  wk_gaps :: "(string, coverage_gap) btree"

text \<open>The test both index updates make: the indexed reference is absent or older than the candidate.\<close>

definition replaces_latest ::
  "(string, string) btree \<Rightarrow> (string, evidence_reference) btree \<Rightarrow> evidence_reference \<Rightarrow> bool" where
  "replaces_latest latest evidence candidate \<longleftrightarrow>
     is_none_or (Option.bind (bt_get latest (ev_channel_id candidate)) (bt_get evidence))
       (\<lambda>current. evidence_order candidate > evidence_order current)"

definition update_latest_evidence_id ::
  "(string, evidence_reference) btree \<Rightarrow> (string, string) btree \<Rightarrow> evidence_reference
   \<Rightarrow> (string, string) btree" where
  "update_latest_evidence_id evidence latest candidate =
     (if replaces_latest latest evidence candidate
      then bt_insert (ev_channel_id candidate) (ev_evidence_id candidate) latest else latest)"

definition latest_evidence_ids ::
  "(string, evidence_reference) btree \<Rightarrow> (string, string) btree \<times> (string, string) btree" where
  "latest_evidence_ids evidence =
     foldl (\<lambda>(primary, configuration) r.
       (if ev_evidence_kind r \<noteq> ChannelCreated
        then update_latest_evidence_id evidence primary r else primary,
        if ev_evidence_kind r = ChannelConfiguration
        then update_latest_evidence_id evidence configuration r else configuration))
       ([], []) (bt_values evidence)"

definition from_snapshot :: "catalog_snapshot \<Rightarrow> working_catalog" where
  "from_snapshot s =
     (let evidence = records_by_key ev_evidence_id (cs_evidence s);
          (primary, configuration) = latest_evidence_ids evidence
      in \<lparr>wk_frontier = cs_frontier s, wk_traversal = cs_traversal s,
          wk_zones = records_by_key zr_channel_id (cs_zones s), wk_evidence = evidence,
          wk_latest_primary = primary, wk_latest_configuration = configuration,
          wk_segments = records_by_key sg_segment_id (cs_segments s),
          wk_gaps = records_by_key gp_gap_id (cs_gaps s)\<rparr>)"

definition into_batch ::
  "working_catalog \<Rightarrow> catalog_snapshot \<Rightarrow> engine_context \<Rightarrow> catalog_batch option engine_result" where
  "into_batch w s ctx =
     (let (upsert_zones, delete_zones) = record_diff zr_channel_id (cs_zones s) (wk_zones w);
          (upsert_evidence, delete_evidence) = record_diff ev_evidence_id (cs_evidence s) (wk_evidence w);
          (upsert_segments, delete_segments) = record_diff sg_segment_id (cs_segments s) (wk_segments w);
          (upsert_gaps, delete_gaps) = record_diff gp_gap_id (cs_gaps s) (wk_gaps w);
          changed = (upsert_zones \<noteq> [] \<or> delete_zones \<noteq> [] \<or> upsert_evidence \<noteq> [] \<or> delete_evidence \<noteq> []
            \<or> upsert_segments \<noteq> [] \<or> delete_segments \<noteq> [] \<or> upsert_gaps \<noteq> [] \<or> delete_gaps \<noteq> []
            \<or> wk_frontier w \<noteq> cs_frontier s \<or> wk_traversal w \<noteq> cs_traversal s)
      in if \<not> changed then Ok None
         else Ok (Some \<lparr>cb_expected_catalog_revision = cm_catalog_revision (cs_metadata s),
           cb_updated_at_unix = cx_updated_at_unix ctx,
           cb_upsert_zones = upsert_zones, cb_delete_zone_ids = delete_zones,
           cb_upsert_evidence = upsert_evidence, cb_delete_evidence_ids = delete_evidence,
           cb_upsert_segments = upsert_segments, cb_delete_segment_ids = delete_segments,
           cb_upsert_gaps = upsert_gaps, cb_delete_gap_ids = delete_gaps,
           cb_frontier = wk_frontier w, cb_traversal = wk_traversal w\<rparr>))"

section \<open>Observations\<close>

datatype observation_kind =
    OConfiguration "string list" string
  | OInscription evidence_kind bool string bool
  | OOperation

record channel_observation =
  ob_channel_id :: string
  ob_transaction_hash :: string
  ob_operation_index :: u32
  ob_kind :: observation_kind

definition inscription_evidence_kind :: "inscription_classification \<Rightarrow> evidence_kind" where
  "inscription_evidence_kind c = (case c of
     ClassSequencerBlock \<Rightarrow> SequencerBlock | ClassRaw \<Rightarrow> RawInscription | ClassConflicting \<Rightarrow> RawInscription)"

fun map_channel_decode_error :: "decode_error \<Rightarrow> engine_error" where
  "map_channel_decode_error (DecodeInvalid d) = InvalidBlock (InIngest (DecodeFailed d))"
| "map_channel_decode_error (DecodeOverflow d) = EngineOverflow (InIngest (DecodeFailed d))"

definition observation_of_operation :: "'n decoded_operation \<Rightarrow> channel_observation" where
  "observation_of_operation op =
     \<lparr>ob_channel_id = do_channel_id op, ob_transaction_hash = do_transaction_hash op,
      ob_operation_index = do_operation_index op,
      ob_kind = (case do_kind op of
         DConfiguration keys threshold \<Rightarrow> OConfiguration keys threshold
       | DInscription parent signer _ classification \<Rightarrow>
           OInscription (inscription_evidence_kind classification)
             (list_all (\<lambda>c. c = CHR ''0'') parent) signer (classification = ClassConflicting)
       | DDeposit \<Rightarrow> OOperation
       | DWithdraw \<Rightarrow> OOperation)\<rparr>"

definition extract_channel_observations ::
  "'n externals \<Rightarrow> 'n l1_block \<Rightarrow> channel_observation list engine_result" where
  "extract_channel_observations ext block =
     and_then (map_err map_channel_decode_error
         (decode_block_channel_operations ext (lb_payload block)))
       (\<lambda>ops. Ok (map observation_of_operation ops))"

section \<open>Evidence\<close>

definition evidence_id_of :: "string \<Rightarrow> u32 \<Rightarrow> evidence_kind \<Rightarrow> string" where
  "evidence_id_of transaction_hash operation_index kind =
     ''evidence-'' @ transaction_hash @ ''-'' @ nat_text (unat operation_index) @ ''-''
     @ evidence_kind_tag kind"

definition make_evidence_reference ::
  "channel_observation \<Rightarrow> block_checkpoint \<Rightarrow> string \<Rightarrow> evidence_kind \<Rightarrow> evidence_use \<Rightarrow> evidence_reference" where
  "make_evidence_reference obs b segment_id kind use =
     \<lparr>ev_evidence_id = evidence_id_of (ob_transaction_hash obs) (ob_operation_index obs) kind,
      ev_channel_id = ob_channel_id obs, ev_coverage_segment_id = segment_id,
      ev_l1_slot = cp_slot b, ev_block_id = cp_block_id b,
      ev_transaction_hash = Some (ob_transaction_hash obs),
      ev_operation_index = ob_operation_index obs, ev_message_id = None,
      ev_evidence_kind = kind, ev_evidence_use = use\<rparr>"

definition insert_evidence ::
  "working_catalog \<Rightarrow> evidence_reference \<Rightarrow> (working_catalog \<times> bool) engine_result" where
  "insert_evidence w e =
     (case bt_get (wk_evidence w) (ev_evidence_id e) of
        Some existing \<Rightarrow>
          if existing = e then Ok (w, False)
          else Err (SourceInconsistent (InIngest (EvidenceConflict (ev_evidence_id e))))
      | None \<Rightarrow>
          let primary_is_latest = (ev_evidence_kind e \<noteq> ChannelCreated
                \<and> replaces_latest (wk_latest_primary w) (wk_evidence w) e);
              configuration_is_latest = (ev_evidence_kind e = ChannelConfiguration
                \<and> replaces_latest (wk_latest_configuration w) (wk_evidence w) e);
              insert_id = bt_insert (ev_channel_id e) (ev_evidence_id e)
          in Ok (w\<lparr>wk_evidence := bt_insert (ev_evidence_id e) e (wk_evidence w),
                   wk_latest_primary :=
                     (if primary_is_latest then insert_id (wk_latest_primary w)
                      else wk_latest_primary w),
                   wk_latest_configuration :=
                     (if configuration_is_latest then insert_id (wk_latest_configuration w)
                      else wk_latest_configuration w)\<rparr>, True))"

section \<open>Zone records\<close>

definition new_zone_record ::
  "channel_observation \<Rightarrow> block_checkpoint \<Rightarrow> string \<Rightarrow> u64 \<Rightarrow> string \<Rightarrow> engine_context \<Rightarrow> zone_record" where
  "new_zone_record obs b segment_id target_slot evidence_id ctx =
     \<lparr>zr_channel_id = ob_channel_id obs, zr_observed_label = None,
      zr_l1_channel = \<lparr>lc_tip_slot = Some (cp_slot b), lc_tip_hash = None,
        lc_lib_slot = Some target_slot, lc_balance = None, lc_key_count = None,
        lc_withdraw_threshold = None, lc_operation_count = 0, lc_finality_state = L1Final\<rparr>,
      zr_sequencer_committee = None,
      zr_classification = \<lparr>cc_channel_operations = 0, cc_recognized_l2_blocks = 0,
        cc_raw_inscriptions = 0, cc_conflicting_evidence = False\<rparr>,
      zr_first_seen_slot = cp_slot b, zr_last_seen_slot = cp_slot b,
      zr_latest_evidence_id = evidence_id, zr_evidence_count = 0,
      zr_snapshot_provenance = \<lparr>sp_origin = ReplayDerived, sp_coverage_segment_id = segment_id,
        sp_observed_slot = cp_slot b, sp_source_revision = cx_source_revision ctx\<rparr>,
      zr_updated_at_unix = cx_updated_at_unix ctx\<rparr>"

definition touch_zone_record ::
  "zone_record \<Rightarrow> block_checkpoint \<Rightarrow> u64 \<Rightarrow> bool \<Rightarrow> engine_context \<Rightarrow> zone_record" where
  "touch_zone_record z b target_slot conflicting ctx =
     z\<lparr>zr_first_seen_slot := min (zr_first_seen_slot z) (cp_slot b),
       zr_last_seen_slot := max (zr_last_seen_slot z) (cp_slot b),
       zr_l1_channel := (zr_l1_channel z)
         \<lparr>lc_tip_slot := Some (max (unwrap_or (lc_tip_slot (zr_l1_channel z)) 0) (cp_slot b)),
          lc_lib_slot := Some target_slot, lc_finality_state := L1Final\<rparr>,
       zr_classification := (zr_classification z)
         \<lparr>cc_conflicting_evidence := cc_conflicting_evidence (zr_classification z) \<or> conflicting\<rparr>,
       zr_updated_at_unix := cx_updated_at_unix ctx\<rparr>"

text \<open>The final \<open>match\<close> of \<open>ingest_observation\<close>: committee and channel facts carried by the operation.\<close>

definition observe_zone_record ::
  "zone_record \<Rightarrow> block_checkpoint \<Rightarrow> observation_kind \<Rightarrow> bool \<Rightarrow> bool \<Rightarrow> zone_record engine_result" where
  "observe_zone_record z b kind observation_is_latest configuration_is_latest = (case kind of
     OConfiguration keys withdraw_threshold \<Rightarrow>
       if configuration_is_latest then
         and_then (ok_or (u64_try_from (length keys)) (EngineOverflow (InIngest KeyCountOverflow)))
           (\<lambda>key_count.
           let active = Option.bind (zr_sequencer_committee z) sc_active_member;
               active_member = (if is_some_and active (\<lambda>a. a \<in> set keys) then active else None)
           in Ok (z\<lparr>zr_l1_channel := (zr_l1_channel z)
                      \<lparr>lc_key_count := Some key_count,
                       lc_withdraw_threshold := Some withdraw_threshold\<rparr>,
                    zr_sequencer_committee := Some \<lparr>sc_members = keys,
                      sc_active_member = active_member, sc_observed_at_slot = Some (cp_slot b)\<rparr>\<rparr>))
       else Ok z
   | OInscription _ parent_is_root signer _ \<Rightarrow>
       (case zr_sequencer_committee z of
          Some committee \<Rightarrow>
            if observation_is_latest \<and> signer \<in> set (sc_members committee)
            then Ok (z\<lparr>zr_sequencer_committee := Some (committee
                   \<lparr>sc_active_member := Some signer, sc_observed_at_slot := Some (cp_slot b)\<rparr>)\<rparr>)
            else Ok z
        | None \<Rightarrow>
            if parent_is_root \<and> observation_is_latest
            then Ok (z\<lparr>zr_l1_channel := (zr_l1_channel z)\<lparr>lc_key_count := Some 1\<rparr>,
                   zr_sequencer_committee := Some \<lparr>sc_members = [signer],
                     sc_active_member = Some signer, sc_observed_at_slot = Some (cp_slot b)\<rparr>\<rparr>)
            else Ok z)
   | OOperation \<Rightarrow> Ok z)"

definition observation_evidence :: "observation_kind \<Rightarrow> evidence_kind \<times> evidence_use \<times> bool \<times> bool" where
  "observation_evidence k = (case k of
     OConfiguration _ _ \<Rightarrow> (ChannelConfiguration, PointSnapshot, False, False)
   | OInscription kind root _ conflicting \<Rightarrow> (kind, Presence, root, conflicting)
   | OOperation \<Rightarrow> (ChannelOperation, ReplayContribution, False, False))"

definition insert_observation_evidence ::
  "working_catalog \<Rightarrow> block_checkpoint \<Rightarrow> string \<Rightarrow> channel_observation
   \<Rightarrow> (working_catalog \<times> bool) engine_result" where
  "insert_observation_evidence w b segment_id obs =
     (let (kind, use, parent_is_root, _) = observation_evidence (ob_kind obs)
      in and_then (insert_evidence w (make_evidence_reference obs b segment_id kind use))
           (\<lambda>(w, primary_is_new).
         if parent_is_root
         then and_then (insert_evidence w
                (make_evidence_reference obs b segment_id ChannelCreated Presence))
                (\<lambda>(w, _). Ok (w, primary_is_new))
         else Ok (w, primary_is_new)))"

definition observe_zone ::
  "working_catalog \<Rightarrow> block_checkpoint \<Rightarrow> string \<Rightarrow> u64 \<Rightarrow> channel_observation \<Rightarrow> engine_context
   \<Rightarrow> working_catalog engine_result" where
  "observe_zone w b segment_id target_slot obs ctx =
     (let (kind, _, _, conflicting) = observation_evidence (ob_kind obs);
          primary_id = evidence_id_of (ob_transaction_hash obs) (ob_operation_index obs) kind;
          observation_is_latest =
            (bt_get (wk_latest_primary w) (ob_channel_id obs) = Some primary_id);
          configuration_is_latest =
            ((case ob_kind obs of OConfiguration _ _ \<Rightarrow> True | _ \<Rightarrow> False)
             \<and> bt_get (wk_latest_configuration w) (ob_channel_id obs) = Some primary_id);
          z = (case bt_get (wk_zones w) (ob_channel_id obs) of
                 Some z \<Rightarrow> z
               | None \<Rightarrow> new_zone_record obs b segment_id target_slot primary_id ctx)
      in and_then (observe_zone_record (touch_zone_record z b target_slot conflicting ctx) b
             (ob_kind obs) observation_is_latest configuration_is_latest) (\<lambda>z.
         Ok (w\<lparr>wk_zones := bt_insert (ob_channel_id obs) z (wk_zones w)\<rparr>)))"

definition ingest_observation ::
  "working_catalog \<Rightarrow> block_checkpoint \<Rightarrow> string \<Rightarrow> u64 \<Rightarrow> channel_observation \<Rightarrow> engine_context
   \<Rightarrow> working_catalog engine_result" where
  "ingest_observation w b segment_id target_slot obs ctx =
     and_then (insert_observation_evidence w b segment_id obs) (\<lambda>(w, primary_is_new).
     if \<not> primary_is_new then Ok w else observe_zone w b segment_id target_slot obs ctx)"

section \<open>Recomputation\<close>

definition max_by_key :: "('a \<Rightarrow> 'k::linorder) \<Rightarrow> 'a list \<Rightarrow> 'a option" where
  "max_by_key f xs = (case xs of
     [] \<Rightarrow> None
   | x # xs \<Rightarrow> Some (foldl (\<lambda>m y. if f m \<le> f y then y else m) x xs))"

definition count_evidence :: "evidence_reference list \<Rightarrow> evidence_kind \<Rightarrow> u64 engine_result" where
  "count_evidence references kind =
     ok_or (u64_try_from (length (filter (\<lambda>r. ev_evidence_kind r = kind) references)))
       (EngineOverflow (InIngest EvidenceCounterOverflow))"

definition slot_min :: "evidence_reference list \<Rightarrow> u64 option" where
  "slot_min rs = (case rs of [] \<Rightarrow> None | r # rs \<Rightarrow> Some (foldl (\<lambda>m r. min m (ev_l1_slot r)) (ev_l1_slot r) rs))"

definition slot_max :: "evidence_reference list \<Rightarrow> u64 option" where
  "slot_max rs = (case rs of [] \<Rightarrow> None | r # rs \<Rightarrow> Some (foldl (\<lambda>m r. max m (ev_l1_slot r)) (ev_l1_slot r) rs))"

text \<open>The assignments to the Zone record once the counts are known.\<close>

definition recomputed_zone ::
  "u64 \<Rightarrow> engine_context \<Rightarrow> evidence_reference list \<Rightarrow> evidence_reference \<Rightarrow> u64 \<Rightarrow> u64 \<Rightarrow> u64 \<Rightarrow> u64
   \<Rightarrow> zone_record \<Rightarrow> zone_record" where
  "recomputed_zone target_slot ctx references latest operation_count recognized raw evidence_count z =
     (let primary = filter (\<lambda>r. ev_evidence_kind r \<noteq> ChannelCreated) references;
          latest_configuration = max_by_key evidence_order
            (filter (\<lambda>r. ev_evidence_kind r = ChannelConfiguration) references);
          first_seen = unwrap_or (slot_min primary) (ev_l1_slot latest);
          last_seen = unwrap_or (slot_max primary) (ev_l1_slot latest)
      in z\<lparr>zr_first_seen_slot := first_seen, zr_last_seen_slot := last_seen,
           zr_latest_evidence_id := ev_evidence_id latest, zr_evidence_count := evidence_count,
           zr_classification :=
             \<lparr>cc_channel_operations = operation_count, cc_recognized_l2_blocks = recognized,
              cc_raw_inscriptions = raw,
              cc_conflicting_evidence = (cc_conflicting_evidence (zr_classification z)
                \<or> recognized > 0 \<and> raw > 0)\<rparr>,
           zr_l1_channel := (zr_l1_channel z)
             \<lparr>lc_operation_count := operation_count, lc_tip_slot := Some last_seen,
              lc_lib_slot := Some target_slot, lc_finality_state := L1Final\<rparr>,
           zr_snapshot_provenance :=
             \<lparr>sp_origin = (if is_some_and latest_configuration (\<lambda>c.
                  ev_coverage_segment_id c = ev_coverage_segment_id latest)
                then FullConfiguration else ReplayDerived),
              sp_coverage_segment_id = ev_coverage_segment_id latest,
              sp_observed_slot = last_seen, sp_source_revision = cx_source_revision ctx\<rparr>,
           zr_updated_at_unix := cx_updated_at_unix ctx\<rparr>)"

definition recompute_zone_record ::
  "u64 \<Rightarrow> engine_context \<Rightarrow> working_catalog \<Rightarrow> string \<Rightarrow> working_catalog engine_result" where
  "recompute_zone_record target_slot ctx w channel_id =
     (let references = filter (\<lambda>r. ev_channel_id r = channel_id) (bt_values (wk_evidence w));
          primary = filter (\<lambda>r. ev_evidence_kind r \<noteq> ChannelCreated) references
      in and_then (ok_or (max_by_key evidence_order references)
             (InvalidState (InIngest (ZoneNoEvidence channel_id)))) (\<lambda>latest.
         and_then (ok_or (u64_try_from (length primary))
              (EngineOverflow (InIngest OperationCountOverflow))) (\<lambda>operation_count.
         and_then (count_evidence references SequencerBlock) (\<lambda>recognized.
         and_then (count_evidence references RawInscription) (\<lambda>raw.
         and_then (ok_or (u64_try_from (length references))
              (EngineOverflow (InIngest ZoneEvidenceOverflow))) (\<lambda>evidence_count.
         and_then (ok_or (bt_get (wk_zones w) channel_id)
              (InvalidState (InIngest (IngestZoneMissing channel_id)))) (\<lambda>z.
         Ok (w\<lparr>wk_zones := bt_insert channel_id
           (recomputed_zone target_slot ctx references latest operation_count recognized raw
             evidence_count z) (wk_zones w)\<rparr>))))))))"

definition recompute_zone_records ::
  "working_catalog \<Rightarrow> string list \<Rightarrow> u64 \<Rightarrow> engine_context \<Rightarrow> working_catalog engine_result" where
  "recompute_zone_records w channels target_slot ctx =
     fold_result (recompute_zone_record target_slot ctx) w channels"

section \<open>Ingestion\<close>

definition current_target_in_working :: "working_catalog \<Rightarrow> block_reference engine_result" where
  "current_target_in_working w =
     ok_or (Option.bind (wk_traversal w) tr_target_lib) (InvalidState (InPage TargetMissing))"

definition ingest_block ::
  "'n externals \<Rightarrow> string \<Rightarrow> u64 \<Rightarrow> engine_context \<Rightarrow> working_catalog \<times> string list \<Rightarrow> 'n l1_block
   \<Rightarrow> (working_catalog \<times> string list) engine_result" where
  "ingest_block ext segment_id target_slot ctx st block =
     and_then (extract_channel_observations ext block) (\<lambda>observations.
     fold_result (\<lambda>(w, touched) obs.
         and_then (ingest_observation w (lb_checkpoint block) segment_id target_slot obs ctx) (\<lambda>w.
         Ok (w, bset_insert (ob_channel_id obs) touched))) st observations)"

definition ingest_blocks ::
  "'n externals \<Rightarrow> working_catalog \<Rightarrow> 'n l1_block list \<Rightarrow> string \<Rightarrow> engine_context
   \<Rightarrow> working_catalog engine_result" where
  "ingest_blocks ext w blocks segment_id ctx =
     and_then (current_target_in_working w) (\<lambda>target.
     and_then (fold_result (ingest_block ext segment_id (br_slot target) ctx) (w, []) blocks)
       (\<lambda>(w, touched). recompute_zone_records w touched (br_slot target) ctx))"

definition reassign_segment ::
  "working_catalog \<Rightarrow> string \<Rightarrow> string \<Rightarrow> engine_context \<Rightarrow> working_catalog engine_result" where
  "reassign_segment w old_id new_id ctx =
     (let channels = foldl (\<lambda>cs e. if ev_coverage_segment_id e = old_id
            then bset_insert (ev_channel_id e) cs else cs) [] (bt_values (wk_evidence w));
          w = w\<lparr>wk_evidence := bt_map_values (\<lambda>e. if ev_coverage_segment_id e = old_id
            then e\<lparr>ev_coverage_segment_id := new_id\<rparr> else e) (wk_evidence w)\<rparr>;
          w = w\<lparr>wk_zones := bt_map_values (\<lambda>z.
            if sp_coverage_segment_id (zr_snapshot_provenance z) = old_id
            then z\<lparr>zr_snapshot_provenance := (zr_snapshot_provenance z)
                     \<lparr>sp_coverage_segment_id := new_id,
                      sp_source_revision := cx_source_revision ctx\<rparr>,
                   zr_updated_at_unix := cx_updated_at_unix ctx\<rparr>
            else z) (wk_zones w)\<rparr>
      in and_then (current_target_in_working w) (\<lambda>target.
         recompute_zone_records w channels (br_slot target) ctx))"

end
