(* ===== verification/Catalog_Engine.thy ===== *)
theory Catalog_Engine
  imports Catalog_Working
begin

text \<open>
  The reductions of the catalog engine, from the first half of
  \<^verbatim>\<open>src/src/inspection/catalog/engine.rs\<close>: the catch-up preparation, the page
  reduction, the ancestry repair loop, the confirmation of a gap, the repair of a gap and of an
  unavailable prefix, and the refetch of an evidence payload. Every reduction is a pure function
  from a snapshot and what the L1 source returned to a batch or an error.
\<close>

section \<open>Requests and outcomes\<close>

record repair_request =
  rq_lower_checkpoint :: "block_reference option"
  rq_upper_checkpoint :: block_checkpoint
  rq_expected_genesis_id :: "string option"
  rq_max_blocks :: nat

datatype 'n repair_outcome =
    Connected "'n l1_block list"
  | Unresolved "'n l1_block list" string gap_reason

datatype 'n page_reduction =
    NoProgress
  | Commit catalog_batch "'n l1_event list"
  | RepairRequired repair_request "'n l1_event list"
  | GapConfirmationRequired repair_request "'n l1_event list" "'n repair_outcome"

record repair_confirmation =
  rc_target_lib :: block_reference
  rc_lower_checkpoint :: "block_reference option"
  rc_upper_frontier_checkpoint :: "block_checkpoint option"

section \<open>Checks\<close>

definition validate_id :: "string \<Rightarrow> label \<Rightarrow> unit engine_result" where
  "validate_id v l = map_err (\<lambda>e. InvalidState (InvalidId e)) (validate_hex_id v l)"

definition validate_reference :: "block_reference \<Rightarrow> label \<Rightarrow> unit engine_result" where
  "validate_reference r l = validate_id (br_block_id r) (LBlockIdOf l)"

definition engine_validate_checkpoint :: "block_checkpoint \<Rightarrow> label \<Rightarrow> unit engine_result" where
  "engine_validate_checkpoint c l =
     and_then (validate_id (cp_block_id c) (LIdOf l)) (\<lambda>_.
     validate_id (cp_parent_id c) (LParentIdOf l))"

definition validate_context :: "catalog_snapshot \<Rightarrow> engine_context \<Rightarrow> unit engine_result" where
  "validate_context s ctx =
     fail_if (cx_updated_at_unix ctx < cm_updated_at_unix (cs_metadata s))
       (InvalidState (InPage ContextTimeBackwards))"

definition block_reference_of :: "block_checkpoint \<Rightarrow> block_reference" where
  "block_reference_of c = \<lparr>br_slot = cp_slot c, br_block_id = cp_block_id c\<rparr>"

definition segment_id_for_floor :: "block_checkpoint \<Rightarrow> string" where
  "segment_id_for_floor floor = ''segment-'' @ cp_block_id floor"

definition gap_id_for_boundary :: "'n externals \<Rightarrow> block_reference \<Rightarrow> block_checkpoint \<Rightarrow> string" where
  "gap_id_for_boundary ext lower upper =
     ''gap-'' @ x_hex_encode ext (x_sha256 ext
       (map (\<lambda>c. of_int (code c)) (br_block_id lower @ cp_block_id upper)))"

definition current_target :: "catalog_snapshot \<Rightarrow> block_reference engine_result" where
  "current_target s =
     ok_or (Option.bind (cs_traversal s) tr_target_lib) (InvalidState (InPage TargetMissing))"

abbreviation ingestion_cursor :: "traversal option \<Rightarrow> block_reference option" where
  "ingestion_cursor t \<equiv> Option.bind t tr_ingestion_cursor"

definition active_segment_id :: "catalog_snapshot \<Rightarrow> block_reference \<Rightarrow> string engine_result" where
  "active_segment_id s cursor =
     (case filter (\<lambda>g. sg_frontier g = cursor) (cs_segments s) of
        [g] \<Rightarrow> Ok (sg_segment_id g)
      | [] \<Rightarrow> Err (InvalidState (InPage CursorNoSegment))
      | _ \<Rightarrow> Err (InvalidState (InPage CursorManySegments)))"

definition active_segment_id_in_working ::
  "working_catalog \<Rightarrow> block_reference \<Rightarrow> string engine_result" where
  "active_segment_id_in_working w cursor =
     (case map sg_segment_id (filter (\<lambda>g. sg_frontier g = cursor) (bt_values (wk_segments w))) of
        [i] \<Rightarrow> Ok i
      | [] \<Rightarrow> Err (InvalidState (InPage CursorNoSegment))
      | _ \<Rightarrow> Err (InvalidState (InPage CursorManySegments)))"

definition expected_genesis :: "catalog_snapshot \<Rightarrow> string option" where
  "expected_genesis s = (case cm_network_scope (cs_metadata s) of
     GenesisId g \<Rightarrow> Some g | FinalizedAnchor _ _ _ _ \<Rightarrow> None)"

definition make_repair_request ::
  "block_reference option \<Rightarrow> block_checkpoint \<Rightarrow> catalog_snapshot \<Rightarrow> engine_context \<Rightarrow> repair_request" where
  "make_repair_request lower upper s ctx =
     \<lparr>rq_lower_checkpoint = lower, rq_upper_checkpoint = upper,
      rq_expected_genesis_id = expected_genesis s, rq_max_blocks = cx_repair_block_limit ctx\<rparr>"

definition validate_genesis_block :: "catalog_snapshot \<Rightarrow> block_checkpoint \<Rightarrow> unit engine_result" where
  "validate_genesis_block s c =
     (if cp_slot c \<noteq> 0 then Err (InvalidState (InPage GenesisSlotNonZero))
      else case cm_network_scope (cs_metadata s) of
        GenesisId g \<Rightarrow>
          if cp_block_id c \<noteq> g then Err (SourceInconsistent (InPage GenesisConflict)) else Ok ()
      | FinalizedAnchor _ _ _ _ \<Rightarrow> Ok ())"

definition validate_event_against_target :: "'n l1_event \<Rightarrow> block_reference \<Rightarrow> unit engine_result" where
  "validate_event_against_target e target =
     (let c = event_checkpoint e; lib = ls_lib (le_snapshot e)
      in if cp_slot c > br_slot target
         then Err (SourceInconsistent (InPage (EventBeyondTarget (cp_slot c) (br_slot target))))
         else if cp_slot c = br_slot target \<and> cp_block_id c \<noteq> br_block_id target
         then Err (SourceInconsistent (InPage EventConflictsTarget))
         else if br_slot lib < br_slot target
                 \<or> br_slot lib = br_slot target \<and> br_block_id lib \<noteq> br_block_id target
         then Err (SourceInconsistent (InPage EventSnapshotBehind))
         else Ok ())"

definition validate_page_snapshots :: "'n l1_event list \<Rightarrow> unit engine_result" where
  "validate_page_snapshots events = (case events of
     [] \<Rightarrow> Ok ()
   | first # _ \<Rightarrow> for_each (\<lambda>e. fail_if (le_snapshot e \<noteq> le_snapshot first)
       (SourceInconsistent (InPage PageSnapshotChanged))) events)"

fun ascending_from :: "u64 option \<Rightarrow> 'n l1_event list \<Rightarrow> unit engine_result" where
  "ascending_from previous [] = Ok ()"
| "ascending_from previous (e # es) =
     (if is_some_and previous (\<lambda>slot. cp_slot (event_checkpoint e) \<le> slot)
      then Err (SourceInconsistent (InPage SlotsNotAscending))
      else ascending_from (Some (cp_slot (event_checkpoint e))) es)"

definition validate_strictly_ascending_slots :: "'n l1_event list \<Rightarrow> unit engine_result" where
  "validate_strictly_ascending_slots events = ascending_from None events"

text \<open>
  The loop of \<open>split_connected_events\<close>: \<open>previous\<close> is the last accepted checkpoint and \<open>broken\<close> is set
  once an event does not continue it.
\<close>

fun split_loop ::
  "block_checkpoint \<Rightarrow> bool \<Rightarrow> 'n l1_event list \<Rightarrow> 'n l1_event list \<Rightarrow> 'n l1_event list
   \<Rightarrow> ('n l1_event list \<times> 'n l1_event list) engine_result" where
  "split_loop previous broken accepted remaining [] = Ok (accepted, remaining)"
| "split_loop previous broken accepted remaining (e # es) =
     (let c = event_checkpoint e
      in if \<not> broken \<and> cp_slot c > cp_slot previous \<and> cp_parent_id c = cp_block_id previous
         then split_loop c broken (accepted @ [e]) remaining es
         else if \<not> broken \<and> cp_slot c \<le> cp_slot previous
         then Err (SourceInconsistent (InPage SlotsNotAscending))
         else split_loop previous True accepted (remaining @ [e]) es)"

definition split_connected_events ::
  "'n l1_event list \<Rightarrow> ('n l1_event list \<times> 'n l1_event list) engine_result" where
  "split_connected_events events = (case events of
     [] \<Rightarrow> Err (InvalidState (InPage SplitEmptyPage))
   | first # rest \<Rightarrow> split_loop (event_checkpoint first) False [first] [] rest)"

definition prepend_recovered_events ::
  "'n l1_block list \<Rightarrow> 'n l1_event list \<Rightarrow> l1_chain_snapshot \<Rightarrow> 'n l1_event list" where
  "prepend_recovered_events recovered pending chain =
     map (\<lambda>b. \<lparr>le_block = b, le_snapshot = chain\<rparr>) recovered @ pending"

section \<open>Repair checks\<close>

definition validate_repair_request :: "repair_request \<Rightarrow> unit engine_result" where
  "validate_repair_request r =
     and_then (engine_validate_checkpoint (rq_upper_checkpoint r) LRepairUpperCheckpoint) (\<lambda>_.
     and_then (case rq_lower_checkpoint r of
         Some lower \<Rightarrow> and_then (validate_reference lower LRepairLowerCheckpoint) (\<lambda>_.
           fail_if (br_slot lower \<ge> cp_slot (rq_upper_checkpoint r))
             (InvalidState (InRepair RequestLowerNotBefore)))
       | None \<Rightarrow> Ok ()) (\<lambda>_.
     case rq_expected_genesis_id r of
        Some g \<Rightarrow> validate_id g LExpectedGenesisId | None \<Rightarrow> Ok ()))"

fun recovered_chain :: "block_checkpoint option \<Rightarrow> string list \<Rightarrow> 'n l1_block list \<Rightarrow> unit engine_result" where
  "recovered_chain previous ids [] = Ok ()"
| "recovered_chain previous ids (b # bs) =
     (let c = lb_checkpoint b in
      and_then (engine_validate_checkpoint c LRecoveredBlock) (\<lambda>_.
      if cp_block_id c \<in> set ids then Err (SourceInconsistent (InRepair RecoveredDuplicate))
      else if is_some_and previous (\<lambda>p. cp_slot c \<le> cp_slot p \<or> cp_parent_id c \<noteq> cp_block_id p)
      then Err (SourceInconsistent (InRepair RecoveredNotLinked))
      else recovered_chain (Some c) (cp_block_id c # ids) bs))"

definition validate_recovered_chain :: "'n l1_block list \<Rightarrow> unit engine_result" where
  "validate_recovered_chain recovered = recovered_chain None [] recovered"

definition validate_connected_repair :: "repair_request \<Rightarrow> 'n l1_block list \<Rightarrow> unit engine_result" where
  "validate_connected_repair r recovered =
     and_then (validate_repair_request r) (\<lambda>_.
     if recovered = [] then
       (if is_some_and (rq_lower_checkpoint r)
             (\<lambda>lower. cp_parent_id (rq_upper_checkpoint r) = br_block_id lower)
        then Ok () else Err (InvalidState (InRepair EmptyRepairNotConnected)))
     else
       and_then (validate_recovered_chain recovered) (\<lambda>_.
       let oldest = lb_checkpoint (hd recovered); newest = lb_checkpoint (last recovered);
           upper = rq_upper_checkpoint r
       in if cp_block_id newest \<noteq> cp_parent_id upper
          then Err (InvalidState (InRepair RepairMissesUpperParent))
          else if cp_slot newest \<ge> cp_slot upper
          then Err (SourceInconsistent (InRepair RepairNotBeforeUpper))
          else if list_ex (\<lambda>b. cp_block_id (lb_checkpoint b) = cp_block_id upper) recovered
          then Err (SourceInconsistent (InRepair RepairContainsUpper))
          else case rq_lower_checkpoint r of
            Some lower \<Rightarrow>
              if cp_slot oldest \<le> br_slot lower
                 \<or> list_ex (\<lambda>b. cp_block_id (lb_checkpoint b) = br_block_id lower) recovered
              then Err (SourceInconsistent (InRepair RepairCrossesBoundary))
              else if cp_parent_id oldest \<noteq> br_block_id lower
              then Err (InvalidState (InRepair RepairMissesLower))
              else Ok ()
          | None \<Rightarrow>
              if cp_slot oldest \<noteq> 0 then Err (InvalidState (InRepair PrefixMissesGenesis))
              else if is_some_and (rq_expected_genesis_id r) (\<lambda>g. g \<noteq> cp_block_id oldest)
              then Err (SourceInconsistent (InRepair PrefixGenesisConflict))
              else Ok ()))"

definition validate_unresolved_repair ::
  "repair_request \<Rightarrow> 'n l1_block list \<Rightarrow> string \<Rightarrow> block_checkpoint \<Rightarrow> unit engine_result" where
  "validate_unresolved_repair r recovered missing upper =
     and_then (validate_repair_request r) (\<lambda>_.
     and_then (validate_id missing LUnresolvedRepairBlockId) (\<lambda>_.
     if upper \<noteq> rq_upper_checkpoint r then Err (InvalidState (InRepair UnresolvedUpperChanged))
     else if is_some_and (rq_lower_checkpoint r) (\<lambda>lower. br_block_id lower = missing)
     then Err (InvalidState (InRepair UnresolvedReachesLower))
     else if recovered = [] then
       (if cp_parent_id upper \<noteq> missing then Err (InvalidState (InRepair UnresolvedIdMismatch))
        else Ok ())
     else
       and_then (validate_recovered_chain recovered) (\<lambda>_.
       let oldest = lb_checkpoint (hd recovered); newest = lb_checkpoint (last recovered)
       in if cp_parent_id oldest \<noteq> missing \<or> cp_block_id newest \<noteq> cp_parent_id upper
          then Err (InvalidState (InRepair UnresolvedBoundaryMismatch))
          else if cp_slot newest \<ge> cp_slot upper
             \<or> is_some_and (rq_lower_checkpoint r) (\<lambda>lower. cp_slot oldest \<le> br_slot lower)
             \<or> rq_lower_checkpoint r = None \<and> cp_slot oldest = 0
             \<or> list_ex (\<lambda>b. cp_block_id (lb_checkpoint b) = missing
                 \<or> cp_block_id (lb_checkpoint b) = cp_block_id upper
                 \<or> is_some_and (rq_lower_checkpoint r)
                     (\<lambda>lower. cp_block_id (lb_checkpoint b) = br_block_id lower)) recovered
          then Err (SourceInconsistent (InRepair UnresolvedCrossesBoundary))
          else Ok ())))"

definition validate_repair_confirmation ::
  "catalog_snapshot \<Rightarrow> block_reference option \<Rightarrow> repair_confirmation \<Rightarrow> bool \<Rightarrow> unit engine_result" where
  "validate_repair_confirmation s expected_lower c require_upper =
     and_then (validate_reference (rc_target_lib c) LConfirmedTargetLib) (\<lambda>_.
     and_then (current_target s) (\<lambda>target.
     if rc_target_lib c \<noteq> target then Err (SourceInconsistent (InGap ConfirmTargetChanged))
     else if rc_lower_checkpoint c \<noteq> expected_lower
     then Err (SourceInconsistent (InGap ConfirmLowerChanged))
     else and_then (case rc_lower_checkpoint c of
              Some lower \<Rightarrow> validate_reference lower LConfirmedLowerCheckpoint | None \<Rightarrow> Ok ()) (\<lambda>_.
          and_then (case rc_upper_frontier_checkpoint c of
              Some upper \<Rightarrow> engine_validate_checkpoint upper LConfirmedUpperFrontier | None \<Rightarrow> Ok ()) (\<lambda>_.
          if require_upper then
            and_then (ok_or (Option.bind (cs_frontier s) fr_checkpoint)
                (InvalidState (InGap PrefixNoCheckpoint))) (\<lambda>persisted.
            fail_if (rc_upper_frontier_checkpoint c \<noteq> Some persisted)
              (SourceInconsistent (InGap ConfirmFrontierChanged)))
          else Ok ()))))"

section \<open>Catch-up preparation\<close>

definition default_frontier :: frontier where
  "default_frontier = \<lparr>fr_scanned_through_slot = None, fr_checkpoint = None, fr_observed_lib = None,
     fr_coverage_floor = None, fr_prefix_status = PrefixUnknown, fr_coverage_status = CoverageRebuilding\<rparr>"

text \<open>The status rule shared by the catch-up preparation and \<open>recompute_coverage\<close>.\<close>

definition coverage_rule :: "bool \<Rightarrow> bool \<Rightarrow> frontier \<Rightarrow> coverage_status" where
  "coverage_rule reaches_target no_gaps f =
     (if reaches_target \<and> no_gaps \<and> fr_prefix_status f = PrefixComplete \<and> fr_coverage_floor f = Some 0
      then CoverageComplete
      else if reaches_target \<or> \<not> no_gaps \<or> fr_prefix_status f = PrefixUnavailable
      then CoveragePartial
      else CoverageRebuilding)"

definition catch_up_target_check ::
  "catalog_snapshot \<Rightarrow> block_reference \<Rightarrow> bool \<Rightarrow> unit engine_result" where
  "catch_up_target_check s target resumed =
     (let cursor = ingestion_cursor (cs_traversal s) in
      and_then (case cursor of
         Some c \<Rightarrow>
           if br_slot c > br_slot target
           then Err (SourceInconsistent (InPage (TargetBehindCursor (br_slot target) (br_slot c))))
           else if br_slot c = br_slot target \<and> br_block_id c \<noteq> br_block_id target
           then Err (SourceInconsistent (InPage TargetConflictsCursor)) else Ok ()
       | None \<Rightarrow> Ok ()) (\<lambda>_.
      case Option.bind (cs_traversal s) tr_target_lib of
        Some previous \<Rightarrow>
          let unfinished = is_none_or cursor (\<lambda>c. br_slot c < br_slot previous)
          in if br_slot previous > br_slot target \<and> \<not> (resumed \<and> unfinished)
             then Err (SourceInconsistent
               (InPage (TargetMovedBackward (br_slot previous) (br_slot target))))
             else if br_slot previous = br_slot target \<and> br_block_id previous \<noteq> br_block_id target
             then Err (SourceInconsistent (InPage TargetIdChanged)) else Ok ()
      | None \<Rightarrow> Ok ()))"

definition prepare_catalog_catch_up_with_resume ::
  "catalog_snapshot \<Rightarrow> block_reference \<Rightarrow> engine_context \<Rightarrow> bool \<Rightarrow> catalog_batch option engine_result" where
  "prepare_catalog_catch_up_with_resume s target ctx resumed =
     and_then (validate_context s ctx) (\<lambda>_.
     and_then (validate_reference target LTargetLib) (\<lambda>_.
     and_then (catch_up_target_check s target resumed) (\<lambda>_.
     let traversal = Some \<lparr>tr_target_lib = Some target,
                           tr_ingestion_cursor = ingestion_cursor (cs_traversal s)\<rparr>;
         f = (unwrap_or (cs_frontier s) default_frontier)\<lparr>fr_observed_lib := Some target\<rparr>;
         upsert_segments =
           map (\<lambda>g. g\<lparr>sg_reaches_target_lib := (sg_frontier g = target)\<rparr>)
             (filter (\<lambda>g. sg_reaches_target_lib g \<noteq> (sg_frontier g = target)) (cs_segments s));
         reaches_target = list_ex (\<lambda>g. sg_frontier g = target) (cs_segments s);
         f = f\<lparr>fr_coverage_status := coverage_rule reaches_target (cs_gaps s = []) f\<rparr>;
         upsert_zones =
           map (\<lambda>z. z\<lparr>zr_l1_channel := (zr_l1_channel z)\<lparr>lc_lib_slot := Some (br_slot target)\<rparr>,
                       zr_updated_at_unix := cx_updated_at_unix ctx\<rparr>)
             (filter (\<lambda>z. lc_lib_slot (zr_l1_channel z) \<noteq> Some (br_slot target)) (cs_zones s))
     in if upsert_segments = [] \<and> upsert_zones = [] \<and> Some f = cs_frontier s
           \<and> traversal = cs_traversal s
        then Ok None
        else Ok (Some \<lparr>cb_expected_catalog_revision = cm_catalog_revision (cs_metadata s),
          cb_updated_at_unix = cx_updated_at_unix ctx,
          cb_upsert_zones = upsert_zones, cb_delete_zone_ids = [],
          cb_upsert_evidence = [], cb_delete_evidence_ids = [],
          cb_upsert_segments = upsert_segments, cb_delete_segment_ids = [],
          cb_upsert_gaps = [], cb_delete_gap_ids = [],
          cb_frontier = Some f, cb_traversal = traversal\<rparr>))))"

definition prepare_catalog_catch_up ::
  "catalog_snapshot \<Rightarrow> block_reference \<Rightarrow> engine_context \<Rightarrow> catalog_batch option engine_result" where
  "prepare_catalog_catch_up s target ctx = prepare_catalog_catch_up_with_resume s target ctx False"

definition prepare_resumed_catalog_catch_up ::
  "catalog_snapshot \<Rightarrow> block_reference \<Rightarrow> engine_context \<Rightarrow> catalog_batch option engine_result" where
  "prepare_resumed_catalog_catch_up s target ctx = prepare_catalog_catch_up_with_resume s target ctx True"

section \<open>Changes to the working catalog\<close>

definition set_connected_frontier_checkpoint ::
  "working_catalog \<Rightarrow> block_checkpoint \<Rightarrow> working_catalog" where
  "set_connected_frontier_checkpoint w c =
     w\<lparr>wk_frontier := map_option (\<lambda>f.
        f\<lparr>fr_scanned_through_slot := Some (cp_slot c), fr_checkpoint := Some c\<rparr>) (wk_frontier w)\<rparr>"

definition recompute_coverage :: "working_catalog \<Rightarrow> working_catalog engine_result" where
  "recompute_coverage w =
     and_then (current_target_in_working w) (\<lambda>target.
     let reaches_target = list_ex (\<lambda>g. sg_reaches_target_lib g \<and> sg_frontier g = target)
           (bt_values (wk_segments w))
     in and_then (ok_or (wk_frontier w) (InvalidState (InPage FrontierMissing))) (\<lambda>f.
        let f = f\<lparr>fr_observed_lib := Some target\<rparr>
        in Ok (w\<lparr>wk_frontier := Some (f\<lparr>fr_coverage_status :=
                coverage_rule reaches_target (wk_gaps w = []) f\<rparr>)\<rparr>)))"

definition update_frontier ::
  "working_catalog \<Rightarrow> engine_error \<Rightarrow> (frontier \<Rightarrow> frontier) \<Rightarrow> working_catalog engine_result" where
  "update_frontier w e g =
     and_then (ok_or (wk_frontier w) e) (\<lambda>f. Ok (w\<lparr>wk_frontier := Some (g f)\<rparr>))"

definition update_segment ::
  "working_catalog \<Rightarrow> string \<Rightarrow> engine_error \<Rightarrow> (coverage_segment \<Rightarrow> coverage_segment)
   \<Rightarrow> working_catalog engine_result" where
  "update_segment w i e g =
     and_then (ok_or (bt_get (wk_segments w) i) e) (\<lambda>s.
     Ok (w\<lparr>wk_segments := bt_insert i (g s) (wk_segments w)\<rparr>))"

definition set_ingestion_cursor :: "working_catalog \<Rightarrow> block_reference \<Rightarrow> working_catalog engine_result" where
  "set_ingestion_cursor w c =
     and_then (ok_or (wk_traversal w) (InvalidState (InPage CatchUpTraversalMissing))) (\<lambda>t.
     Ok (w\<lparr>wk_traversal := Some (t\<lparr>tr_ingestion_cursor := Some c\<rparr>)\<rparr>))"

definition finish_batch ::
  "working_catalog \<Rightarrow> catalog_snapshot \<Rightarrow> engine_context \<Rightarrow> engine_error \<Rightarrow> catalog_batch engine_result" where
  "finish_batch w s ctx e =
     and_then (recompute_coverage w) (\<lambda>w.
     and_then (into_batch w s ctx) (\<lambda>b. ok_or b e))"

section \<open>Page reduction\<close>

definition open_initial_segment ::
  "working_catalog \<Rightarrow> block_checkpoint \<Rightarrow> (working_catalog \<times> string) engine_result" where
  "open_initial_segment w first =
     (let i = segment_id_for_floor first in
      if bt_get (wk_segments w) i \<noteq> None then Err (InvalidState (InPage (InitialSegmentExists i)))
      else
        let w = w\<lparr>wk_segments := bt_insert i \<lparr>sg_segment_id = i, sg_floor = first,
              sg_frontier = block_reference_of first, sg_reaches_target_lib = False\<rparr> (wk_segments w)\<rparr>
        in and_then (update_frontier w (InvalidState (InPage CatchUpFrontierMissing))
             (\<lambda>f. f\<lparr>fr_coverage_floor := Some 0, fr_prefix_status := PrefixComplete\<rparr>))
             (\<lambda>w. Ok (w, i)))"

definition apply_connected_events ::
  "'n externals \<Rightarrow> catalog_snapshot \<Rightarrow> 'n l1_event list \<Rightarrow> engine_context \<Rightarrow> catalog_batch engine_result" where
  "apply_connected_events ext s events ctx =
     (if events = [] then Err (InvalidState (InPage ConnectedNoEvents))
      else
        let first = event_checkpoint (hd events); newest = event_checkpoint (last events) in
        and_then (current_target s) (\<lambda>target.
        let w = from_snapshot s in
        and_then (case ingestion_cursor (wk_traversal w) of
            Some cursor \<Rightarrow> and_then (active_segment_id_in_working w cursor) (\<lambda>i. Ok (w, i))
          | None \<Rightarrow> open_initial_segment w first) (\<lambda>(w, segment_id).
        and_then (ingest_blocks ext w (map le_block events) segment_id ctx) (\<lambda>w.
        and_then (update_segment w segment_id
            (InvalidState (InPage (ActiveSegmentMissing segment_id)))
            (\<lambda>g. g\<lparr>sg_frontier := block_reference_of newest,
                   sg_reaches_target_lib := (block_reference_of newest = target)\<rparr>)) (\<lambda>w.
        and_then (set_ingestion_cursor w (block_reference_of newest)) (\<lambda>w.
        finish_batch (if wk_gaps w = [] then set_connected_frontier_checkpoint w newest else w)
          s ctx (InvalidState (InPage PageNoChange))))))))"

definition reduce_catalog_page ::
  "'n externals \<Rightarrow> catalog_snapshot \<Rightarrow> 'n l1_event list \<Rightarrow> engine_context
   \<Rightarrow> 'n page_reduction engine_result" where
  "reduce_catalog_page ext s events ctx =
     and_then (validate_context s ctx) (\<lambda>_.
     if events = [] then Ok NoProgress
     else
       and_then (validate_page_snapshots events) (\<lambda>_.
       and_then (current_target s) (\<lambda>target.
       let first = event_checkpoint (hd events) in
       and_then (for_each (\<lambda>e. validate_event_against_target e target) events) (\<lambda>_.
       and_then (validate_strictly_ascending_slots events) (\<lambda>_.
       let commit =
         and_then (split_connected_events events) (\<lambda>(accepted, remaining).
         and_then (apply_connected_events ext s accepted ctx) (\<lambda>batch.
         Ok (Commit batch remaining)))
       in case ingestion_cursor (cs_traversal s) of
         Some cursor \<Rightarrow>
           and_then (active_segment_id s cursor) (\<lambda>_.
           if cp_slot first \<le> br_slot cursor
           then Err (SourceInconsistent (InPage (PageNotAfterCursor (cp_slot first) (br_slot cursor))))
           else if cp_parent_id first \<noteq> br_block_id cursor
           then Ok (RepairRequired (make_repair_request (Some cursor) first s ctx) events)
           else commit)
       | None \<Rightarrow>
           if cs_segments s \<noteq> [] \<or> cs_gaps s \<noteq> []
           then Err (InvalidState (InPage CoverageWithoutCursor))
           else if cp_slot first \<noteq> 0
           then Ok (RepairRequired (make_repair_request None first s ctx) events)
           else and_then (validate_genesis_block s first) (\<lambda>_. commit))))))"

section \<open>Ancestry repair\<close>

text \<open>
  The loop of \<open>repair_catalog_ancestry\<close>. \<open>source\<close> is what the L1 source answers to a request for one
  block; each identifier is requested at most once, because a repeated one is a cycle.
\<close>

function repair_loop ::
  "(string \<Rightarrow> ('n l1_block option, source_error) result) \<Rightarrow> repair_request \<Rightarrow> string \<Rightarrow> u64
   \<Rightarrow> 'n l1_block list \<Rightarrow> string list \<Rightarrow> 'n repair_outcome engine_result" where
  "repair_loop source r requested child_slot recovered visited =
     (if is_some_and (rq_lower_checkpoint r) (\<lambda>lower. br_block_id lower = requested)
      then Ok (Connected (rev recovered))
      else if length recovered \<ge> rq_max_blocks r
      then Ok (Unresolved (rev recovered) requested MissingParent)
      else if requested \<in> set visited
      then Err (SourceInconsistent (InRepair (RepairCycle requested)))
      else case source requested of
        Ok None \<Rightarrow> Ok (Unresolved (rev recovered) requested MissingBlockBody)
      | Err (Unavailable _) \<Rightarrow> Ok (Unresolved (rev recovered) requested SourceUnavailable)
      | Err (InvalidRequest d) \<Rightarrow>
          Err (SourceInconsistent (InRepair (RepairSourceError (InvalidRequest d))))
      | Err (InvalidResponse d) \<Rightarrow>
          Err (SourceInconsistent (InRepair (RepairSourceError (InvalidResponse d))))
      | Ok (Some block) \<Rightarrow>
          let c = lb_checkpoint block in
          and_then (map_err (\<lambda>e. SourceInconsistent (RepairInvalidCheckpoint e))
              (engine_validate_checkpoint c LRepairBlock)) (\<lambda>_.
          if cp_block_id c \<noteq> requested
          then Err (SourceInconsistent (InRepair (RepairWrongBlock (cp_block_id c) requested)))
          else if cp_slot c \<ge> child_slot
          then Err (SourceInconsistent
            (InRepair (RepairNotPreceding (cp_block_id c) (cp_slot c) child_slot)))
          else case rq_lower_checkpoint r of
            Some lower \<Rightarrow>
              if cp_slot c \<le> br_slot lower
              then Err (SourceInconsistent
                (InRepair (RepairCrossedLower (br_slot lower) (br_block_id lower))))
              else repair_loop source r (cp_parent_id c) (cp_slot c) (recovered @ [block])
                     (requested # visited)
          | None \<Rightarrow>
              if cp_slot c = 0 \<and> is_some_and (rq_expected_genesis_id r) (\<lambda>g. g \<noteq> cp_block_id c)
              then Err (SourceInconsistent (InRepair RepairGenesisConflict))
              else if cp_slot c = 0 then Ok (Connected (rev (recovered @ [block])))
              else repair_loop source r (cp_parent_id c) (cp_slot c) (recovered @ [block])
                     (requested # visited)))"
  by pat_completeness auto
termination
  by (relation "measure (\<lambda>(source, r, requested, child, recovered, visited).
       rq_max_blocks r - length recovered)") auto

declare repair_loop.simps [simp del]

definition repair_catalog_ancestry ::
  "(string \<Rightarrow> ('n l1_block option, source_error) result) \<Rightarrow> repair_request
   \<Rightarrow> 'n repair_outcome engine_result" where
  "repair_catalog_ancestry source r =
     and_then (validate_repair_request r) (\<lambda>_.
     repair_loop source r (cp_parent_id (rq_upper_checkpoint r)) (cp_slot (rq_upper_checkpoint r)) [] [])"

definition reduce_catalog_repair ::
  "'n externals \<Rightarrow> catalog_snapshot \<Rightarrow> repair_request \<Rightarrow> 'n l1_event list \<Rightarrow> 'n repair_outcome
   \<Rightarrow> engine_context \<Rightarrow> 'n page_reduction engine_result" where
  "reduce_catalog_repair ext s r pending outcome ctx =
     and_then (validate_context s ctx) (\<lambda>_.
     if pending = [] then Err (InvalidState (InRepair RepairNoPending))
     else if event_checkpoint (hd pending) \<noteq> rq_upper_checkpoint r
     then Err (InvalidState (InRepair RepairUpperChanged))
     else case outcome of
       Connected recovered \<Rightarrow>
         and_then (validate_connected_repair r recovered) (\<lambda>_.
         reduce_catalog_page ext s
           (prepend_recovered_events recovered pending (le_snapshot (hd pending))) ctx)
     | Unresolved recovered missing reason \<Rightarrow>
         and_then (validate_unresolved_repair r recovered missing (event_checkpoint (hd pending))) (\<lambda>_.
         Ok (GapConfirmationRequired r pending (Unresolved recovered missing reason))))"

section \<open>Gaps\<close>

text \<open>
  The record changes of \<open>open_disconnected_segment\<close>: with an ingestion cursor a gap joins the
  cursor's segment to the new one, without one the prefix below the new segment is unavailable.
\<close>

definition open_gap_or_prefix ::
  "'n externals \<Rightarrow> catalog_snapshot \<Rightarrow> working_catalog \<Rightarrow> block_checkpoint \<Rightarrow> block_checkpoint \<Rightarrow> string
   \<Rightarrow> string \<Rightarrow> gap_reason \<Rightarrow> engine_context \<Rightarrow> working_catalog engine_result" where
  "open_gap_or_prefix ext s w first newest segment_id missing reason ctx =
     (case ingestion_cursor (cs_traversal s) of
        Some lower \<Rightarrow>
          and_then (active_segment_id_in_working w lower) (\<lambda>lower_segment_id.
          let gap_id = gap_id_for_boundary ext lower first
          in Ok (w\<lparr>wk_gaps := bt_insert gap_id
               \<lparr>gp_gap_id = gap_id, gp_lower_segment_id = lower_segment_id,
                gp_lower_checkpoint = lower, gp_upper_segment_id = segment_id,
                gp_upper_block = block_reference_of first, gp_required_parent_id = missing,
                gp_reason = reason, gp_status = GapPending, gp_attempts = 1,
                gp_first_seen_at_unix = cx_updated_at_unix ctx,
                gp_last_attempt_at_unix = Some (cx_updated_at_unix ctx)\<rparr> (wk_gaps w)\<rparr>))
      | None \<Rightarrow>
          if cs_segments s \<noteq> [] \<or> cs_gaps s \<noteq> [] then Err (InvalidState (InGap PrefixOverCoverage))
          else and_then (update_frontier w (InvalidState (InPage CatchUpFrontierMissing))
                 (\<lambda>f. f\<lparr>fr_coverage_floor := Some (cp_slot first), fr_prefix_status := PrefixUnavailable\<rparr>))
               (\<lambda>w. Ok (set_connected_frontier_checkpoint w newest)))"

definition open_disconnected_segment ::
  "'n externals \<Rightarrow> catalog_snapshot \<Rightarrow> 'n l1_event list \<Rightarrow> string \<Rightarrow> gap_reason \<Rightarrow> engine_context
   \<Rightarrow> 'n page_reduction engine_result" where
  "open_disconnected_segment ext s events missing reason ctx =
     and_then (validate_id missing LMissingRepairBlockId) (\<lambda>_.
     and_then (validate_page_snapshots events) (\<lambda>_.
     and_then (current_target s) (\<lambda>target.
     and_then (for_each (\<lambda>e. validate_event_against_target e target) events) (\<lambda>_.
     and_then (validate_strictly_ascending_slots events) (\<lambda>_.
     and_then (split_connected_events events) (\<lambda>(accepted, remaining).
     if accepted = [] then Err (InvalidState (InGap DisconnectedNoFloor))
     else
       let first = event_checkpoint (hd accepted); newest = event_checkpoint (last accepted) in
       if cp_parent_id first \<noteq> missing then Err (InvalidState (InGap DisconnectedParentMismatch))
       else
         let w = from_snapshot s; segment_id = segment_id_for_floor first in
         if bt_get (wk_segments w) segment_id \<noteq> None
         then Err (InvalidState (InGap (DisconnectedSegmentExists segment_id)))
         else
           let w = w\<lparr>wk_segments := bt_insert segment_id
                 \<lparr>sg_segment_id = segment_id, sg_floor = first, sg_frontier = block_reference_of newest,
                  sg_reaches_target_lib = (block_reference_of newest = target)\<rparr> (wk_segments w)\<rparr>
           in and_then (open_gap_or_prefix ext s w first newest segment_id missing reason ctx) (\<lambda>w.
              and_then (ingest_blocks ext w (map le_block accepted) segment_id ctx) (\<lambda>w.
              and_then (set_ingestion_cursor w (block_reference_of newest)) (\<lambda>w.
              and_then (finish_batch w s ctx (InvalidState (InGap DisconnectedNoChange))) (\<lambda>batch.
              Ok (Commit batch remaining)))))))))))"

definition confirm_catalog_repair_gap ::
  "'n externals \<Rightarrow> catalog_snapshot \<Rightarrow> repair_request \<Rightarrow> 'n l1_event list \<Rightarrow> 'n repair_outcome
   \<Rightarrow> repair_confirmation \<Rightarrow> engine_context \<Rightarrow> 'n page_reduction engine_result" where
  "confirm_catalog_repair_gap ext s r pending outcome confirmation ctx =
     and_then (validate_context s ctx) (\<lambda>_.
     and_then (validate_repair_confirmation s (rq_lower_checkpoint r) confirmation False) (\<lambda>_.
     if pending = [] then Err (InvalidState (InGap GapNoPending))
     else if event_checkpoint (hd pending) \<noteq> rq_upper_checkpoint r
     then Err (InvalidState (InGap GapUpperChanged))
     else case outcome of
       Connected _ \<Rightarrow> Err (InvalidState (InGap GapNeedsUnresolved))
     | Unresolved recovered missing reason \<Rightarrow>
         and_then (validate_unresolved_repair r recovered missing (event_checkpoint (hd pending))) (\<lambda>_.
         open_disconnected_segment ext s
           (prepend_recovered_events recovered pending (le_snapshot (hd pending)))
           missing reason ctx)))"

definition catalog_gap_repair_request ::
  "catalog_snapshot \<Rightarrow> string \<Rightarrow> engine_context \<Rightarrow> repair_request engine_result" where
  "catalog_gap_repair_request s gap_id ctx =
     and_then (validate_context s ctx) (\<lambda>_.
     and_then (ok_or (find (\<lambda>g. gp_gap_id g = gap_id) (cs_gaps s))
         (InvalidState (InGap (UnknownGap gap_id)))) (\<lambda>gap.
     and_then (ok_or (find (\<lambda>g. sg_segment_id g = gp_upper_segment_id gap) (cs_segments s))
         (InvalidState (InGap (GapNoUpperSegment (gp_gap_id gap) (gp_upper_segment_id gap))))) (\<lambda>upper.
     Ok \<lparr>rq_lower_checkpoint = Some (gp_lower_checkpoint gap), rq_upper_checkpoint = sg_floor upper,
         rq_expected_genesis_id = None, rq_max_blocks = cx_repair_block_limit ctx\<rparr>)))"

definition catalog_prefix_repair_request ::
  "catalog_snapshot \<Rightarrow> engine_context \<Rightarrow> repair_request engine_result" where
  "catalog_prefix_repair_request s ctx =
     and_then (validate_context s ctx) (\<lambda>_.
     and_then (ok_or (cs_frontier s) (InvalidState (InPage FrontierMissing))) (\<lambda>f.
     if fr_prefix_status f \<noteq> PrefixUnavailable then Err (InvalidState (InGap PrefixNotUnavailable))
     else
       and_then (ok_or (fr_coverage_floor f) (InvalidState (InGap PrefixNoFloor))) (\<lambda>floor.
       and_then (ok_or (find (\<lambda>g. cp_slot (sg_floor g) = floor) (cs_segments s))
           (InvalidState (InGap PrefixNoSegment))) (\<lambda>segment.
       Ok \<lparr>rq_lower_checkpoint = None, rq_upper_checkpoint = sg_floor segment,
           rq_expected_genesis_id = expected_genesis s,
           rq_max_blocks = cx_repair_block_limit ctx\<rparr>))))"

text \<open>The recovered blocks join the first segment, whose floor becomes the oldest of them.\<close>

definition extend_prefix ::
  "'n externals \<Rightarrow> working_catalog \<Rightarrow> 'n l1_block list \<Rightarrow> string \<Rightarrow> engine_error \<Rightarrow> engine_context
   \<Rightarrow> (block_checkpoint \<Rightarrow> frontier \<Rightarrow> frontier) \<Rightarrow> working_catalog engine_result" where
  "extend_prefix ext w recovered segment_id no_blocks ctx update =
     (if recovered = [] then Err no_blocks
      else
        let oldest = lb_checkpoint (hd recovered) in
        and_then (ingest_blocks ext w recovered segment_id ctx) (\<lambda>w.
        and_then (update_segment w segment_id (InvalidState (InGap PrefixSegmentMissing))
            (\<lambda>g. g\<lparr>sg_floor := oldest\<rparr>)) (\<lambda>w.
        update_frontier w (InvalidState (InPage FrontierMissing)) (update oldest))))"

definition reduce_catalog_prefix_repair ::
  "'n externals \<Rightarrow> catalog_snapshot \<Rightarrow> 'n repair_outcome \<Rightarrow> repair_confirmation \<Rightarrow> engine_context
   \<Rightarrow> catalog_batch option engine_result" where
  "reduce_catalog_prefix_repair ext s outcome confirmation ctx =
     and_then (validate_context s ctx) (\<lambda>_.
     and_then (validate_repair_confirmation s None confirmation True) (\<lambda>_.
     and_then (catalog_prefix_repair_request s ctx) (\<lambda>r.
     and_then (case outcome of
         Connected recovered \<Rightarrow> validate_connected_repair r recovered
       | Unresolved recovered missing _ \<Rightarrow>
           validate_unresolved_repair r recovered missing (rq_upper_checkpoint r)) (\<lambda>_.
     if (case outcome of Unresolved [] _ _ \<Rightarrow> True | _ \<Rightarrow> False) then Ok None
     else
       let w = from_snapshot s in
       and_then (ok_or (map_option sg_segment_id
             (find (\<lambda>g. sg_floor g = rq_upper_checkpoint r) (bt_values (wk_segments w))))
           (InvalidState (InGap PrefixSegmentDisappeared))) (\<lambda>segment_id.
       and_then (case outcome of
           Connected recovered \<Rightarrow>
             extend_prefix ext w recovered segment_id (InvalidState (InGap PrefixNoGenesis)) ctx
               (\<lambda>_ f. f\<lparr>fr_coverage_floor := Some 0, fr_prefix_status := PrefixComplete\<rparr>)
         | Unresolved recovered _ _ \<Rightarrow>
             extend_prefix ext w recovered segment_id (InvalidState (InGap PrefixLostBlocks)) ctx
               (\<lambda>oldest f. f\<lparr>fr_coverage_floor := Some (cp_slot oldest)\<rparr>)) (\<lambda>w.
       and_then (recompute_coverage w) (\<lambda>w. into_batch w s ctx)))))))"

definition redirect_gap :: "string \<Rightarrow> string \<Rightarrow> coverage_gap \<Rightarrow> coverage_gap" where
  "redirect_gap upper_id lower_id g =
     (let g = (if gp_lower_segment_id g = upper_id then g\<lparr>gp_lower_segment_id := lower_id\<rparr> else g)
      in if gp_upper_segment_id g = upper_id then g\<lparr>gp_upper_segment_id := lower_id\<rparr> else g)"

definition merge_gap ::
  "'n externals \<Rightarrow> working_catalog \<Rightarrow> coverage_gap \<Rightarrow> coverage_segment \<Rightarrow> coverage_segment
   \<Rightarrow> 'n l1_block list \<Rightarrow> block_checkpoint \<Rightarrow> engine_context \<Rightarrow> working_catalog engine_result" where
  "merge_gap ext w gap lower upper recovered confirmed ctx =
     (let lower_id = sg_segment_id lower; upper_id = sg_segment_id upper in
      and_then (reassign_segment w upper_id lower_id ctx) (\<lambda>w.
      and_then (ingest_blocks ext w recovered lower_id ctx) (\<lambda>w.
      let w = w\<lparr>wk_segments := bt_remove upper_id (bt_insert lower_id
                \<lparr>sg_segment_id = lower_id, sg_floor = sg_floor lower, sg_frontier = sg_frontier upper,
                 sg_reaches_target_lib = sg_reaches_target_lib upper\<rparr> (wk_segments w)),
             wk_gaps := bt_map_values (redirect_gap upper_id lower_id)
                (bt_remove (gp_gap_id gap) (wk_gaps w))\<rparr>
      in Ok (if is_some_and (Option.bind (wk_frontier w) fr_checkpoint)
                  (\<lambda>c. cp_block_id c = br_block_id (gp_lower_checkpoint gap))
             then set_connected_frontier_checkpoint w confirmed else w))))"

definition expand_gap ::
  "'n externals \<Rightarrow> working_catalog \<Rightarrow> coverage_gap \<Rightarrow> coverage_segment \<Rightarrow> 'n l1_block list \<Rightarrow> string
   \<Rightarrow> gap_reason \<Rightarrow> engine_context \<Rightarrow> working_catalog engine_result" where
  "expand_gap ext w gap upper recovered missing reason ctx =
     and_then (ok_or (checked_add (gp_attempts gap) 1) (EngineOverflow (InGap GapAttemptsExhausted))) (\<lambda>attempts.
     let gap = gap\<lparr>gp_attempts := attempts, gp_last_attempt_at_unix := Some (cx_updated_at_unix ctx),
                   gp_status := GapBackoff, gp_reason := reason\<rparr>
     in if recovered = [] then Ok (w\<lparr>wk_gaps := bt_insert (gp_gap_id gap) gap (wk_gaps w)\<rparr>)
        else
          let oldest = lb_checkpoint (hd recovered);
              expanded = upper\<lparr>sg_floor := oldest\<rparr>;
              gap = gap\<lparr>gp_upper_block := block_reference_of oldest, gp_required_parent_id := missing\<rparr>
          in and_then (ingest_blocks ext w recovered (sg_segment_id expanded) ctx) (\<lambda>w.
             Ok (w\<lparr>wk_segments := bt_insert (sg_segment_id expanded) expanded (wk_segments w),
                   wk_gaps := bt_insert (gp_gap_id gap) gap (wk_gaps w)\<rparr>)))"

definition reduce_catalog_gap_repair ::
  "'n externals \<Rightarrow> catalog_snapshot \<Rightarrow> string \<Rightarrow> 'n repair_outcome \<Rightarrow> repair_confirmation
   \<Rightarrow> engine_context \<Rightarrow> catalog_batch engine_result" where
  "reduce_catalog_gap_repair ext s gap_id outcome confirmation ctx =
     and_then (validate_context s ctx) (\<lambda>_.
     let w = from_snapshot s in
     and_then (ok_or (bt_get (wk_gaps w) gap_id) (InvalidState (InGap (UnknownGap gap_id)))) (\<lambda>gap.
     and_then (ok_or (bt_get (wk_segments w) (gp_lower_segment_id gap))
         (InvalidState (InGap GapLowerSegmentMissing))) (\<lambda>lower.
     and_then (ok_or (bt_get (wk_segments w) (gp_upper_segment_id gap))
         (InvalidState (InGap GapUpperSegmentMissing))) (\<lambda>upper.
     let r = \<lparr>rq_lower_checkpoint = Some (gp_lower_checkpoint gap), rq_upper_checkpoint = sg_floor upper,
              rq_expected_genesis_id = None, rq_max_blocks = cx_repair_block_limit ctx\<rparr>
     in and_then (validate_repair_confirmation s (rq_lower_checkpoint r) confirmation False) (\<lambda>_.
     and_then (case outcome of
         Connected recovered \<Rightarrow>
           and_then (validate_connected_repair r recovered) (\<lambda>_.
           and_then (ok_or (rc_upper_frontier_checkpoint confirmation)
               (InvalidState (InGap GapNeedsUpperFrontier))) (\<lambda>confirmed.
           and_then (engine_validate_checkpoint confirmed LVerifiedUpperFrontier) (\<lambda>_.
           if cp_slot confirmed \<noteq> br_slot (sg_frontier upper)
              \<or> cp_block_id confirmed \<noteq> br_block_id (sg_frontier upper)
           then Err (SourceInconsistent (InGap GapUpperFrontierMismatch))
           else merge_gap ext w gap lower upper recovered confirmed ctx)))
       | Unresolved recovered missing reason \<Rightarrow>
           and_then (validate_unresolved_repair r recovered missing (sg_floor upper)) (\<lambda>_.
           expand_gap ext w gap upper recovered missing reason ctx)) (\<lambda>w.
     finish_batch w s ctx (InvalidState (InGap GapNoChange))))))))"

section \<open>Evidence payloads\<close>

datatype payload_format = PayloadJson | PayloadBytes

record evidence_payload =
  ep_opcode :: u8
  ep_bytes :: bytes
  ep_format :: payload_format

definition engine_canonical_hex :: "string \<Rightarrow> label \<Rightarrow> string engine_result" where
  "engine_canonical_hex v l =
     (let t = strip_hex_prefix (trim v)
      in if length t \<noteq> 64 \<or> \<not> list_all is_ascii_hexdigit t
         then Err (InvalidBlock (InIngest (NotHexBlockText l))) else Ok (to_ascii_lowercase t))"

definition match_transaction ::
  "string \<Rightarrow> 'n json option \<Rightarrow> 'n json \<Rightarrow> 'n json option engine_result" where
  "match_transaction transaction_hash found transaction =
     (case json_get ''mantle_tx'' transaction of
        None \<Rightarrow> Ok found
      | Some mantle_tx \<Rightarrow> (case Option.bind (json_get ''hash'' mantle_tx) as_str of
            None \<Rightarrow> Ok found
          | Some candidate \<Rightarrow>
              and_then (engine_canonical_hex candidate LTransactionHash) (\<lambda>h.
              if h \<noteq> transaction_hash then Ok found
              else case found of
                 Some _ \<Rightarrow> Err (SourceInconsistent (InIngest RefetchDuplicateHash))
               | None \<Rightarrow> Ok (Some mantle_tx))))"

definition expected_payload ::
  "'n externals \<Rightarrow> evidence_reference \<Rightarrow> 'n decoded_operation
   \<Rightarrow> (bool \<times> evidence_use \<times> payload_format \<times> bytes) engine_result" where
  "expected_payload ext r op = (case do_kind op of
     DConfiguration _ _ \<Rightarrow>
       and_then (ok_or (x_json_to_vec ext (do_payload op))
           (InvalidBlock (InIngest EncodeConfigurationFailed))) (\<lambda>bs.
       Ok (ev_evidence_kind r = ChannelConfiguration, PointSnapshot, PayloadJson, bs))
   | DInscription parent _ bs classification \<Rightarrow>
       Ok (ev_evidence_kind r = inscription_evidence_kind classification
           \<or> ev_evidence_kind r = ChannelCreated \<and> list_all (\<lambda>c. c = CHR ''0'') parent,
           Presence, PayloadBytes, bs)
   | _ \<Rightarrow>
       and_then (ok_or (x_json_to_vec ext (do_payload op))
           (InvalidBlock (InIngest EncodeOperationFailed))) (\<lambda>bs.
       Ok (ev_evidence_kind r = ChannelOperation, ReplayContribution, PayloadJson, bs)))"

definition extract_catalog_evidence_payload ::
  "'n externals \<Rightarrow> 'n l1_block \<Rightarrow> evidence_reference \<Rightarrow> evidence_payload engine_result" where
  "extract_catalog_evidence_payload ext block r =
     (if cp_slot (lb_checkpoint block) \<noteq> ev_l1_slot r \<or> cp_block_id (lb_checkpoint block) \<noteq> ev_block_id r
      then Err (SourceInconsistent (InIngest RefetchMismatch))
      else
        and_then (ok_or (ev_transaction_hash r) (InvalidState (InIngest RefetchNoHash))) (\<lambda>hash.
        and_then (ok_or (Option.bind (json_get ''transactions'' (lb_payload block)) as_array)
            (InvalidBlock (InIngest RefetchTransactionsNotArray))) (\<lambda>transactions.
        and_then (fold_result (match_transaction hash) None transactions) (\<lambda>found.
        and_then (ok_or found (SourceInconsistent (InIngest RefetchTransactionMissing))) (\<lambda>mantle_tx.
        and_then (ok_or (Option.bind (json_get ''ops'' mantle_tx) as_array)
            (SourceInconsistent (InIngest RefetchOperationsMissing))) (\<lambda>operations.
        and_then (if unat (ev_operation_index r) < length operations
            then Ok (operations ! unat (ev_operation_index r))
            else Err (SourceInconsistent (InIngest RefetchOperationMissing))) (\<lambda>operation.
        and_then (map_err map_channel_decode_error
            (decode_channel_operation ext (Some hash) (ev_operation_index r) operation)) (\<lambda>d.
        and_then (ok_or d (SourceInconsistent (InIngest RefetchNotChannel))) (\<lambda>decoded.
        if do_channel_id decoded \<noteq> ev_channel_id r
        then Err (SourceInconsistent (InIngest RefetchOtherChannel))
        else and_then (expected_payload ext r decoded) (\<lambda>(matches_kind, expected_use, format, bs).
          if \<not> matches_kind \<or> ev_evidence_use r \<noteq> expected_use
          then Err (SourceInconsistent (InIngest RefetchKindMismatch))
          else Ok \<lparr>ep_opcode = do_opcode decoded, ep_bytes = bs, ep_format = format\<rparr>))))))))))"

end
