(* ===== verification/L1_Source.thy ===== *)
theory L1_Source
  imports Catalog_Engine
begin

text \<open>
  The L1 source of the catalog, from \<^verbatim>\<open>src/src/inspection/catalog/source.rs\<close>: the range request, the
  parsing of blocks, events, chain and time status, the incremental NDJSON parser of a finalized range, the array form
  of the same range, and the two sources built from them (direct HTTP and module call).

  What the network or a module answers is an argument: an HTTP response is its declared length and the list of its
  chunks, a failed read included. The JSON decoder of a line, the JSON encoder and \<open>Number::as_i64\<close> belong to
  \<open>serde_json\<close> and are the fields of the record \<open>l1_codec\<close>. Error details are the texts of the source, with the
  text of a foreign error as part of the argument that carries it. A \<open>usize\<close> is a natural number with the
  64-bit bound written out.
\<close>

section \<open>Types and limits\<close>

record l1_chain_status =
  ct_snapshot :: l1_chain_snapshot
  ct_genesis_id :: "string option"

record l1_time_status =
  ts_genesis_time_unix_ms :: int
  ts_slot_duration_ms :: u64
  ts_current_slot :: u64
  ts_current_epoch :: u32

record l1_range_request =
  lr_slot_from :: u64
  lr_target_lib :: block_reference
  lr_blocks_limit :: nat

record l1_source_limits =
  sl_metadata_response_bytes :: nat
  sl_block_response_bytes :: nat
  sl_range_response_bytes :: nat
  sl_ndjson_line_bytes :: nat
  sl_error_response_bytes :: nat

definition MAX_CATALOG_L1_RANGE_BLOCKS :: nat where
  "MAX_CATALOG_L1_RANGE_BLOCKS = 100"

definition default_limits :: l1_source_limits where
  "default_limits = \<lparr>sl_metadata_response_bytes = 64 * 1024, sl_block_response_bytes = 8 * 1024 * 1024,
     sl_range_response_bytes = 64 * 1024 * 1024, sl_ndjson_line_bytes = 3 * 1024 * 1024,
     sl_error_response_bytes = 16 * 1024\<rparr>"

definition evidence_limits :: l1_source_limits where
  "evidence_limits = default_limits\<lparr>sl_block_response_bytes := 16 * 1024 * 1024\<rparr>"

record 'n wire_event =
  we_block :: "'n json"
  we_tip :: "'n json"
  we_tip_slot :: "'n json"
  we_lib :: "'n json"
  we_lib_slot :: "'n json"

record 'n l1_codec =
  lx_event :: "bytes \<Rightarrow> ('n wire_event, string) result"
  lx_to_vec :: "'n json \<Rightarrow> (bytes, string) result"
  lx_as_i64 :: "'n \<Rightarrow> int option"

type_synonym 'a source_result = "('a, source_error) result"

definition u64_text :: "u64 \<Rightarrow> string" where
  "u64_text n = nat_text (unat n)"

definition usize_increment :: "nat \<Rightarrow> nat" where
  "usize_increment n = min (n + 1) (2 ^ 64 - 1)"

section \<open>Identifiers and numbers\<close>

definition l1_canonical_hex_id :: "string \<Rightarrow> string \<Rightarrow> string source_result" where
  "l1_canonical_hex_id v label =
     (let t = to_ascii_lowercase (trim v)
      in if length t \<noteq> 64 \<or> \<not> list_all is_ascii_hexdigit t
         then Err (InvalidRequest (label @ '' must be 32-byte hexadecimal text'')) else Ok t)"

definition canonical_block_reference :: "block_reference \<Rightarrow> string \<Rightarrow> block_reference source_result" where
  "canonical_block_reference r label =
     and_then (l1_canonical_hex_id (br_block_id r) (label @ '' id'')) (\<lambda>i.
     Ok \<lparr>br_slot = br_slot r, br_block_id = i\<rparr>)"

definition range_request_new :: "u64 \<Rightarrow> block_reference \<Rightarrow> nat \<Rightarrow> l1_range_request source_result" where
  "range_request_new slot_from target_lib blocks_limit =
     and_then (canonical_block_reference target_lib ''target LIB'') (\<lambda>target.
     if slot_from > br_slot target then Err (InvalidRequest ''range start is beyond target LIB slot'')
     else if blocks_limit = 0 then Err (InvalidRequest ''range block limit must be greater than zero'')
     else if blocks_limit > MAX_CATALOG_L1_RANGE_BLOCKS
     then Err (InvalidRequest (''range block limit exceeds '' @ nat_text MAX_CATALOG_L1_RANGE_BLOCKS))
     else Ok \<lparr>lr_slot_from = slot_from, lr_target_lib = target, lr_blocks_limit = blocks_limit\<rparr>)"

definition required_hex_id :: "'n json \<Rightarrow> string \<Rightarrow> string source_result" where
  "required_hex_id v label =
     and_then (ok_or (as_str v) (InvalidResponse (label @ '' is not text''))) (\<lambda>text.
     map_err (\<lambda>e. case e of InvalidRequest detail \<Rightarrow> InvalidResponse detail | other \<Rightarrow> other)
       (l1_canonical_hex_id text label))"

definition required_u64 :: "'n externals \<Rightarrow> 'n json \<Rightarrow> string \<Rightarrow> u64 source_result" where
  "required_u64 ext v label =
     ok_or (case as_u64 ext v of Some n \<Rightarrow> Some n
            | None \<Rightarrow> Option.bind (as_str v) (\<lambda>text. u64_from_str_radix 10 (trim text)))
       (InvalidResponse (label @ '' is not an unsigned integer''))"

text \<open>\<open>str::parse\<close> for \<open>i64\<close>: an optional sign, at least one digit, and a value that fits.\<close>

definition i64_from_str :: "string \<Rightarrow> int option" where
  "i64_from_str s =
     (let (negative, ds) = (case s of CHR ''-'' # cs \<Rightarrow> (True, cs) | CHR ''+'' # cs \<Rightarrow> (False, cs) | _ \<Rightarrow> (False, s))
      in if ds = [] then None
         else Option.bind (digits_value 10 0 ds) (\<lambda>n.
           let v = (if negative then - int n else int n)
           in if - (2 ^ 63) \<le> v \<and> v < 2 ^ 63 then Some v else None))"

definition object_field :: "'n json \<Rightarrow> string list \<Rightarrow> string \<Rightarrow> 'n json source_result" where
  "object_field v keys label =
     ok_or (case List.map_filter (\<lambda>f. json_get f v) keys of found # _ \<Rightarrow> Some found | [] \<Rightarrow> None)
       (InvalidResponse (label @ '' is missing''))"

definition required_object_u64 :: "'n externals \<Rightarrow> 'n json \<Rightarrow> string list \<Rightarrow> string \<Rightarrow> u64 source_result" where
  "required_object_u64 ext v keys label =
     and_then (object_field v keys label) (\<lambda>field. required_u64 ext field label)"

definition required_object_i64 :: "'n l1_codec \<Rightarrow> 'n json \<Rightarrow> string list \<Rightarrow> string \<Rightarrow> int source_result" where
  "required_object_i64 codec v keys label =
     and_then (object_field v keys label) (\<lambda>field.
     ok_or (case (case field of JNumber n \<Rightarrow> lx_as_i64 codec n | _ \<Rightarrow> None) of Some n \<Rightarrow> Some n
            | None \<Rightarrow> Option.bind (as_str field) (\<lambda>text. i64_from_str (trim text)))
       (InvalidResponse (label @ '' is not an integer'')))"

definition required_object_hex_id :: "'n json \<Rightarrow> string list \<Rightarrow> string \<Rightarrow> string source_result" where
  "required_object_hex_id v keys label =
     and_then (object_field v keys label) (\<lambda>field. required_hex_id field label)"

section \<open>Blocks, events and status\<close>

definition is_object :: "'n json \<Rightarrow> bool" where
  "is_object v = (case v of JObject _ \<Rightarrow> True | _ \<Rightarrow> False)"

definition header_field ::
  "'n json \<Rightarrow> string \<Rightarrow> ('n json \<Rightarrow> string \<Rightarrow> 'a source_result) \<Rightarrow> 'a source_result" where
  "header_field header field parse = (case json_get field header of
     None \<Rightarrow> Err (InvalidResponse (''block header '' @ field @ '' is missing''))
   | Some v \<Rightarrow> parse v (''block header '' @ field))"

definition parse_block :: "'n externals \<Rightarrow> 'n json \<Rightarrow> string \<Rightarrow> 'n l1_block source_result" where
  "parse_block ext v label =
     (if \<not> is_object v then Err (InvalidResponse (label @ '' block is not an object''))
      else case json_get ''header'' v of
        None \<Rightarrow> Err (InvalidResponse (label @ '' block header is missing''))
      | Some header \<Rightarrow>
        if \<not> is_object header then Err (InvalidResponse (label @ '' block header is missing''))
        else if Option.bind (json_get ''transactions'' v) as_array = None
        then Err (InvalidResponse (label @ '' block transactions body is missing''))
        else
          and_then (header_field header ''slot'' (required_u64 ext)) (\<lambda>slot.
          and_then (header_field header ''id'' required_hex_id) (\<lambda>block_id.
          and_then (header_field header ''parent_block'' required_hex_id) (\<lambda>parent_id.
          Ok \<lparr>lb_checkpoint = \<lparr>cp_slot = slot, cp_block_id = block_id, cp_parent_id = parent_id\<rparr>,
              lb_payload = v\<rparr>))))"

definition validate_chain_snapshot :: "l1_chain_snapshot \<Rightarrow> unit source_result" where
  "validate_chain_snapshot c =
     fail_if (br_slot (ls_lib c) > br_slot (ls_tip c))
       (InvalidResponse (''source LIB slot '' @ u64_text (br_slot (ls_lib c)) @ '' is beyond tip slot ''
         @ u64_text (br_slot (ls_tip c))))"

definition event_in_range :: "l1_range_request \<Rightarrow> block_checkpoint \<Rightarrow> l1_chain_snapshot \<Rightarrow> unit source_result" where
  "event_in_range request c snapshot =
     (let slot = cp_slot c; lib = ls_lib snapshot; target = lr_target_lib request
      in if slot < lr_slot_from request \<or> slot > br_slot target
         then Err (InvalidResponse (''finalized block slot '' @ u64_text slot @ '' is outside requested range ''
           @ u64_text (lr_slot_from request) @ ''..='' @ u64_text (br_slot target)))
         else if slot > br_slot lib
         then Err (InvalidResponse (''finalized block slot '' @ u64_text slot @ '' is beyond source LIB slot ''
           @ u64_text (br_slot lib)))
         else if br_slot lib < br_slot target
         then Err (InvalidResponse (''source LIB slot '' @ u64_text (br_slot lib) @ '' is behind target LIB slot ''
           @ u64_text (br_slot target)))
         else if br_slot lib = br_slot target \<and> br_block_id lib \<noteq> br_block_id target
         then Err (InvalidResponse ''source LIB id conflicts with fixed target LIB'')
         else if slot = br_slot target \<and> cp_block_id c \<noteq> br_block_id target
         then Err (InvalidResponse ''block at target LIB slot has conflicting id'')
         else Ok ())"

definition parse_wire_event ::
  "'n externals \<Rightarrow> 'n wire_event \<Rightarrow> l1_range_request \<Rightarrow> 'n l1_event source_result" where
  "parse_wire_event ext wire request =
     and_then (parse_block ext (we_block wire) ''finalized range event'') (\<lambda>block.
     and_then (required_u64 ext (we_tip_slot wire) ''event tip_slot'') (\<lambda>tip_slot.
     and_then (required_hex_id (we_tip wire) ''event tip'') (\<lambda>tip.
     and_then (required_u64 ext (we_lib_slot wire) ''event lib_slot'') (\<lambda>lib_slot.
     and_then (required_hex_id (we_lib wire) ''event lib'') (\<lambda>lib.
     let snapshot = \<lparr>ls_tip = \<lparr>br_slot = tip_slot, br_block_id = tip\<rparr>,
                     ls_lib = \<lparr>br_slot = lib_slot, br_block_id = lib\<rparr>\<rparr>
     in and_then (validate_chain_snapshot snapshot) (\<lambda>_.
        and_then (event_in_range request (lb_checkpoint block) snapshot) (\<lambda>_.
        Ok \<lparr>le_block = block, le_snapshot = snapshot\<rparr>)))))))"

definition parse_chain_status :: "'n externals \<Rightarrow> 'n json \<Rightarrow> l1_chain_status source_result" where
  "parse_chain_status ext v =
     (let source = (case json_get ''cryptarchia_info'' v of
          Some nested \<Rightarrow> if is_object nested then nested else v | None \<Rightarrow> v) in
      and_then (required_object_u64 ext source [''slot'', ''tip_slot''] ''tip slot'') (\<lambda>tip_slot.
      and_then (required_object_hex_id source [''tip'', ''tip_hash''] ''tip id'') (\<lambda>tip.
      and_then (required_object_u64 ext source [''lib_slot''] ''LIB slot'') (\<lambda>lib_slot.
      and_then (required_object_hex_id source [''lib'', ''lib_hash''] ''LIB id'') (\<lambda>lib.
      let snapshot = \<lparr>ls_tip = \<lparr>br_slot = tip_slot, br_block_id = tip\<rparr>,
                      ls_lib = \<lparr>br_slot = lib_slot, br_block_id = lib\<rparr>\<rparr>
      in and_then (validate_chain_snapshot snapshot) (\<lambda>_.
         and_then (case (case json_get ''genesis_id'' source of
               Some field \<Rightarrow> Some field | None \<Rightarrow> json_get ''genesis_id'' v) of
             None \<Rightarrow> Ok None
           | Some field \<Rightarrow> and_then (required_hex_id field ''genesis id'') (\<lambda>i. Ok (Some i))) (\<lambda>reported.
         Ok \<lparr>ct_snapshot = snapshot,
             ct_genesis_id = (case reported of Some i \<Rightarrow> Some i
               | None \<Rightarrow> if lib_slot = 0 then Some lib else None)\<rparr>)))))))"

definition parse_time_status :: "'n externals \<Rightarrow> 'n l1_codec \<Rightarrow> 'n json \<Rightarrow> l1_time_status source_result" where
  "parse_time_status ext codec v =
     and_then (required_object_u64 ext v [''current_epoch''] ''current epoch'') (\<lambda>epoch.
     and_then (required_object_i64 codec v [''genesis_time_unix_ms''] ''genesis time'') (\<lambda>genesis_time.
     and_then (required_object_u64 ext v [''slot_duration_ms''] ''slot duration'') (\<lambda>duration.
     and_then (required_object_u64 ext v [''current_slot''] ''current slot'') (\<lambda>slot.
     and_then (ok_or (u32_try_from (unat epoch)) (InvalidResponse ''current epoch exceeds u32 range'')) (\<lambda>current_epoch.
     Ok \<lparr>ts_genesis_time_unix_ms = genesis_time, ts_slot_duration_ms = duration, ts_current_slot = slot,
         ts_current_epoch = current_epoch\<rparr>)))))"

section \<open>The preview of a refused line\<close>

text \<open>
  \<open>String::from_utf8_lossy\<close>: \<open>utf8_step\<close> reads one character from the front. It returns the bytes it consumed and
  whether they are a well-formed sequence; a malformed sequence ends before the first byte that
  cannot continue it, and becomes one replacement character.
\<close>

definition continuation :: "nat \<Rightarrow> nat \<Rightarrow> string \<Rightarrow> bool" where
  "continuation low high s = (case s of c # _ \<Rightarrow> int low \<le> code c \<and> code c \<le> int high | [] \<Rightarrow> False)"

definition utf8_tail :: "nat \<Rightarrow> nat \<Rightarrow> nat \<Rightarrow> string \<Rightarrow> nat \<times> bool" where
  "utf8_tail extra low high s =
     (if \<not> continuation low high (drop 1 s) then (1, False)
      else if extra = 1 then (2, True)
      else if \<not> continuation 128 191 (drop 2 s) then (2, False)
      else if extra = 2 then (3, True)
      else if \<not> continuation 128 191 (drop 3 s) then (3, False) else (4, True))"

definition utf8_step :: "char \<Rightarrow> string \<Rightarrow> nat \<times> bool" where
  "utf8_step c s =
     (let k = code c
      in if k < 128 then (1, True)
         else if 194 \<le> k \<and> k \<le> 223 then utf8_tail 1 128 191 s
         else if k = 224 then utf8_tail 2 160 191 s
         else if k = 237 then utf8_tail 2 128 159 s
         else if 225 \<le> k \<and> k \<le> 239 then utf8_tail 2 128 191 s
         else if k = 240 then utf8_tail 3 144 191 s
         else if 241 \<le> k \<and> k \<le> 243 then utf8_tail 3 128 191 s
         else if k = 244 then utf8_tail 3 128 143 s
         else (1, False))"

fun lossy_chars :: "nat \<Rightarrow> string \<Rightarrow> string list" where
  "lossy_chars 0 s = []"
| "lossy_chars (Suc n) [] = []"
| "lossy_chars (Suc n) (c # cs) =
     (let (used, valid) = utf8_step c (c # cs)
      in (if valid then take used (c # cs) else [char_of (239 :: nat), char_of (191 :: nat), char_of (189 :: nat)])
         # lossy_chars n (drop used (c # cs)))"

definition response_preview :: "bytes \<Rightarrow> string" where
  "response_preview bs = concat (lossy_chars 200 (map (\<lambda>b. char_of (unat b)) bs))"

section \<open>Range pages\<close>

text \<open>
  The three variables that \<open>parse_range_event_bytes\<close> mutates: the events read so far, the chain snapshot
  they share and the slot of the last one.
\<close>

record 'n range_state =
  rg_events :: "'n l1_event list"
  rg_snapshot :: "l1_chain_snapshot option"
  rg_previous_slot :: "u64 option"

definition range_start :: "'n range_state" where
  "range_start = \<lparr>rg_events = [], rg_snapshot = None, rg_previous_slot = None\<rparr>"

definition too_many_blocks :: "l1_range_request \<Rightarrow> source_error" where
  "too_many_blocks request = InvalidResponse (''finalized range returned more than ''
     @ nat_text (lr_blocks_limit request) @ '' requested blocks'')"

definition parse_range_event_bytes ::
  "'n externals \<Rightarrow> 'n l1_codec \<Rightarrow> bytes \<Rightarrow> l1_range_request \<Rightarrow> 'n range_state \<Rightarrow> string \<Rightarrow> 'n range_state source_result" where
  "parse_range_event_bytes ext codec line request st location =
     (if length (rg_events st) \<ge> lr_blocks_limit request then Err (too_many_blocks request)
      else
        and_then (map_err (\<lambda>e. InvalidResponse (''invalid finalized range event at '' @ location @ '': '' @ e
            @ ''; event='' @ response_preview line)) (lx_event codec line)) (\<lambda>wire.
        and_then (parse_wire_event ext wire request) (\<lambda>event.
        if is_some_and (rg_previous_slot st) (\<lambda>previous. cp_slot (event_checkpoint event) \<le> previous)
        then Err (InvalidResponse (''finalized range block slots are not strictly ascending at '' @ location))
        else if is_some_and (rg_snapshot st) (\<lambda>current. current \<noteq> le_snapshot event)
        then Err (InvalidResponse (''finalized range chain snapshot changed at '' @ location))
        else Ok \<lparr>rg_events = rg_events st @ [event],
                 rg_snapshot = Some (case rg_snapshot st of Some current \<Rightarrow> current | None \<Rightarrow> le_snapshot event),
                 rg_previous_slot = Some (cp_slot (event_checkpoint event))\<rparr>)))"

definition body_too_long :: "l1_source_limits \<Rightarrow> source_error" where
  "body_too_long limits = InvalidResponse (''finalized range body exceeded ''
     @ nat_text (sl_range_response_bytes limits) @ '' byte limit'')"

fun parse_array_events ::
  "'n externals \<Rightarrow> 'n l1_codec \<Rightarrow> l1_range_request \<Rightarrow> nat \<Rightarrow> 'n range_state \<Rightarrow> 'n json list \<Rightarrow> 'n range_state source_result" where
  "parse_array_events ext codec request index st [] = Ok st"
| "parse_array_events ext codec request index st (v # vs) =
     and_then (map_err (\<lambda>e. InvalidResponse (''failed to encode finalized range event at array index ''
         @ nat_text (usize_increment index) @ '': '' @ e)) (lx_to_vec codec v)) (\<lambda>encoded.
     and_then (parse_range_event_bytes ext codec encoded request st
         (''array index '' @ nat_text (usize_increment index))) (\<lambda>st'.
     parse_array_events ext codec request (index + 1) st' vs))"

definition parse_catalog_l1_range_array ::
  "'n externals \<Rightarrow> 'n l1_codec \<Rightarrow> 'n json \<Rightarrow> l1_range_request \<Rightarrow> l1_source_limits \<Rightarrow> 'n l1_event list source_result" where
  "parse_catalog_l1_range_array ext codec v request limits =
     and_then (map_err (\<lambda>e. InvalidResponse (''failed to encode finalized range response for validation: '' @ e))
       (lx_to_vec codec v)) (\<lambda>encoded.
     if length encoded > sl_range_response_bytes limits then Err (body_too_long limits)
     else and_then (ok_or (as_array v) (InvalidResponse ''finalized range response is not an array'')) (\<lambda>vs.
     if length vs > lr_blocks_limit request then Err (too_many_blocks request)
     else and_then (parse_array_events ext codec request 0 range_start vs) (\<lambda>st. Ok (rg_events st))))"

section \<open>The incremental NDJSON parser\<close>

record 'n ndjson_parser =
  np_request :: l1_range_request
  np_limits :: l1_source_limits
  np_pending :: bytes
  np_range :: "'n range_state"
  np_line_number :: nat
  np_received_bytes :: nat

definition ndjson_new :: "l1_range_request \<Rightarrow> l1_source_limits \<Rightarrow> 'n ndjson_parser" where
  "ndjson_new request limits = \<lparr>np_request = request, np_limits = limits, np_pending = [], np_range = range_start,
     np_line_number = 0, np_received_bytes = 0\<rparr>"

definition is_ascii_whitespace :: "u8 \<Rightarrow> bool" where
  "is_ascii_whitespace b \<longleftrightarrow> b = 9 \<or> b = 10 \<or> b = 12 \<or> b = 13 \<or> b = 32"

definition line_too_long :: "nat \<Rightarrow> l1_source_limits \<Rightarrow> source_error" where
  "line_too_long line limits = InvalidResponse (''finalized range event on line '' @ nat_text line @ '' exceeded ''
     @ nat_text (sl_ndjson_line_bytes limits) @ '' byte limit'')"

definition parse_line ::
  "'n externals \<Rightarrow> 'n l1_codec \<Rightarrow> 'n ndjson_parser \<Rightarrow> bytes \<Rightarrow> 'n ndjson_parser source_result" where
  "parse_line ext codec p line =
     (if list_all is_ascii_whitespace line then Ok p
      else if length line > sl_ndjson_line_bytes (np_limits p)
      then Err (line_too_long (np_line_number p) (np_limits p))
      else and_then (parse_range_event_bytes ext codec line (np_request p) (np_range p)
          (''line '' @ nat_text (np_line_number p))) (\<lambda>st. Ok (p\<lparr>np_range := st\<rparr>)))"

text \<open>The \<open>while\<close> loop of \<open>push_chunk\<close>: it takes the complete lines off the pending bytes.\<close>

function drain_lines :: "'n externals \<Rightarrow> 'n l1_codec \<Rightarrow> 'n ndjson_parser \<Rightarrow> 'n ndjson_parser source_result" where
  "drain_lines ext codec p =
     (if 10 \<notin> set (np_pending p) then Ok p
      else
        let line = takeWhile (\<lambda>b. b \<noteq> 10) (np_pending p);
            trailing = drop (length line + 1) (np_pending p)
        in case parse_line ext codec (p\<lparr>np_pending := trailing, np_line_number := usize_increment (np_line_number p)\<rparr>) line of
             Err e \<Rightarrow> Err e
           | Ok q \<Rightarrow> drain_lines ext codec q)"
  by pat_completeness auto

lemma parse_line_Ok:
  "parse_line ext codec p line = Ok q \<Longrightarrow> q = p\<lparr>np_range := np_range q\<rparr>"
  by (cases p) (auto simp: parse_line_def ok_simps split: if_splits)

lemma parse_line_pending: "parse_line ext codec p line = Ok q \<Longrightarrow> np_pending q = np_pending p"
  by (drule parse_line_Ok) (metis ndjson_parser.select_convs(3) ndjson_parser.surjective ndjson_parser.update_convs(4))

termination drain_lines
  by (relation "measure (\<lambda>(ext, codec, p). length (np_pending p))")
    (auto dest!: parse_line_pending intro!: diff_less length_pos_if_in_set)

declare drain_lines.simps [simp del]

definition push_chunk ::
  "'n externals \<Rightarrow> 'n l1_codec \<Rightarrow> 'n ndjson_parser \<Rightarrow> bytes \<Rightarrow> 'n ndjson_parser source_result" where
  "push_chunk ext codec p chunk =
     (let received = np_received_bytes p + length chunk
      in if received \<ge> 2 ^ 64 then Err (InvalidResponse ''finalized range body length overflow'')
         else if received > sl_range_response_bytes (np_limits p) then Err (body_too_long (np_limits p))
         else and_then (drain_lines ext codec (p\<lparr>np_received_bytes := received, np_pending := np_pending p @ chunk\<rparr>)) (\<lambda>q.
           if length (np_pending q) > sl_ndjson_line_bytes (np_limits q)
           then Err (line_too_long (usize_increment (np_line_number q)) (np_limits q)) else Ok q))"

definition finish_parser :: "'n externals \<Rightarrow> 'n l1_codec \<Rightarrow> 'n ndjson_parser \<Rightarrow> 'n l1_event list source_result" where
  "finish_parser ext codec p =
     (if np_pending p \<noteq> []
      then and_then (parse_line ext codec (p\<lparr>np_pending := [], np_line_number := usize_increment (np_line_number p)\<rparr>)
          (np_pending p)) (\<lambda>q. Ok (rg_events (np_range q)))
      else Ok (rg_events (np_range p)))"

definition parse_catalog_l1_range_ndjson ::
  "'n externals \<Rightarrow> 'n l1_codec \<Rightarrow> bytes \<Rightarrow> l1_range_request \<Rightarrow> 'n l1_event list source_result" where
  "parse_catalog_l1_range_ndjson ext codec body request =
     and_then (push_chunk ext codec (ndjson_new request default_limits) body) (finish_parser ext codec)"

section \<open>The sources\<close>

record http_response =
  hr_content_length :: "u64 option"
  hr_chunks :: "(bytes, string) result list"

definition source_unavailable :: "string \<Rightarrow> string \<Rightarrow> source_error" where
  "source_unavailable context_text error = Unavailable (context_text @ '': '' @ error)"

definition ensure_response_content_length :: "http_response \<Rightarrow> nat \<Rightarrow> (unit, string) result" where
  "ensure_response_content_length response max_bytes =
     (if max_bytes = 0 then Err ''http response body limit must be greater than zero''
      else fail_if (is_some_and (hr_content_length response) (\<lambda>n. unat n > max_bytes))
        (''http response body exceeded '' @ nat_text max_bytes @ '' byte limit''))"

definition direct_finalized_range ::
  "'n externals \<Rightarrow> 'n l1_codec \<Rightarrow> l1_source_limits \<Rightarrow> (l1_range_request \<Rightarrow> (http_response, string) result)
   \<Rightarrow> l1_range_request \<Rightarrow> 'n l1_event list source_result" where
  "direct_finalized_range ext codec limits fetch request =
     and_then (map_err (source_unavailable ''finalized range request failed'') (fetch request)) (\<lambda>response.
     and_then (map_err InvalidResponse (ensure_response_content_length response (sl_range_response_bytes limits))) (\<lambda>_.
     and_then (fold_result (\<lambda>p c. and_then (map_err (source_unavailable ''finalized range body read failed'') c)
         (push_chunk ext codec p)) (ndjson_new request limits) (hr_chunks response))
       (finish_parser ext codec)))"

definition checked_block :: "'n externals \<Rightarrow> string \<Rightarrow> 'n json \<Rightarrow> 'n l1_block source_result" where
  "checked_block ext requested_id v =
     and_then (parse_block ext v ''block detail'') (\<lambda>block.
     if cp_block_id (lb_checkpoint block) \<noteq> requested_id
     then Err (InvalidResponse (''block detail returned id '' @ cp_block_id (lb_checkpoint block) @ '', requested ''
       @ requested_id))
     else Ok block)"

definition direct_block ::
  "'n externals \<Rightarrow> (string \<Rightarrow> ('n json option, string) result) \<Rightarrow> string \<Rightarrow> 'n l1_block option source_result" where
  "direct_block ext fetch block_id =
     and_then (l1_canonical_hex_id block_id ''requested block id'') (\<lambda>requested_id.
     and_then (map_err (source_unavailable ''block detail request failed'') (fetch requested_id)) (\<lambda>value.
     case value of None \<Rightarrow> Ok None
     | Some v \<Rightarrow> and_then (checked_block ext requested_id v) (\<lambda>block. Ok (Some block))))"

definition i32_try_from :: "nat \<Rightarrow> nat option" where
  "i32_try_from n = (if n < 2 ^ 31 then Some n else None)"

definition module_finalized_range ::
  "'n externals \<Rightarrow> 'n l1_codec \<Rightarrow> l1_source_limits \<Rightarrow> (nat \<Rightarrow> nat \<Rightarrow> nat \<Rightarrow> 'n json source_result)
   \<Rightarrow> l1_range_request \<Rightarrow> 'n l1_event list source_result" where
  "module_finalized_range ext codec limits call request =
     and_then (ok_or (i32_try_from (unat (lr_slot_from request)))
       (InvalidRequest ''range start exceeds the LogosCore CLI signed integer limit'')) (\<lambda>from_slot.
     and_then (ok_or (i32_try_from (unat (br_slot (lr_target_lib request))))
       (InvalidRequest ''target LIB slot exceeds the LogosCore CLI signed integer limit'')) (\<lambda>to_slot.
     and_then (ok_or (i32_try_from (lr_blocks_limit request))
       (InvalidRequest ''range block limit exceeds the LogosCore CLI signed integer limit'')) (\<lambda>blocks_limit.
     and_then (call from_slot to_slot blocks_limit) (\<lambda>value.
     parse_catalog_l1_range_array ext codec value request limits))))"

definition module_block :: "'n externals \<Rightarrow> (string \<Rightarrow> 'n json source_result) \<Rightarrow> string \<Rightarrow> 'n l1_block option source_result" where
  "module_block ext call block_id =
     and_then (l1_canonical_hex_id block_id ''requested block id'') (\<lambda>requested_id.
     and_then (call requested_id) (\<lambda>value.
     case value of JNull \<Rightarrow> Ok None
     | _ \<Rightarrow> and_then (checked_block ext requested_id value) (\<lambda>block. Ok (Some block))))"

end
