(* ===== verification/Catalog_Incremental.thy ===== *)
theory Catalog_Incremental
  imports Catalog_Store
begin

text \<open>
  The incremental validation of \<^verbatim>\<open>src/src/inspection/catalog/store.rs\<close> against the full one.
  The evidence deltas are related to the number of references per channel, the preparation loops to
  the segments and channels a batch touches, and the two together show that a batch applied to a
  valid snapshot passes the incremental validation exactly when the result is a valid snapshot.
\<close>

section \<open>Evidence deltas\<close>

definition removed_of :: "evidence_deltas \<Rightarrow> string \<Rightarrow> nat" where
  "removed_of d c = unat (ed_removed (delta_of d c))"

definition added_of :: "evidence_deltas \<Rightarrow> string \<Rightarrow> nat" where
  "added_of d c = unat (ed_added (delta_of d c))"

lemma delta_of_update: "delta_of (AList.update c d m) c' = (if c' = c then d else delta_of m c')"
  by (simp add: delta_of_def update_conv')

lemma record_evidence_removal_Ok:
  "record_evidence_removal m c = Ok m' \<Longrightarrow>
     removed_of m' c' = removed_of m c' + (if c = c' then 1 else 0) \<and> added_of m' c' = added_of m c'"
  by (auto simp: record_evidence_removal_def removed_of_def added_of_def checked_add_u64
      delta_of_update Let_def split: option.splits)

lemma record_evidence_addition_Ok:
  "record_evidence_addition m c = Ok m' \<Longrightarrow>
     added_of m' c' = added_of m c' + (if c = c' then 1 else 0) \<and> removed_of m' c' = removed_of m c'"
  by (auto simp: record_evidence_addition_def removed_of_def added_of_def checked_add_u64
      delta_of_update Let_def split: option.splits)

lemma record_evidence_removal_total:
  "removed_of m c + 1 < 2 ^ 64 \<Longrightarrow> \<exists>m'. record_evidence_removal m c = Ok m'"
  by (auto simp: record_evidence_removal_def removed_of_def checked_add_u64_None Let_def
      split: option.splits)

lemma record_evidence_addition_total:
  "added_of m c + 1 < 2 ^ 64 \<Longrightarrow> \<exists>m'. record_evidence_addition m c = Ok m'"
  by (auto simp: record_evidence_addition_def added_of_def checked_add_u64_None Let_def
      split: option.splits)

text \<open>How many of the keys \<open>ks\<close> name a previous reference of channel \<open>c\<close>.\<close>

definition hits :: "evidence_reference list \<Rightarrow> string \<Rightarrow> string list \<Rightarrow> nat" where
  "hits previous c ks =
     length (filter (\<lambda>k. is_some_and (find_evidence previous k) (\<lambda>p. ev_channel_id p = c)) ks)"

lemma hits_simps [simp]:
  "hits previous c [] = 0"
  "hits previous c (k # ks) =
     (if is_some_and (find_evidence previous k) (\<lambda>p. ev_channel_id p = c) then 1 else 0) + hits previous c ks"
  "hits previous c (ks @ ls) = hits previous c ks + hits previous c ls"
  by (simp_all add: hits_def)

lemma delta_delete_Ok:
  assumes "delta_delete previous m k = Ok m'"
  shows "removed_of m' c = removed_of m c + hits previous c [k] \<and> added_of m' c = added_of m c"
proof (cases "find_evidence previous k")
  case (Some p)
  then show ?thesis
    using assms record_evidence_removal_Ok[of m "ev_channel_id p" m' c] by (simp add: delta_delete_def)
qed (use assms in \<open>simp add: delta_delete_def\<close>)

lemma delta_delete_total:
  assumes "\<forall>c. removed_of m c + hits previous c [k] < 2 ^ 64"
  shows "\<exists>m'. delta_delete previous m k = Ok m'"
proof (cases "find_evidence previous k")
  case (Some p)
  then show ?thesis
    using assms[rule_format, of "ev_channel_id p"] record_evidence_removal_total[of m "ev_channel_id p"]
    by (simp add: delta_delete_def)
qed (simp add: delta_delete_def)

lemma delta_upsert_alt:
  "delta_upsert previous m r = and_then (delta_delete previous m (ev_evidence_id r))
     (\<lambda>m. record_evidence_addition m (ev_channel_id r))"
  by (simp add: delta_upsert_def delta_delete_def)

lemma delta_upserts_Ok:
  "fold_result (delta_upsert previous) m us = Ok m' \<Longrightarrow>
     removed_of m' c = removed_of m c + hits previous c (map ev_evidence_id us)
     \<and> added_of m' c = added_of m c + ref_count c us"
proof (induction us arbitrary: m)
  case (Cons u us)
  then obtain m2 where u: "delta_upsert previous m u = Ok m2" "fold_result (delta_upsert previous) m2 us = Ok m'"
    by (auto simp: ok_simps)
  then obtain m1 where m: "delta_delete previous m (ev_evidence_id u) = Ok m1"
    "record_evidence_addition m1 (ev_channel_id u) = Ok m2" "fold_result (delta_upsert previous) m2 us = Ok m'"
    unfolding delta_upsert_alt and_then_Ok by blast
  show ?case
    using Cons.IH[OF m(3)] delta_delete_Ok[OF m(1), of c] record_evidence_addition_Ok[OF m(2), of c] by simp
qed simp

lemma delta_deletes_Ok:
  "fold_result (delta_delete previous) m ks = Ok m' \<Longrightarrow>
     removed_of m' c = removed_of m c + hits previous c ks \<and> added_of m' c = added_of m c"
proof (induction ks arbitrary: m)
  case (Cons k ks)
  then obtain m1 where m: "delta_delete previous m k = Ok m1" "fold_result (delta_delete previous) m1 ks = Ok m'"
    by (auto simp: ok_simps)
  show ?case using Cons.IH[OF m(2)] delta_delete_Ok[OF m(1), of c] by simp
qed simp

lemma delta_deletes_total:
  "\<forall>c. removed_of m c + hits previous c ks < 2 ^ 64 \<Longrightarrow> \<exists>m'. fold_result (delta_delete previous) m ks = Ok m'"
proof (induction ks arbitrary: m)
  case (Cons k ks)
  have "removed_of m c + hits previous c [k] < 2 ^ 64" for c
    using Cons.prems[rule_format, of c] by simp
  then obtain m1 where m1: "delta_delete previous m k = Ok m1" using delta_delete_total by blast
  have "removed_of m1 c + hits previous c ks < 2 ^ 64" for c
    using Cons.prems[rule_format, of c] delta_delete_Ok[OF m1, of c] by simp
  then show ?case using Cons.IH[of m1] m1 by simp
qed simp

lemma delta_upserts_total:
  "\<forall>c. removed_of m c + hits previous c (map ev_evidence_id us) < 2 ^ 64 \<Longrightarrow>
   \<forall>c. added_of m c + ref_count c us < 2 ^ 64 \<Longrightarrow> \<exists>m'. fold_result (delta_upsert previous) m us = Ok m'"
proof (induction us arbitrary: m)
  case (Cons u us)
  have "removed_of m c + hits previous c [ev_evidence_id u] < 2 ^ 64" for c
    using Cons.prems(1)[rule_format, of c] by simp
  then obtain m1 where m1: "delta_delete previous m (ev_evidence_id u) = Ok m1" using delta_delete_total by blast
  have "added_of m1 (ev_channel_id u) + 1 < 2 ^ 64"
    using Cons.prems(2)[rule_format, of "ev_channel_id u"] delta_delete_Ok[OF m1, of "ev_channel_id u"] by simp
  then obtain m2 where m2: "record_evidence_addition m1 (ev_channel_id u) = Ok m2"
    using record_evidence_addition_total by blast
  note d = delta_delete_Ok[OF m1] record_evidence_addition_Ok[OF m2]
  have "\<forall>c. removed_of m2 c + hits previous c (map ev_evidence_id us) < 2 ^ 64"
    "\<forall>c. added_of m2 c + ref_count c us < 2 ^ 64"
    using Cons.prems d by (auto split: if_splits)
  then show ?case using Cons.IH[of m2] m1 m2 by (simp add: delta_upsert_alt)
qed simp

lemma delta_of_Nil [simp]: "removed_of [] c = 0" "added_of [] c = 0"
  by (simp_all add: removed_of_def added_of_def delta_of_def)

definition touched_evidence :: "catalog_batch \<Rightarrow> string list" where
  "touched_evidence b = map ev_evidence_id (cb_upsert_evidence b) @ cb_delete_evidence_ids b"

lemma evidence_count_deltas_Ok:
  assumes "evidence_count_deltas s b = Ok d"
  shows "removed_of d c = hits (cs_evidence s) c (touched_evidence b)"
    and "added_of d c = ref_count c (cb_upsert_evidence b)"
proof -
  obtain m where m: "fold_result (delta_upsert (cs_evidence s)) [] (cb_upsert_evidence b) = Ok m"
    "fold_result (delta_delete (cs_evidence s)) m (cb_delete_evidence_ids b) = Ok d"
    using assms by (auto simp: evidence_count_deltas_def ok_simps)
  show "removed_of d c = hits (cs_evidence s) c (touched_evidence b)"
    "added_of d c = ref_count c (cb_upsert_evidence b)"
    using delta_upserts_Ok[OF m(1), of c] delta_deletes_Ok[OF m(2), of c]
    by (simp_all add: touched_evidence_def)
qed

lemma evidence_count_deltas_total:
  assumes "\<forall>c. hits (cs_evidence s) c (touched_evidence b) < 2 ^ 64"
    "\<forall>c. ref_count c (cb_upsert_evidence b) < 2 ^ 64"
  shows "\<exists>d. evidence_count_deltas s b = Ok d"
proof -
  have h: "hits (cs_evidence s) c (map ev_evidence_id (cb_upsert_evidence b))
      + hits (cs_evidence s) c (cb_delete_evidence_ids b) < 2 ^ 64" for c
    using assms(1)[rule_format, of c] by (simp add: touched_evidence_def)
  have "\<forall>c. removed_of [] c + hits (cs_evidence s) c (map ev_evidence_id (cb_upsert_evidence b)) < 2 ^ 64"
    using h by (metis add_lessD1 delta_of_Nil(1) add_0)
  then obtain m where m: "fold_result (delta_upsert (cs_evidence s)) [] (cb_upsert_evidence b) = Ok m"
    using delta_upserts_total assms(2) by (metis delta_of_Nil(2) add_0)
  then have "\<forall>c. removed_of m c + hits (cs_evidence s) c (cb_delete_evidence_ids b) < 2 ^ 64"
    using h delta_upserts_Ok[OF m] by simp
  then show ?thesis using m delta_deletes_total by (simp add: evidence_count_deltas_def)
qed

lemma apply_evidence_delta_Ok:
  "apply_evidence_delta n e = Ok n' \<longleftrightarrow>
     unat (ed_removed e) \<le> unat n \<and> unat n' = unat n - unat (ed_removed e) + unat (ed_added e)"
proof (cases "ed_removed e \<le> n")
  case True
  then have "unat (n - ed_removed e) = unat n - unat (ed_removed e)" by (simp add: unat_sub)
  with True show ?thesis
    by (simp add: apply_evidence_delta_def ok_simps checked_sub_def checked_add_u64 word_le_nat_alt)
qed (simp add: apply_evidence_delta_def ok_simps checked_sub_def word_le_nat_alt)

lemma expected_count_Ok:
  "(case map_of d c of None \<Rightarrow> Ok n | Some e \<Rightarrow> apply_evidence_delta n e) = Ok n' \<longleftrightarrow>
     removed_of d c \<le> unat n \<and> unat n' = unat n - removed_of d c + added_of d c"
  by (cases "map_of d c") (auto simp: apply_evidence_delta_Ok removed_of_def added_of_def
      delta_of_def word_unat_eq_iff)

section \<open>What a batch changes\<close>

text \<open>The records after a batch, as sets and lookups.\<close>

lemma applied_lookup:
  assumes "key_sorted key rs" "distinct (map key us @ ds)" "apply_snapshot_records e key rs us ds = Ok rs'"
  shows "key_sorted key rs'"
    and "find_record key rs' k = (case map_of (keyed_entries key us) k of Some r \<Rightarrow> Some r
         | None \<Rightarrow> if k \<in> set ds then None else find_record key rs k)"
    and "set rs' = set us \<union> {r \<in> set rs. key r \<notin> key ` set us \<union> set ds}"
proof -
  have d: "distinct (map key us)" and dj: "set ds \<inter> key ` set us = {}" using assms(2) by auto
  obtain q where q: "apply_snapshot_records e key rs us ds = Ok q" "key_sorted key q"
    "\<forall>k. find_record key q k = (case map_of (keyed_entries key us) k of Some r \<Rightarrow> Some r
         | None \<Rightarrow> if k \<in> set ds then None else find_record key rs k)"
    using apply_snapshot_records_sorted[OF assms(1) d, of e ds] by blast
  then have [simp]: "q = rs'" using assms(3) by simp
  show s: "key_sorted key rs'" and
    l: "find_record key rs' k = (case map_of (keyed_entries key us) k of Some r \<Rightarrow> Some r
         | None \<Rightarrow> if k \<in> set ds then None else find_record key rs k)" for k
    using q by simp_all
  have u: "map_of (keyed_entries key us) k = Some r \<longleftrightarrow> r \<in> set us \<and> key r = k" for k r
    using d by (auto simp: comp_def map_of_eq_Some_iff)
  have "r \<in> set rs' \<longleftrightarrow> r \<in> set us \<or> r \<in> set rs \<and> key r \<notin> key ` set us \<union> set ds" for r
  proof (cases "map_of (keyed_entries key us) (key r)")
    case None
    then have n: "key r \<notin> key ` set us" unfolding map_of_keyed_entries_None .
    have "r \<in> set rs' \<longleftrightarrow> find_record key rs' (key r) = Some r"
      by (simp add: find_record_iff[OF s])
    also have "\<dots> \<longleftrightarrow> key r \<notin> set ds \<and> r \<in> set rs"
      unfolding l None by (simp add: find_record_iff[OF assms(1)])
    finally show ?thesis using n by blast
  next
    case (Some q)
    then have k: "q \<in> set us" "key q = key r" using u by blast+
    have "r \<in> set rs' \<longleftrightarrow> find_record key rs' (key r) = Some r"
      by (simp add: find_record_iff[OF s])
    also have "\<dots> \<longleftrightarrow> q = r" unfolding l Some by simp
    also have "\<dots> \<longleftrightarrow> r \<in> set us" using Some u by (metis option.inject)
    finally show ?thesis using k by (metis Un_iff image_eqI)
  qed
  then show "set rs' = set us \<union> {r \<in> set rs. key r \<notin> key ` set us \<union> set ds}" by blast
qed

lemma ref_count_card: "distinct (map key rs) \<Longrightarrow> ref_count c rs = card {r \<in> set rs. ev_channel_id r = c}"
  unfolding ref_count_def
  by (metis (mono_tags, lifting) distinct_card distinct_filter distinct_map set_filter Collect_cong)

lemma is_some_and_find:
  assumes "key_sorted key rs"
  shows "is_some_and (find_record key rs k) P \<longleftrightarrow> (\<exists>r \<in> set rs. key r = k \<and> P r)"
proof -
  have some: "is_some_and v P \<longleftrightarrow> (\<exists>r. v = Some r \<and> P r)" for v by (cases v) auto
  show ?thesis unfolding some find_record_iff[OF assms] by blast
qed

lemma hits_card:
  assumes "key_sorted ev_evidence_id rs" "distinct ks"
  shows "hits rs c ks = card {r \<in> set rs. ev_channel_id r = c \<and> ev_evidence_id r \<in> set ks}"
proof -
  let ?H = "{r \<in> set rs. ev_channel_id r = c \<and> ev_evidence_id r \<in> set ks}"
  let ?F = "filter (\<lambda>k. is_some_and (find_evidence rs k) (\<lambda>p. ev_channel_id p = c)) ks"
  have "inj_on ev_evidence_id (set rs)"
    using assms(1) unfolding strictly_sorted_iff distinct_map by simp
  then have inj: "inj_on ev_evidence_id ?H" by (rule inj_on_subset) blast
  have "set ?F = ev_evidence_id ` ?H"
    unfolding set_filter is_some_and_find[OF assms(1)] by blast
  moreover have "hits rs c ks = card (set ?F)"
    unfolding hits_def by (rule distinct_card[symmetric]) (simp add: assms(2))
  ultimately show ?thesis by (simp only: card_image[OF inj])
qed

lemma card_filter_split:
  "card {x \<in> set xs. P x} = card {x \<in> set xs. P x \<and> Q x} + card {x \<in> set xs. P x \<and> \<not> Q x}"
proof -
  have "{x \<in> set xs. P x} = {x \<in> set xs. P x \<and> Q x} \<union> {x \<in> set xs. P x \<and> \<not> Q x}" by blast
  then show ?thesis by (simp add: card_Un_disjoint disjoint_iff)
qed

lemma card_filter_applied:
  assumes "key_sorted key rs" "distinct (map key us @ ds)" "apply_snapshot_records e key rs us ds = Ok rs'"
  shows "card {r \<in> set rs'. P r} =
    card {r \<in> set us. P r} + card {r \<in> set rs. P r \<and> key r \<notin> set (map key us @ ds)}"
proof -
  have "{r \<in> set rs'. P r} = {r \<in> set us. P r} \<union> {r \<in> set rs. P r \<and> key r \<notin> set (map key us @ ds)}"
    unfolding applied_lookup(3)[OF assms] by auto
  moreover have "{r \<in> set us. P r} \<inter> {r \<in> set rs. P r \<and> key r \<notin> set (map key us @ ds)} = {}" by auto
  ultimately show ?thesis by (simp add: card_Un_disjoint)
qed

lemma ref_count_applied:
  assumes sorted: "key_sorted ev_evidence_id rs" and d: "distinct (map ev_evidence_id us @ ds)"
    and app: "apply_snapshot_records e ev_evidence_id rs us ds = Ok rs'"
  shows "ref_count c rs = hits rs c (map ev_evidence_id us @ ds) + (ref_count c rs' - ref_count c us)"
    and "ref_count c us \<le> ref_count c rs'"
proof -
  have dist: "distinct (map ev_evidence_id rs)" "distinct (map ev_evidence_id rs')" "distinct (map ev_evidence_id us)"
    using sorted applied_lookup(1)[OF sorted d app] d unfolding strictly_sorted_iff by simp_all
  note counts = ref_count_card[OF dist(1), of c] ref_count_card[OF dist(2), of c]
    ref_count_card[OF dist(3), of c] hits_card[OF sorted d, of c]
    card_filter_applied[OF sorted d app, of "\<lambda>r. ev_channel_id r = c"]
    card_filter_split[of rs "\<lambda>r. ev_channel_id r = c" "\<lambda>r. ev_evidence_id r \<in> set (map ev_evidence_id us @ ds)"]
  show "ref_count c rs = hits rs c (map ev_evidence_id us @ ds) + (ref_count c rs' - ref_count c us)"
    "ref_count c us \<le> ref_count c rs'"
    using counts by linarith+
qed

definition applied :: "catalog_snapshot \<Rightarrow> catalog_batch \<Rightarrow> catalog_snapshot \<Rightarrow> bool" where
  "applied s b s' \<longleftrightarrow> sorted_snapshot s \<and> batch_keys_ok b
     \<and> apply_batch_records_to s (cs_metadata s') b = Ok s'"

abbreviation bad_index :: catalog_error where
  "bad_index \<equiv> InvalidInput InvalidReplacementIndex"

lemma apply_batch_records_to_Ok:
  "apply_batch_records_to s md b = Ok s' \<longleftrightarrow>
     apply_snapshot_records bad_index zr_channel_id (cs_zones s) (cb_upsert_zones b)
       (cb_delete_zone_ids b) = Ok (cs_zones s')
     \<and> apply_snapshot_records bad_index ev_evidence_id (cs_evidence s) (cb_upsert_evidence b)
       (cb_delete_evidence_ids b) = Ok (cs_evidence s')
     \<and> apply_snapshot_records bad_index sg_segment_id (cs_segments s) (cb_upsert_segments b)
       (cb_delete_segment_ids b) = Ok (cs_segments s')
     \<and> apply_snapshot_records bad_index gp_gap_id (cs_gaps s) (cb_upsert_gaps b)
       (cb_delete_gap_ids b) = Ok (cs_gaps s')
     \<and> cs_metadata s' = md \<and> cs_frontier s' = cb_frontier b \<and> cs_traversal s' = cb_traversal b"
  by (cases s') (auto simp: apply_batch_records_to_def Let_def and_then_Ok)

lemma applied_parts:
  assumes "applied s b s'"
  shows "apply_snapshot_records bad_index zr_channel_id (cs_zones s) (cb_upsert_zones b)
      (cb_delete_zone_ids b) = Ok (cs_zones s')"
    and "apply_snapshot_records bad_index ev_evidence_id (cs_evidence s) (cb_upsert_evidence b)
      (cb_delete_evidence_ids b) = Ok (cs_evidence s')"
    and "apply_snapshot_records bad_index sg_segment_id (cs_segments s) (cb_upsert_segments b)
      (cb_delete_segment_ids b) = Ok (cs_segments s')"
    and "apply_snapshot_records bad_index gp_gap_id (cs_gaps s) (cb_upsert_gaps b)
      (cb_delete_gap_ids b) = Ok (cs_gaps s')"
  using assms unfolding applied_def apply_batch_records_to_Ok by blast+

lemma applied_sorted:
  assumes "applied s b s'"
  shows "key_sorted zr_channel_id (cs_zones s)" "key_sorted ev_evidence_id (cs_evidence s)"
    "key_sorted sg_segment_id (cs_segments s)" "key_sorted gp_gap_id (cs_gaps s)"
    "distinct (map zr_channel_id (cb_upsert_zones b) @ cb_delete_zone_ids b)"
    "distinct (map ev_evidence_id (cb_upsert_evidence b) @ cb_delete_evidence_ids b)"
    "distinct (map sg_segment_id (cb_upsert_segments b) @ cb_delete_segment_ids b)"
    "distinct (map gp_gap_id (cb_upsert_gaps b) @ cb_delete_gap_ids b)"
  using assms unfolding applied_def sorted_snapshot_def batch_keys_ok_def by blast+

lemma applied_sorted_after:
  assumes "applied s b s'"
  shows "sorted_snapshot s'"
proof -
  note srt = applied_sorted[OF assms] and parts = applied_parts[OF assms]
  show ?thesis unfolding sorted_snapshot_def
    using applied_lookup(1)[OF srt(1,5) parts(1)] applied_lookup(1)[OF srt(2,6) parts(2)]
      applied_lookup(1)[OF srt(3,7) parts(3)] applied_lookup(1)[OF srt(4,8) parts(4)] by blast
qed

lemma applied_total:
  assumes "sorted_snapshot s" "batch_keys_ok b"
  shows "\<exists>s'. apply_batch_records_to s md b = Ok s' \<and> applied s b s'"
proof -
  note total = apply_snapshot_records_sorted[where e = bad_index] and srt = sorted_snapshotD[OF assms(1)]
  have keys: "distinct (map zr_channel_id (cb_upsert_zones b))"
    "distinct (map ev_evidence_id (cb_upsert_evidence b))"
    "distinct (map sg_segment_id (cb_upsert_segments b))"
    "distinct (map gp_gap_id (cb_upsert_gaps b))"
    using assms(2) by (simp_all add: batch_keys_ok_def)
  obtain zs es ss gs where
    "apply_snapshot_records bad_index zr_channel_id (cs_zones s) (cb_upsert_zones b) (cb_delete_zone_ids b) = Ok zs"
    "apply_snapshot_records bad_index ev_evidence_id (cs_evidence s) (cb_upsert_evidence b) (cb_delete_evidence_ids b) = Ok es"
    "apply_snapshot_records bad_index sg_segment_id (cs_segments s) (cb_upsert_segments b) (cb_delete_segment_ids b) = Ok ss"
    "apply_snapshot_records bad_index gp_gap_id (cs_gaps s) (cb_upsert_gaps b) (cb_delete_gap_ids b) = Ok gs"
    using total[OF srt(1) keys(1)] total[OF srt(2) keys(2)] total[OF srt(3) keys(3)]
      total[OF srt(4) keys(4)] by meson
  then obtain s' where s': "apply_batch_records_to s md b = Ok s'"
    by (simp add: apply_batch_records_to_def)
  then have "cs_metadata s' = md" by (simp add: apply_batch_records_to_Ok)
  then show ?thesis using s' assms by (auto simp: applied_def)
qed

section \<open>The preparation loops\<close>

lemma prepare_segment_mono:
  "fst acc \<Longrightarrow> fst (foldl (prepare_segment previous) acc us)"
  "set (snd acc) \<subseteq> set (snd (foldl (prepare_segment previous) acc us))"
  by (induction us arbitrary: acc; force simp: prepare_segment_def split: option.splits prod.splits if_splits)+

lemma prepare_segments_safe:
  assumes "\<not> fst (foldl (prepare_segment previous) acc us)" "u \<in> set us"
    "find_segment previous (sg_segment_id u) = Some p"
  shows "is_safe_segment_extension p u"
    and "sg_frontier p \<noteq> sg_frontier u \<Longrightarrow> sg_segment_id u \<in> set (snd (foldl (prepare_segment previous) acc us))"
proof -
  obtain xs ys where us: "us = xs @ u # ys" using assms(2) by (meson split_list)
  let ?a = "foldl (prepare_segment previous) acc xs"
  have fold: "foldl (prepare_segment previous) acc us = foldl (prepare_segment previous) (prepare_segment previous ?a u) ys"
    by (simp add: us)
  then have nf: "\<not> fst (prepare_segment previous ?a u)" using assms(1) prepare_segment_mono(1) by metis
  then show safe: "is_safe_segment_extension p u"
    using assms(3) by (auto simp: prepare_segment_def split: prod.splits if_splits)
  have "sg_segment_id u \<in> set (snd (prepare_segment previous ?a u))" if "sg_frontier p \<noteq> sg_frontier u"
    using assms(3) safe that by (auto simp: prepare_segment_def split: prod.splits)
  then show "sg_frontier p \<noteq> sg_frontier u \<Longrightarrow> sg_segment_id u \<in> set (snd (foldl (prepare_segment previous) acc us))"
    unfolding fold using prepare_segment_mono(2) by blast
qed

definition previous_count :: "zone_record list \<Rightarrow> string \<Rightarrow> u64" where
  "previous_count zones c = unwrap_or (map_option zr_evidence_count (find_zone zones c)) 0"

lemma alist_update_new: "map_of m k = None \<Longrightarrow> AList.update k v m = m @ [(k, v)]"
  by (induction m) (auto split: if_splits)

lemma prepare_zone_counts:
  "\<forall>e \<in> set m. snd e = previous_count zones (fst e) \<Longrightarrow>
   set (foldl (prepare_zone_count zones) m ks) = set m \<union> (\<lambda>c. (c, previous_count zones c)) ` set ks"
proof (induction ks arbitrary: m)
  case (Cons k ks)
  show ?case
  proof (cases "map_of m k")
    case None
    then have "prepare_zone_count zones m k = m @ [(k, previous_count zones k)]"
      by (simp add: prepare_zone_count_def alist_update_new previous_count_def)
    then show ?thesis using Cons by simp
  next
    case (Some n)
    then have "(k, n) \<in> set m" by (rule map_of_SomeD)
    then have "(k, previous_count zones k) \<in> set m" using Cons.prems by force
    moreover have "prepare_zone_count zones m k = m" using Some by (simp add: prepare_zone_count_def)
    ultimately show ?thesis using Cons by auto
  qed
qed simp

lemma previous_count_valid:
  assumes "sorted_snapshot s" "valid_snapshot s"
  shows "unat (previous_count (cs_zones s) c) = ref_count c (cs_evidence s)"
proof (cases "find_zone (cs_zones s) c")
  case None
  then have n: "c \<notin> zr_channel_id ` set (cs_zones s)"
    unfolding find_record_None[OF sorted_snapshotD(1)[OF assms(1)]] .
  have "c \<notin> ev_channel_id ` set (cs_evidence s)"
    using n valid_snapshotD(6)[OF assms(2)] by fast
  then have "ref_count c (cs_evidence s) = 0" using ref_count_pos[of c "cs_evidence s"] by simp
  then show ?thesis by (simp add: previous_count_def None)
next
  case (Some z)
  then have z: "z \<in> set (cs_zones s)" "zr_channel_id z = c"
    unfolding find_record_iff[OF sorted_snapshotD(1)[OF assms(1)]] by simp_all
  then show ?thesis using valid_snapshotD(5)[OF assms(2) z(1)] by (simp add: previous_count_def Some)
qed

lemma expected_count_valid:
  assumes "applied s b s'" "valid_snapshot s" "evidence_count_deltas s b = Ok d"
  shows "(case map_of d c of None \<Rightarrow> Ok (previous_count (cs_zones s) c)
      | Some e \<Rightarrow> apply_evidence_delta (previous_count (cs_zones s) c) e) = Ok n
    \<longleftrightarrow> unat n = ref_count c (cs_evidence s')"
proof -
  have sorted: "sorted_snapshot s" using assms(1) by (simp add: applied_def)
  note counts = ref_count_applied[OF applied_sorted(2,6)[OF assms(1)] applied_parts(2)[OF assms(1)], of c]
  show ?thesis
    unfolding expected_count_Ok previous_count_valid[OF sorted assms(2)]
      evidence_count_deltas_Ok[OF assms(3)] touched_evidence_def
    using counts by linarith
qed

lemma evidence_deltas_exist:
  assumes "applied s b s'" "valid_snapshot s" "valid_snapshot s'"
  shows "\<exists>d. evidence_count_deltas s b = Ok d"
proof (rule evidence_count_deltas_total; intro allI)
  fix c
  note counts = ref_count_applied[OF applied_sorted(2,6)[OF assms(1)] applied_parts(2)[OF assms(1)], of c]
    valid_snapshot_counts[OF assms(2), of c] valid_snapshot_counts[OF assms(3), of c]
  show "hits (cs_evidence s) c (touched_evidence b) < 2 ^ 64" "ref_count c (cb_upsert_evidence b) < 2 ^ 64"
    using counts unfolding touched_evidence_def by linarith+
qed

section \<open>Incremental validation is as strong as full validation\<close>

abbreviation prepared_segments :: "catalog_snapshot \<Rightarrow> catalog_batch \<Rightarrow> bool \<times> string list" where
  "prepared_segments s b \<equiv>
     foldl (prepare_segment (cs_segments s)) (cb_delete_segment_ids b \<noteq> [], []) (cb_upsert_segments b)"

text \<open>Without a full validation every old segment survives and can only have grown at its frontier.\<close>

lemma segment_survives:
  assumes app: "applied s b s'" and nf: "\<not> fst (prepared_segments s b)"
    and p: "find_segment (cs_segments s) k = Some p"
  obtains q where "find_segment (cs_segments s') k = Some q" "sg_floor q = sg_floor p"
    "br_slot (sg_frontier p) \<le> br_slot (sg_frontier q)"
    "k \<notin> set (snd (prepared_segments s b)) \<Longrightarrow> sg_frontier q = sg_frontier p"
proof -
  have nd: "cb_delete_segment_ids b = []"
    using nf prepare_segment_mono(1)[of "(cb_delete_segment_ids b \<noteq> [], [])"] unfolding fst_conv by blast
  note l = applied_lookup(2)[OF applied_sorted(3,7)[OF app] applied_parts(3)[OF app], of k]
  show thesis
  proof (cases "map_of (keyed_entries sg_segment_id (cb_upsert_segments b)) k")
    case None
    have "find_segment (cs_segments s') k = Some p" unfolding l None nd by (simp add: p)
    then show thesis by (rule that) simp_all
  next
    case (Some u)
    then have u: "u \<in> set (cb_upsert_segments b)" "sg_segment_id u = k" by (auto dest: map_of_SomeD)
    have safe: "is_safe_segment_extension p u"
      "sg_frontier p \<noteq> sg_frontier u \<Longrightarrow> k \<in> set (snd (prepared_segments s b))"
      using prepare_segments_safe[OF nf u(1)] p u(2) by simp_all
    have "find_segment (cs_segments s') k = Some u" unfolding l Some by simp
    moreover have "sg_floor u = sg_floor p" "br_slot (sg_frontier p) \<le> br_slot (sg_frontier u)"
      using safe(1) unfolding is_safe_segment_extension_def by auto
    ultimately show thesis by (rule that) (use safe(2) in metis)
  qed
qed

lemma evidence_relationship_survives:
  assumes "applied s b s'" "\<not> fst (prepared_segments s b)" "validate_evidence_relationship r s = Ok ()"
  shows "validate_evidence_relationship r s' = Ok ()"
proof -
  obtain p where p: "find_segment (cs_segments s) (ev_coverage_segment_id r) = Some p"
    "validate_evidence r = Ok ()" "cp_slot (sg_floor p) \<le> ev_l1_slot r" "ev_l1_slot r \<le> br_slot (sg_frontier p)"
    using assms(3) by (auto simp: validate_evidence_relationship_def ok_simps
        split: option.splits if_splits)
  obtain q where "find_segment (cs_segments s') (ev_coverage_segment_id r) = Some q"
    "sg_floor q = sg_floor p" "br_slot (sg_frontier p) \<le> br_slot (sg_frontier q)"
    using segment_survives[OF assms(1,2) p(1)] by metis
  then show ?thesis
    using p by (auto simp: validate_evidence_relationship_def ok_simps not_less intro: order.trans)
qed

lemma zone_relationship_survives:
  assumes "applied s b s'" "\<not> fst (prepared_segments s b)" "validate_zone_relationship z s = Ok ()"
    and e: "find_evidence (cs_evidence s') (zr_latest_evidence_id z)
      = find_evidence (cs_evidence s) (zr_latest_evidence_id z)"
  shows "validate_zone_relationship z s' = Ok ()"
proof -
  let ?k = "sp_coverage_segment_id (zr_snapshot_provenance z)"
  let ?o = "sp_observed_slot (zr_snapshot_provenance z)"
  obtain p f where p: "find_segment (cs_segments s) ?k = Some p" "validate_zone z = Ok ()"
    "cp_slot (sg_floor p) \<le> ?o" "?o \<le> br_slot (sg_frontier p)"
    "find_evidence (cs_evidence s) (zr_latest_evidence_id z) = Some f" "ev_channel_id f = zr_channel_id z"
    using assms(3) by (auto simp: validate_zone_relationship_def ok_simps
        split: option.splits if_splits)
  obtain q where "find_segment (cs_segments s') ?k = Some q"
    "sg_floor q = sg_floor p" "br_slot (sg_frontier p) \<le> br_slot (sg_frontier q)"
    using segment_survives[OF assms(1,2) p(1)] by metis
  then show ?thesis
    using p e by (auto simp: validate_zone_relationship_def ok_simps not_less intro: order.trans)
qed

lemma gap_relationship_survives:
  assumes "applied s b s'" "\<not> fst (prepared_segments s b)" "validate_gap_relationship g s = Ok ()"
    and lower: "gp_lower_segment_id g \<notin> set (snd (prepared_segments s b))"
  shows "validate_gap_relationship g s' = Ok ()"
proof -
  obtain p u where p: "find_segment (cs_segments s) (gp_lower_segment_id g) = Some p"
    "find_segment (cs_segments s) (gp_upper_segment_id g) = Some u" "validate_gap g = Ok ()"
    "sg_frontier p = gp_lower_checkpoint g" "cp_slot (sg_floor u) = br_slot (gp_upper_block g)"
    "cp_block_id (sg_floor u) = br_block_id (gp_upper_block g)"
    "cp_parent_id (sg_floor u) = gp_required_parent_id g"
    using assms(3) by (auto simp: validate_gap_relationship_def ok_simps
        split: option.splits if_splits)
  obtain q where "find_segment (cs_segments s') (gp_lower_segment_id g) = Some q"
    "sg_frontier q = sg_frontier p"
    using segment_survives[OF assms(1,2) p(1)] lower by metis
  moreover obtain v where "find_segment (cs_segments s') (gp_upper_segment_id g) = Some v"
    "sg_floor v = sg_floor u"
    using segment_survives[OF assms(1,2) p(2)] by metis
  ultimately show ?thesis using p by (simp add: validate_gap_relationship_def ok_simps)
qed

definition touched_channels :: "catalog_batch \<Rightarrow> evidence_deltas \<Rightarrow> string list" where
  "touched_channels b d = map fst d @ map zr_channel_id (cb_upsert_zones b) @ cb_delete_zone_ids b"

text \<open>A channel outside the touched ones keeps its zone record and all of its references.\<close>

lemma untouched_delta:
  assumes "c \<notin> set (touched_channels b d)" "evidence_count_deltas s b = Ok d"
  shows "hits (cs_evidence s) c (touched_evidence b) = 0" "ref_count c (cb_upsert_evidence b) = 0"
proof -
  have "c \<notin> fst ` set d" using assms(1) by (auto simp: touched_channels_def)
  then have "map_of d c = None" by (simp add: map_of_eq_None_iff)
  then show "hits (cs_evidence s) c (touched_evidence b) = 0" "ref_count c (cb_upsert_evidence b) = 0"
    using evidence_count_deltas_Ok[OF assms(2), of c] by (simp_all add: removed_of_def added_of_def delta_of_def)
qed

lemma untouched_reference:
  assumes "applied s b s'" "c \<notin> set (touched_channels b d)" "evidence_count_deltas s b = Ok d"
    and e: "find_evidence (cs_evidence s) k = Some e" "ev_channel_id e = c"
  shows "find_evidence (cs_evidence s') k = Some e"
proof -
  have "k \<notin> set (touched_evidence b)"
  proof
    assume k: "k \<in> set (touched_evidence b)"
    then have "k \<in> set (filter (\<lambda>k. is_some_and (find_evidence (cs_evidence s) k) (\<lambda>p. ev_channel_id p = c))
        (touched_evidence b))" using e by simp
    then show False using untouched_delta(1)[OF assms(2,3)] unfolding hits_def length_0_conv by force
  qed
  then have n: "k \<notin> ev_evidence_id ` set (cb_upsert_evidence b)" "k \<notin> set (cb_delete_evidence_ids b)"
    by (auto simp: touched_evidence_def)
  have none: "map_of (keyed_entries ev_evidence_id (cb_upsert_evidence b)) k = None"
    unfolding map_of_keyed_entries_None by (rule n)
  show ?thesis
    unfolding applied_lookup(2)[OF applied_sorted(2,6)[OF assms(1)] applied_parts(2)[OF assms(1)]] none
    using n(2) e(1) by simp
qed

lemma untouched_zone:
  assumes "applied s b s'" "c \<notin> set (touched_channels b d)"
  shows "find_zone (cs_zones s') c = find_zone (cs_zones s) c"
proof -
  have n: "c \<notin> zr_channel_id ` set (cb_upsert_zones b)" "c \<notin> set (cb_delete_zone_ids b)"
    using assms(2) by (auto simp: touched_channels_def)
  have none: "map_of (keyed_entries zr_channel_id (cb_upsert_zones b)) c = None"
    unfolding map_of_keyed_entries_None by (rule n)
  show ?thesis
    unfolding applied_lookup(2)[OF applied_sorted(1,5)[OF assms(1)] applied_parts(1)[OF assms(1)]] none
    using n(2) by simp
qed

lemma zone_count_Ok:
  assumes "applied s b s'" "valid_snapshot s" "evidence_count_deltas s b = Ok d"
  shows "validate_zone_count s' d (c, previous_count (cs_zones s) c) = Ok () \<longleftrightarrow>
    (case find_zone (cs_zones s') c of
       Some z \<Rightarrow> unat (zr_evidence_count z) = ref_count c (cs_evidence s')
         \<and> validate_zone_relationship z s' = Ok ()
     | None \<Rightarrow> ref_count c (cs_evidence s') = 0)"
proof -
  note unfolds = validate_zone_count_def split_conv and_then_Ok expected_count_valid[OF assms]
  show ?thesis
  proof (cases "find_zone (cs_zones s') c")
    case None
    have "(\<exists>n :: u64. unat n = ref_count c (cs_evidence s') \<and> n = 0) \<longleftrightarrow> ref_count c (cs_evidence s') = 0"
      by auto
    then show ?thesis unfolding unfolds None by (simp add: ok_simps if_split[of "\<lambda>r. r = Ok u" for u])
  next
    case (Some z)
    have "(\<exists>n. unat n = ref_count c (cs_evidence s') \<and> n = zr_evidence_count z) \<longleftrightarrow>
        unat (zr_evidence_count z) = ref_count c (cs_evidence s')" by auto
    then show ?thesis unfolding unfolds Some by (auto simp: ok_simps split: if_splits)
  qed
qed

lemma prepare_incremental_validation_Ok:
  "prepare_incremental_validation s b = Ok v \<longleftrightarrow>
     (\<exists>d. evidence_count_deltas s b = Ok d
        \<and> v = \<lparr>iv_requires_full = fst (prepared_segments s b),
                iv_changed_segment_ids = snd (prepared_segments s b), iv_evidence_deltas = d,
                iv_previous_zone_counts =
                  foldl (prepare_zone_count (cs_zones s)) [] (touched_channels b d)\<rparr>)"
  by (auto simp: prepare_incremental_validation_def and_then_Ok touched_channels_def split: prod.splits)

lemma checked_zone_counts:
  assumes "applied s b s'" "valid_snapshot s" "evidence_count_deltas s b = Ok d"
  shows "for_each (validate_zone_count s' d)
      (foldl (prepare_zone_count (cs_zones s)) [] (touched_channels b d)) = Ok ()
    \<longleftrightarrow> (\<forall>c \<in> set (touched_channels b d).
      case find_zone (cs_zones s') c of
        Some z \<Rightarrow> unat (zr_evidence_count z) = ref_count c (cs_evidence s')
          \<and> validate_zone_relationship z s' = Ok ()
      | None \<Rightarrow> ref_count c (cs_evidence s') = 0)"
proof -
  have "set (foldl (prepare_zone_count (cs_zones s)) [] (touched_channels b d))
      = (\<lambda>c. (c, previous_count (cs_zones s) c)) ` set (touched_channels b d)"
    using prepare_zone_counts[of "[]"] by simp
  then show ?thesis unfolding for_each_Ok by (simp only: zone_count_Ok[OF assms] ball_simps)
qed

text \<open>The zones and the references of the result, from the check of the touched channels alone.\<close>

lemma incremental_zones:
  assumes app: "applied s b s'" and v: "valid_snapshot s" and d: "evidence_count_deltas s b = Ok d"
    and nf: "\<not> fst (prepared_segments s b)"
    and chk: "\<And>c. c \<in> set (touched_channels b d) \<Longrightarrow> case find_zone (cs_zones s') c of
        Some z \<Rightarrow> unat (zr_evidence_count z) = ref_count c (cs_evidence s')
          \<and> validate_zone_relationship z s' = Ok ()
      | None \<Rightarrow> ref_count c (cs_evidence s') = 0"
    and z: "z \<in> set (cs_zones s')"
  shows "validate_zone_relationship z s' = Ok ()
    \<and> unat (zr_evidence_count z) = ref_count (zr_channel_id z) (cs_evidence s')"
proof -
  let ?c = "zr_channel_id z"
  have fz: "find_zone (cs_zones s') ?c = Some z"
    using z by (simp add: find_record_iff[OF sorted_snapshotD(1)[OF applied_sorted_after[OF app]]])
  show ?thesis
  proof (cases "?c \<in> set (touched_channels b d)")
    case True
    then show ?thesis using chk[OF True] fz by simp
  next
    case False
    have "find_zone (cs_zones s) ?c = Some z" using untouched_zone[OF app False] fz by simp
    then have zs: "z \<in> set (cs_zones s)"
      by (simp add: find_record_iff[OF applied_sorted(1)[OF app]])
    obtain e where e: "find_evidence (cs_evidence s) (zr_latest_evidence_id z) = Some e" "ev_channel_id e = ?c"
      using valid_snapshotD(4)[OF v zs]
      by (auto simp: validate_zone_relationship_def ok_simps split: option.splits if_splits)
    have "validate_zone_relationship z s' = Ok ()"
      using zone_relationship_survives[OF app nf valid_snapshotD(4)[OF v zs]]
        untouched_reference[OF app False d e] e(1) by simp
    moreover have "ref_count ?c (cs_evidence s') = ref_count ?c (cs_evidence s)"
      using ref_count_applied[OF applied_sorted(2,6)[OF app] applied_parts(2)[OF app], of ?c]
        untouched_delta[OF False d] unfolding touched_evidence_def by linarith
    ultimately show ?thesis using valid_snapshotD(5)[OF v zs] by simp
  qed
qed

lemma incremental_orphans:
  assumes app: "applied s b s'" and v: "valid_snapshot s" and d: "evidence_count_deltas s b = Ok d"
    and chk: "\<And>c. c \<in> set (touched_channels b d) \<Longrightarrow> case find_zone (cs_zones s') c of
        Some z \<Rightarrow> unat (zr_evidence_count z) = ref_count c (cs_evidence s')
          \<and> validate_zone_relationship z s' = Ok ()
      | None \<Rightarrow> ref_count c (cs_evidence s') = 0"
    and r: "r \<in> set (cs_evidence s')"
  shows "ev_channel_id r \<in> zr_channel_id ` set (cs_zones s')"
proof -
  let ?c = "ev_channel_id r"
  have pos: "0 < ref_count ?c (cs_evidence s')" using r by (auto simp: ref_count_pos)
  have "find_zone (cs_zones s') ?c \<noteq> None"
  proof (cases "?c \<in> set (touched_channels b d)")
    case True
    then show ?thesis using chk[OF True] pos by (auto split: option.splits)
  next
    case False
    have "ref_count ?c (cs_evidence s') = ref_count ?c (cs_evidence s)"
      using ref_count_applied[OF applied_sorted(2,6)[OF app] applied_parts(2)[OF app], of ?c]
        untouched_delta[OF False d] unfolding touched_evidence_def by linarith
    then have "?c \<in> ev_channel_id ` set (cs_evidence s)" using pos by (simp add: ref_count_pos)
    then have "?c \<in> zr_channel_id ` set (cs_zones s)" using valid_snapshotD(6)[OF v] by auto
    then show ?thesis
      unfolding untouched_zone[OF app False] find_record_None[OF applied_sorted(1)[OF app]] not_not .
  qed
  then show ?thesis
    unfolding find_record_None[OF sorted_snapshotD(1)[OF applied_sorted_after[OF app]]] not_not .
qed

lemma incremental_sound:
  assumes app: "applied s b s'" and v: "valid_snapshot s" and d: "evidence_count_deltas s b = Ok d"
    and segs: "\<forall>g \<in> set (cb_upsert_segments b). validate_segment g = Ok ()"
    and nf: "\<not> fst (prepared_segments s b)" and hd: "validate_header s' = Ok ()"
    and evs: "\<forall>r \<in> set (cb_upsert_evidence b). validate_evidence_relationship r s' = Ok ()"
    and gaps: "\<forall>g \<in> set (cb_upsert_gaps b). validate_gap_relationship g s' = Ok ()"
    and lower: "\<forall>g \<in> set (cs_gaps s'). gp_lower_segment_id g \<in> set (snd (prepared_segments s b))
      \<longrightarrow> validate_gap_relationship g s' = Ok ()"
    and chk: "\<And>c. c \<in> set (touched_channels b d) \<Longrightarrow> case find_zone (cs_zones s') c of
        Some z \<Rightarrow> unat (zr_evidence_count z) = ref_count c (cs_evidence s')
          \<and> validate_zone_relationship z s' = Ok ()
      | None \<Rightarrow> ref_count c (cs_evidence s') = 0"
  shows "valid_snapshot s'"
proof -
  note new = applied_lookup(3)[OF applied_sorted(2,6)[OF app] applied_parts(2)[OF app]]
    applied_lookup(3)[OF applied_sorted(3,7)[OF app] applied_parts(3)[OF app]]
    applied_lookup(3)[OF applied_sorted(4,8)[OF app] applied_parts(4)[OF app]]
  have "validate_segment g = Ok ()" if "g \<in> set (cs_segments s')" for g
    using that segs valid_snapshotD(2)[OF v] unfolding new(2) by blast
  moreover have "validate_evidence_relationship r s' = Ok ()" if "r \<in> set (cs_evidence s')" for r
    using that evs evidence_relationship_survives[OF app nf valid_snapshotD(3)[OF v]]
    unfolding new(1) by blast
  moreover have "validate_gap_relationship g s' = Ok ()" if g: "g \<in> set (cs_gaps s')" for g
  proof (cases "gp_lower_segment_id g \<in> set (snd (prepared_segments s b))")
    case True
    then show ?thesis using lower g by blast
  next
    case False
    show ?thesis
      using g gaps gap_relationship_survives[OF app nf valid_snapshotD(7)[OF v] False]
      unfolding new(3) by blast
  qed
  ultimately show ?thesis
    unfolding valid_snapshot_def
    using hd incremental_zones[OF app v d nf chk] incremental_orphans[OF app v d chk] by simp
qed

lemma incremental_complete:
  assumes app: "applied s b s'" and v': "valid_snapshot s'"
  shows "validate_header s' = Ok ()"
    and "r \<in> set (cb_upsert_evidence b) \<Longrightarrow> validate_evidence_relationship r s' = Ok ()"
    and "g \<in> set (cb_upsert_gaps b) \<Longrightarrow> validate_gap_relationship g s' = Ok ()"
    and "g \<in> set (cs_gaps s') \<Longrightarrow> validate_gap_relationship g s' = Ok ()"
    and "case find_zone (cs_zones s') c of
        Some z \<Rightarrow> unat (zr_evidence_count z) = ref_count c (cs_evidence s')
          \<and> validate_zone_relationship z s' = Ok ()
      | None \<Rightarrow> ref_count c (cs_evidence s') = 0"
proof -
  note new = applied_lookup(3)[OF applied_sorted(2,6)[OF app] applied_parts(2)[OF app]]
    applied_lookup(3)[OF applied_sorted(4,8)[OF app] applied_parts(4)[OF app]]
  show "validate_header s' = Ok ()" by (rule valid_snapshotD(1)[OF v'])
  show "r \<in> set (cb_upsert_evidence b) \<Longrightarrow> validate_evidence_relationship r s' = Ok ()"
    by (rule valid_snapshotD(3)[OF v']) (simp add: new(1))
  show "g \<in> set (cb_upsert_gaps b) \<Longrightarrow> validate_gap_relationship g s' = Ok ()"
    by (rule valid_snapshotD(7)[OF v']) (simp add: new(2))
  show "g \<in> set (cs_gaps s') \<Longrightarrow> validate_gap_relationship g s' = Ok ()"
    by (rule valid_snapshotD(7)[OF v'])
  show "case find_zone (cs_zones s') c of
        Some z \<Rightarrow> unat (zr_evidence_count z) = ref_count c (cs_evidence s')
          \<and> validate_zone_relationship z s' = Ok ()
      | None \<Rightarrow> ref_count c (cs_evidence s') = 0"
  proof (cases "find_zone (cs_zones s') c")
    case None
    then have "unat (previous_count (cs_zones s') c) = 0" by (simp add: previous_count_def)
    then show ?thesis
      unfolding previous_count_valid[OF applied_sorted_after[OF app] v'] using None by simp
  next
    case (Some z)
    then have "z \<in> set (cs_zones s')" "zr_channel_id z = c"
      by (simp_all add: find_record_iff[OF sorted_snapshotD(1)[OF applied_sorted_after[OF app]]])
    then show ?thesis using Some valid_snapshotD(4,5)[OF v', of z] by simp
  qed
qed

lemma incremental_validation_iff:
  assumes app: "applied s b s'" and v: "valid_snapshot s"
    and segs: "\<forall>g \<in> set (cb_upsert_segments b). validate_segment g = Ok ()"
    and prep: "prepare_incremental_validation s b = Ok p"
  shows "validate_incremental_snapshot s' b p = Ok u \<longleftrightarrow> valid_snapshot s'"
proof -
  obtain d where d: "evidence_count_deltas s b = Ok d" and
    p: "iv_requires_full p = fst (prepared_segments s b)"
    "iv_changed_segment_ids p = snd (prepared_segments s b)" "iv_evidence_deltas p = d"
    "iv_previous_zone_counts p = foldl (prepare_zone_count (cs_zones s)) [] (touched_channels b d)"
    using prep unfolding prepare_incremental_validation_Ok by auto
  show ?thesis
  proof (cases "fst (prepared_segments s b)")
    case True
    then show ?thesis
      unfolding validate_incremental_snapshot_def p
      by (simp add: validate_snapshot_iff[OF applied_sorted_after[OF app]])
  next
    case False
    have guard: "(if c then r else Ok ()) = Ok () \<longleftrightarrow> (c \<longrightarrow> r = Ok ())" for c and r :: "unit catalog_result"
      by simp
    have step: "validate_incremental_snapshot s' b p = Ok u \<longleftrightarrow> validate_header s' = Ok ()
        \<and> (\<forall>r \<in> set (cb_upsert_evidence b). validate_evidence_relationship r s' = Ok ())
        \<and> (\<forall>g \<in> set (cb_upsert_gaps b). validate_gap_relationship g s' = Ok ())
        \<and> (\<forall>g \<in> set (cs_gaps s'). gp_lower_segment_id g \<in> set (snd (prepared_segments s b))
             \<longrightarrow> validate_gap_relationship g s' = Ok ())
        \<and> (\<forall>c \<in> set (touched_channels b d). case find_zone (cs_zones s') c of
             Some z \<Rightarrow> unat (zr_evidence_count z) = ref_count c (cs_evidence s')
               \<and> validate_zone_relationship z s' = Ok ()
           | None \<Rightarrow> ref_count c (cs_evidence s') = 0)"
      unfolding validate_incremental_snapshot_def p and_then_unit_Ok if_not_P[OF False]
        for_each_Ok[of _ "cb_upsert_evidence b"] for_each_Ok[of _ "cb_upsert_gaps b"]
        for_each_Ok[of _ "cs_gaps s'"] guard
      using checked_zone_counts[OF app v d] by simp
    show ?thesis
      unfolding step using incremental_sound[OF app v d segs False] incremental_complete[OF app]
      by (intro iffI conjI ballI impI) blast+
  qed
qed

section \<open>The property\<close>

lemma apply_batch_to_snapshot_iff:
  assumes srt: "sorted_snapshot s" and v: "valid_snapshot s" and batch: "validate_batch b = Ok ()"
    and rev: "cm_catalog_revision (cs_metadata s) = cb_expected_catalog_revision b"
  shows "apply_batch_to_snapshot s md b = Ok s' \<longleftrightarrow>
    apply_batch_records_to s md b = Ok s' \<and> valid_snapshot s' \<and> applied s b s'"
proof -
  obtain r where r: "apply_batch_records_to s md b = Ok r" "applied s b r"
    using applied_total[OF srt validate_batch_keys[OF batch]] by blast
  note segs = validate_batch_segments[OF batch]
  have "apply_batch_to_snapshot s md b = Ok s' \<longleftrightarrow>
      (\<exists>p. prepare_incremental_validation s b = Ok p
         \<and> validate_incremental_snapshot r b p = Ok () \<and> r = s')"
    by (simp add: apply_batch_to_snapshot_def rev r(1) and_then_Ok)
  also have "\<dots> \<longleftrightarrow> (\<exists>p. prepare_incremental_validation s b = Ok p) \<and> valid_snapshot r \<and> r = s'"
    using incremental_validation_iff[OF r(2) v] segs by blast
  also have "\<dots> \<longleftrightarrow> valid_snapshot r \<and> r = s'"
    using evidence_deltas_exist[OF r(2) v] unfolding prepare_incremental_validation_Ok by blast
  also have "\<dots> \<longleftrightarrow> apply_batch_records_to s md b = Ok s' \<and> valid_snapshot s' \<and> applied s b s'"
    using r by auto
  finally show ?thesis .
qed

text \<open>
  C19: On a snapshot the full validation accepts and a batch \<open>validate_batch\<close> accepts, applying the batch to
  the held snapshot with the incremental validation succeeds with a result exactly when
  the records can be applied and the full validation accepts that result. The fast path neither
  lets an invalid catalog through nor rejects a valid one, for any batch, and the counting
  arithmetic on 64-bit deltas never refuses a batch the full count accepts.
\<close>

theorem incremental_validation_exact:
  assumes "sorted_snapshot s" "validate_snapshot s = Ok ()" "validate_batch b = Ok ()"
    and rev: "cm_catalog_revision (cs_metadata s) = cb_expected_catalog_revision b"
  shows "apply_batch_to_snapshot s md b = Ok s' \<longleftrightarrow>
    apply_batch_records_to s md b = Ok s' \<and> validate_snapshot s' = Ok ()"
proof -
  have v: "valid_snapshot s" using assms(2) validate_snapshot_iff[OF assms(1)] by simp
  obtain r where r: "apply_batch_records_to s md b = Ok r" "applied s b r"
    using applied_total[OF assms(1) validate_batch_keys[OF assms(3)]] by blast
  show ?thesis
    unfolding apply_batch_to_snapshot_iff[OF assms(1) v assms(3) rev]
    using r validate_snapshot_iff[OF applied_sorted_after[OF r(2)]] by auto
qed

definition sample_metadata :: catalog_metadata where
  "sample_metadata = \<lparr>cm_catalog_file_id = ''catalog_1'', cm_network_scope = GenesisId (sample_id (CHR ''0'')),
     cm_identity_aliases = [], cm_identity_assurance = SourceAttested, cm_identity_transition = None,
     cm_catalog_revision = 0, cm_created_at_unix = 5, cm_updated_at_unix = 5\<rparr>"

definition empty_snapshot :: catalog_snapshot where
  "empty_snapshot = \<lparr>cs_metadata = sample_metadata, cs_frontier = None, cs_traversal = None,
     cs_zones = [], cs_evidence = [], cs_segments = [], cs_gaps = []\<rparr>"

definition sample_segment :: coverage_segment where
  "sample_segment = \<lparr>sg_segment_id = ''segment_0'',
     sg_floor = \<lparr>cp_slot = 0, cp_block_id = sample_id (CHR ''0''), cp_parent_id = sample_id (CHR ''f'')\<rparr>,
     sg_frontier = \<lparr>br_slot = 3, br_block_id = sample_id (CHR ''3'')\<rparr>, sg_reaches_target_lib = True\<rparr>"

definition sample_evidence :: evidence_reference where
  "sample_evidence = \<lparr>ev_evidence_id = ''evidence_1'', ev_channel_id = sample_id (CHR ''c''),
     ev_coverage_segment_id = ''segment_0'', ev_l1_slot = 2, ev_block_id = sample_id (CHR ''2''),
     ev_transaction_hash = None, ev_operation_index = 0, ev_message_id = None,
     ev_evidence_kind = RawInscription, ev_evidence_use = Presence\<rparr>"

definition sample_zone :: zone_record where
  "sample_zone = \<lparr>zr_channel_id = sample_id (CHR ''c''), zr_observed_label = None,
     zr_l1_channel = \<lparr>lc_tip_slot = Some 2, lc_tip_hash = None, lc_lib_slot = None, lc_balance = None,
       lc_key_count = None, lc_withdraw_threshold = None, lc_operation_count = 1, lc_finality_state = L1Final\<rparr>,
     zr_sequencer_committee = None,
     zr_classification = \<lparr>cc_channel_operations = 0, cc_recognized_l2_blocks = 0, cc_raw_inscriptions = 1,
       cc_conflicting_evidence = False\<rparr>,
     zr_first_seen_slot = 2, zr_last_seen_slot = 2, zr_latest_evidence_id = ''evidence_1'',
     zr_evidence_count = 1,
     zr_snapshot_provenance = \<lparr>sp_origin = ReplayDerived, sp_coverage_segment_id = ''segment_0'',
       sp_observed_slot = 2, sp_source_revision = 1\<rparr>, zr_updated_at_unix = 6\<rparr>"

definition sample_batch :: catalog_batch where
  "sample_batch = \<lparr>cb_expected_catalog_revision = 0, cb_updated_at_unix = 6,
     cb_upsert_zones = [sample_zone], cb_delete_zone_ids = [], cb_upsert_evidence = [sample_evidence],
     cb_delete_evidence_ids = [], cb_upsert_segments = [sample_segment], cb_delete_segment_ids = [],
     cb_upsert_gaps = [], cb_delete_gap_ids = [], cb_frontier = None, cb_traversal = None\<rparr>"

lemma sample_batch_applies: "is_ok (apply_batch_to_snapshot empty_snapshot sample_metadata sample_batch)"
  by code_simp

theorem incremental_validation_exact_witness:
  "\<exists>s'. apply_batch_records_to empty_snapshot sample_metadata sample_batch = Ok s'
     \<and> validate_snapshot s' = Ok ()"
proof -
  have h: "sorted_snapshot empty_snapshot" "validate_snapshot empty_snapshot = Ok ()"
    "validate_batch sample_batch = Ok ()"
    "cm_catalog_revision (cs_metadata empty_snapshot) = cb_expected_catalog_revision sample_batch"
    by (simp add: sorted_snapshot_def empty_snapshot_def, code_simp, code_simp,
        simp add: empty_snapshot_def sample_metadata_def sample_batch_def)
  show ?thesis
    using sample_batch_applies incremental_validation_exact[OF h, of sample_metadata]
    unfolding is_ok_iff by blast
qed

end
