(* ===== verification/Catalog_Database.thy ===== *)
theory Catalog_Database
  imports Catalog_Incremental
begin

text \<open>
  The persistent side of the catalog store, from \<^verbatim>\<open>src/src/inspection/catalog/store.rs\<close>: the
  five tables, the versioned record encoding, reading a snapshot, creating a catalog, committing a
  batch with and without a held snapshot, and updating the metadata.

  A redb table is a key-sorted map from strings to bytes; a write transaction that is dropped
  leaves the database as it was, so an error returns no new database. Failures of redb itself are not modelled. The JSON codec of each record type is a
  parameter; the one property used of it is that decoding what was encoded gives the value back.

  The central result: a worker that commits batches through its held snapshot always holds exactly
  what reading the tables gives.
\<close>

section \<open>Tables and codecs\<close>

type_synonym table = "(string, bytes) btree"

record 'r codec =
  cd_encode :: "u32 \<times> 'r \<Rightarrow> bytes option"
  cd_decode :: "bytes \<Rightarrow> (u32 \<times> 'r) option"

record codecs =
  cd_schema :: "u32 codec"
  cd_metadata :: "catalog_metadata codec"
  cd_frontier :: "frontier codec"
  cd_traversal :: "traversal codec"
  cd_zone :: "zone_record codec"
  cd_evidence :: "evidence_reference codec"
  cd_segment :: "coverage_segment codec"
  cd_gap :: "coverage_gap codec"

record database =
  db_metadata :: table
  db_zones :: table
  db_evidence :: table
  db_segments :: table
  db_gaps :: table

record catalog_store =
  st_read_only :: bool
  st_database :: database

definition CATALOG_SCHEMA_VERSION :: u32 where "CATALOG_SCHEMA_VERSION = 1"
definition CATALOG_RECORD_VERSION :: u32 where "CATALOG_RECORD_VERSION = 1"

section \<open>Writing\<close>

definition insert_raw :: "'r codec \<Rightarrow> string \<Rightarrow> u32 \<times> 'r \<Rightarrow> table \<Rightarrow> table catalog_result" where
  "insert_raw c key v t =
     and_then (ok_or (cd_encode c v) (Storage EncodeFailed)) (\<lambda>bytes. Ok (bt_insert key bytes t))"

definition insert_versioned :: "'r codec \<Rightarrow> string \<Rightarrow> 'r \<Rightarrow> table \<Rightarrow> table catalog_result" where
  "insert_versioned c key v t = insert_raw c key (CATALOG_RECORD_VERSION, v) t"

definition replace_optional_versioned ::
  "'r codec \<Rightarrow> string \<Rightarrow> 'r option \<Rightarrow> table \<Rightarrow> table catalog_result" where
  "replace_optional_versioned c key v t =
     (case v of Some v \<Rightarrow> insert_versioned c key v t | None \<Rightarrow> Ok (bt_remove key t))"

definition upsert_records :: "'r codec \<Rightarrow> ('r \<Rightarrow> string) \<Rightarrow> 'r list \<Rightarrow> table \<Rightarrow> table catalog_result" where
  "upsert_records c key records t = fold_result (\<lambda>t r. insert_versioned c (key r) r t) t records"

definition delete_records :: "string list \<Rightarrow> table \<Rightarrow> table" where
  "delete_records keys t = foldl (\<lambda>t k. bt_remove k t) t keys"

definition apply_table_records ::
  "'r codec \<Rightarrow> ('r \<Rightarrow> string) \<Rightarrow> 'r list \<Rightarrow> string list \<Rightarrow> table \<Rightarrow> table catalog_result" where
  "apply_table_records c key upserts deletes t =
     and_then (upsert_records c key upserts t) (\<lambda>t. Ok (delete_records deletes t))"

definition apply_batch_records :: "codecs \<Rightarrow> catalog_batch \<Rightarrow> database \<Rightarrow> database catalog_result" where
  "apply_batch_records cd b db =
     and_then (apply_table_records (cd_zone cd) zr_channel_id (cb_upsert_zones b)
         (cb_delete_zone_ids b) (db_zones db)) (\<lambda>zones.
     and_then (apply_table_records (cd_evidence cd) ev_evidence_id (cb_upsert_evidence b)
         (cb_delete_evidence_ids b) (db_evidence db)) (\<lambda>evidence.
     and_then (apply_table_records (cd_segment cd) sg_segment_id (cb_upsert_segments b)
         (cb_delete_segment_ids b) (db_segments db)) (\<lambda>segments.
     and_then (apply_table_records (cd_gap cd) gp_gap_id (cb_upsert_gaps b)
         (cb_delete_gap_ids b) (db_gaps db)) (\<lambda>gaps.
     Ok (db\<lparr>db_zones := zones, db_evidence := evidence, db_segments := segments, db_gaps := gaps\<rparr>)))))"

section \<open>Reading\<close>

definition decode_versioned :: "'r codec \<Rightarrow> record_label \<Rightarrow> bytes \<Rightarrow> 'r catalog_result" where
  "decode_versioned c l bytes = (case cd_decode c bytes of
     None \<Rightarrow> Err (Invalidated RecordDecode (RecordDecodeFailed l))
   | Some (version, r) \<Rightarrow>
       if version \<noteq> CATALOG_RECORD_VERSION
       then Err (Invalidated RecordVersion (RecordVersionMismatch l version)) else Ok r)"

definition read_required_versioned :: "'r codec \<Rightarrow> table \<Rightarrow> string \<Rightarrow> record_label \<Rightarrow> 'r catalog_result" where
  "read_required_versioned c t key l =
     and_then (ok_or (bt_get t key) (Invalidated RecordInvariant (RecordMissing l)))
       (decode_versioned c l)"

definition read_optional_versioned ::
  "'r codec \<Rightarrow> table \<Rightarrow> string \<Rightarrow> record_label \<Rightarrow> 'r option catalog_result" where
  "read_optional_versioned c t key l = (case bt_get t key of
     None \<Rightarrow> Ok None
   | Some bytes \<Rightarrow> and_then (decode_versioned c l bytes) (\<lambda>r. Ok (Some r)))"

definition read_record ::
  "'r codec \<Rightarrow> record_label \<Rightarrow> ('r \<Rightarrow> string) \<Rightarrow> string \<times> bytes \<Rightarrow> 'r catalog_result" where
  "read_record c l key = (\<lambda>(k, bytes).
     and_then (decode_versioned c l bytes) (\<lambda>r.
     if k \<noteq> key r then Err (Invalidated RecordInvariant (KeyMismatch l)) else Ok r))"

definition read_records ::
  "'r codec \<Rightarrow> table \<Rightarrow> record_label \<Rightarrow> ('r \<Rightarrow> string) \<Rightarrow> 'r list catalog_result" where
  "read_records c t l key = collect_result (read_record c l key) t"

definition validate_schema :: "codecs \<Rightarrow> table \<Rightarrow> unit catalog_result" where
  "validate_schema cd t =
     and_then (ok_or (bt_get t ''schema'') (Invalidated SchemaMissing SchemaRecordMissing)) (\<lambda>bytes.
     and_then (ok_or (cd_decode (cd_schema cd) bytes) (Invalidated RecordDecode SchemaDecodeFailed))
       (\<lambda>(schema_version, record_version).
     if schema_version \<noteq> CATALOG_SCHEMA_VERSION
     then Err (Invalidated SchemaVersion (SchemaVersionMismatch schema_version))
     else if record_version \<noteq> CATALOG_RECORD_VERSION
     then Err (Invalidated RecordVersion (SchemaRecordVersion record_version))
     else Ok ()))"

definition read_snapshot :: "codecs \<Rightarrow> database \<Rightarrow> catalog_snapshot catalog_result" where
  "read_snapshot cd db =
     and_then (validate_schema cd (db_metadata db)) (\<lambda>_.
     and_then (read_required_versioned (cd_metadata cd) (db_metadata db) ''catalog'' RMetadata) (\<lambda>metadata.
     and_then (read_optional_versioned (cd_frontier cd) (db_metadata db) ''frontier'' RFrontier) (\<lambda>frontier.
     and_then (read_optional_versioned (cd_traversal cd) (db_metadata db) ''traversal'' RTraversal) (\<lambda>traversal.
     and_then (read_records (cd_zone cd) (db_zones db) RZone zr_channel_id) (\<lambda>zones.
     and_then (read_records (cd_evidence cd) (db_evidence db) REvidence ev_evidence_id) (\<lambda>evidence.
     and_then (read_records (cd_segment cd) (db_segments db) RSegment sg_segment_id) (\<lambda>segments.
     and_then (read_records (cd_gap cd) (db_gaps db) RGap gp_gap_id) (\<lambda>gaps.
     let s = \<lparr>cs_metadata = metadata, cs_frontier = frontier, cs_traversal = traversal,
              cs_zones = zones, cs_evidence = evidence, cs_segments = segments, cs_gaps = gaps\<rparr>
     in and_then (validate_snapshot s) (\<lambda>_. Ok s)))))))))"

section \<open>The store\<close>

definition snapshot :: "codecs \<Rightarrow> catalog_store \<Rightarrow> catalog_snapshot catalog_result" where
  "snapshot cd st = read_snapshot cd (st_database st)"

definition create_store :: "codecs \<Rightarrow> bool \<Rightarrow> catalog_metadata \<Rightarrow> catalog_store catalog_result" where
  "create_store cd path_exists metadata =
     and_then (validate_metadata metadata) (\<lambda>_.
     if cm_catalog_revision metadata \<noteq> 0 then Err (InvalidInput NewRevisionNotZero)
     else if cm_updated_at_unix metadata < cm_created_at_unix metadata
     then Err (InvalidInput UpdatePrecedesCreation)
     else if path_exists then Err (InvalidInput PathExists)
     else
       and_then (insert_raw (cd_schema cd) ''schema'' (CATALOG_SCHEMA_VERSION, CATALOG_RECORD_VERSION) []) (\<lambda>t.
       and_then (insert_versioned (cd_metadata cd) ''catalog'' metadata t) (\<lambda>t.
       let st = \<lparr>st_read_only = False, st_database = \<lparr>db_metadata = t, db_zones = [], db_evidence = [],
                 db_segments = [], db_gaps = []\<rparr>\<rparr>
       in and_then (snapshot cd st) (\<lambda>_. Ok st))))"

definition open_store :: "codecs \<Rightarrow> bool \<Rightarrow> database \<Rightarrow> catalog_store catalog_result" where
  "open_store cd read_only db =
     (let st = \<lparr>st_read_only = read_only, st_database = db\<rparr>
      in and_then (snapshot cd st) (\<lambda>_. Ok st))"

text \<open>The metadata a commit writes: the revision after the expected one and the time of the batch.\<close>

definition next_metadata :: "catalog_metadata \<Rightarrow> u64 \<Rightarrow> catalog_metadata catalog_result" where
  "next_metadata metadata updated_at =
     and_then (ok_or (checked_add (cm_catalog_revision metadata) 1) (InvalidInput RevisionExhausted))
       (\<lambda>revision. Ok (metadata\<lparr>cm_catalog_revision := revision, cm_updated_at_unix := updated_at\<rparr>))"

definition read_current_metadata ::
  "codecs \<Rightarrow> database \<Rightarrow> u64 \<Rightarrow> u64 \<Rightarrow> catalog_metadata catalog_result" where
  "read_current_metadata cd db expected_revision updated_at =
     and_then (validate_schema cd (db_metadata db)) (\<lambda>_.
     and_then (read_required_versioned (cd_metadata cd) (db_metadata db) ''catalog'' RMetadata) (\<lambda>metadata.
     and_then (validate_persisted (validate_metadata metadata) RMetadata) (\<lambda>_.
     if cm_catalog_revision metadata \<noteq> expected_revision
     then Err (RevisionConflict expected_revision (cm_catalog_revision metadata))
     else if updated_at < cm_updated_at_unix metadata then Err (InvalidInput TimeMovesBackwards)
     else Ok metadata)))"

definition update_metadata ::
  "codecs \<Rightarrow> catalog_store \<Rightarrow> u64 \<Rightarrow> u64 \<Rightarrow> (catalog_metadata \<Rightarrow> catalog_metadata catalog_result)
   \<Rightarrow> (catalog_store \<times> catalog_snapshot) catalog_result" where
  "update_metadata cd st expected_revision updated_at update =
     (if st_read_only st then Err (InvalidInput ReadOnlyMetadataUpdate)
      else
        let db = st_database st in
        and_then (read_current_metadata cd db expected_revision updated_at) (\<lambda>previous.
        and_then (update previous) (\<lambda>metadata.
        if metadata = previous
        then and_then (map_err map_staged_error (read_snapshot cd db)) (\<lambda>s. Ok (st, s))
        else if cm_catalog_revision metadata \<noteq> cm_catalog_revision previous
                \<or> cm_created_at_unix metadata \<noteq> cm_created_at_unix previous
                \<or> cm_catalog_file_id metadata \<noteq> cm_catalog_file_id previous
        then Err (InvalidInput StoreOwnedFieldsChanged)
        else
          and_then (next_metadata metadata updated_at) (\<lambda>metadata.
          and_then (validate_metadata metadata) (\<lambda>_.
          and_then (insert_versioned (cd_metadata cd) ''catalog'' metadata (db_metadata db)) (\<lambda>t.
          let db = db\<lparr>db_metadata := t\<rparr> in
          and_then (map_err map_staged_error (read_snapshot cd db)) (\<lambda>s.
          Ok (st\<lparr>st_database := db\<rparr>, s))))))))"

definition write_batch ::
  "codecs \<Rightarrow> database \<Rightarrow> catalog_metadata \<Rightarrow> catalog_batch \<Rightarrow> (catalog_metadata \<times> database) catalog_result" where
  "write_batch cd db metadata b =
     and_then (apply_batch_records cd b db) (\<lambda>db.
     and_then (next_metadata metadata (cb_updated_at_unix b)) (\<lambda>metadata.
     and_then (insert_versioned (cd_metadata cd) ''catalog'' metadata (db_metadata db)) (\<lambda>t.
     and_then (replace_optional_versioned (cd_frontier cd) ''frontier'' (cb_frontier b) t) (\<lambda>t.
     and_then (replace_optional_versioned (cd_traversal cd) ''traversal'' (cb_traversal b) t) (\<lambda>t.
     Ok (metadata, db\<lparr>db_metadata := t\<rparr>))))))"

definition commit_batch_with_snapshot_hook ::
  "codecs \<Rightarrow> catalog_store \<Rightarrow> catalog_snapshot option \<Rightarrow> catalog_batch \<Rightarrow> unit catalog_result
   \<Rightarrow> (catalog_store \<times> catalog_snapshot) catalog_result" where
  "commit_batch_with_snapshot_hook cd st held b before_commit =
     and_then (validate_batch b) (\<lambda>_.
     if st_read_only st then Err (InvalidInput ReadOnlyCommit)
     else
       and_then (read_current_metadata cd (st_database st) (cb_expected_catalog_revision b)
           (cb_updated_at_unix b)) (\<lambda>metadata.
       and_then (write_batch cd (st_database st) metadata b) (\<lambda>(metadata, db).
       and_then (case held of
           None \<Rightarrow> map_err map_staged_error (read_snapshot cd db)
         | Some s \<Rightarrow> apply_batch_to_snapshot s metadata b) (\<lambda>s.
       and_then before_commit (\<lambda>_. Ok (st\<lparr>st_database := db\<rparr>, s))))))"

definition commit_batch ::
  "codecs \<Rightarrow> catalog_store \<Rightarrow> catalog_batch \<Rightarrow> (catalog_store \<times> catalog_snapshot) catalog_result" where
  "commit_batch cd st b = commit_batch_with_snapshot_hook cd st None b (Ok ())"

definition commit_batch_from_snapshot ::
  "codecs \<Rightarrow> catalog_store \<Rightarrow> catalog_snapshot \<Rightarrow> catalog_batch
   \<Rightarrow> (catalog_store \<times> catalog_snapshot) catalog_result" where
  "commit_batch_from_snapshot cd st s b = commit_batch_with_snapshot_hook cd st (Some s) b (Ok ())"

section \<open>What a table holds\<close>

definition codec_ok :: "'r codec \<Rightarrow> bool" where
  "codec_ok c \<longleftrightarrow> (\<forall>v bytes. cd_encode c v = Some bytes \<longrightarrow> cd_decode c bytes = Some v)"

definition codecs_ok :: "codecs \<Rightarrow> bool" where
  "codecs_ok cd \<longleftrightarrow> codec_ok (cd_schema cd) \<and> codec_ok (cd_metadata cd) \<and> codec_ok (cd_frontier cd)
     \<and> codec_ok (cd_traversal cd) \<and> codec_ok (cd_zone cd) \<and> codec_ok (cd_evidence cd)
     \<and> codec_ok (cd_segment cd) \<and> codec_ok (cd_gap cd)"

definition decodes :: "'r codec \<Rightarrow> bytes \<Rightarrow> 'r \<Rightarrow> bool" where
  "decodes c bytes r \<longleftrightarrow> cd_decode c bytes = Some (CATALOG_RECORD_VERSION, r)"

definition holds :: "'r codec \<Rightarrow> ('r \<Rightarrow> string) \<Rightarrow> table \<Rightarrow> 'r list \<Rightarrow> bool" where
  "holds c key t rs \<longleftrightarrow> list_all2 (\<lambda>(k, bytes) r. k = key r \<and> decodes c bytes r) t rs"

definition written :: "'r codec \<Rightarrow> 'r \<Rightarrow> bytes" where
  "written c r = the (cd_encode c (CATALOG_RECORD_VERSION, r))"

definition writable :: "'r codec \<Rightarrow> 'r \<Rightarrow> bool" where
  "writable c r \<longleftrightarrow> cd_encode c (CATALOG_RECORD_VERSION, r) \<noteq> None"

lemma codec_written: "codec_ok c \<Longrightarrow> writable c r \<Longrightarrow> decodes c (written c r) r"
  by (auto simp: codec_ok_def written_def decodes_def writable_def)

lemma decodes_unique: "decodes c bytes r \<Longrightarrow> decodes c bytes q \<Longrightarrow> r = q"
  by (simp add: decodes_def)

lemma rel_decodes_unique: "rel_option (decodes c) x v \<Longrightarrow> rel_option (decodes c) x u \<Longrightarrow> v = u"
  by (cases x; cases v; cases u) (auto dest: decodes_unique)

lemma decode_versioned_Ok [ok_simps]: "decode_versioned c l bytes = Ok r \<longleftrightarrow> decodes c bytes r"
  by (auto simp: decode_versioned_def decodes_def split: option.splits)

lemma read_records_Ok [ok_simps]: "read_records c t l key = Ok rs \<longleftrightarrow> holds c key t rs"
  unfolding read_records_def collect_result_Ok holds_def
  by (rule list.rel_cong[OF refl refl]) (auto simp: read_record_def ok_simps split: if_splits)

lemma read_optional_Ok [ok_simps]:
  "read_optional_versioned c t key l = Ok v \<longleftrightarrow> rel_option (decodes c) (bt_get t key) v"
  by (cases v) (auto simp: read_optional_versioned_def ok_simps split: option.splits)

lemma read_required_Ok [ok_simps]:
  "read_required_versioned c t key l = Ok r \<longleftrightarrow> rel_option (decodes c) (bt_get t key) (Some r)"
  by (auto simp: read_required_versioned_def ok_simps option_rel_Some2)

lemma rel_map_of:
  "list_all2 (\<lambda>(k, b) (j, r). k = j \<and> P b r) t es \<Longrightarrow> rel_option P (map_of t k) (map_of es k)"
  by (induction rule: list_all2_induct) auto

lemma holds_unique:
  assumes "holds c key t rs" "holds c key t qs"
  shows "rs = qs"
  using assms unfolding holds_def
  by (induction t arbitrary: rs qs) (auto simp: list_all2_Cons1 dest: decodes_unique)

lemma holds_keys: "holds c key t rs \<Longrightarrow> map fst t = map key rs"
  unfolding holds_def by (induction rule: list_all2_induct) auto

lemma holds_sorted: "bt_sorted t \<Longrightarrow> holds c key t rs \<Longrightarrow> key_sorted key rs"
  using holds_keys by metis

lemma holds_lookup:
  assumes "bt_sorted t" "holds c key t rs"
  shows "rel_option (decodes c) (bt_get t k) (find_record key rs k)"
proof -
  have "list_all2 (\<lambda>(k, b) (j, r). k = j \<and> decodes c b r) t (keyed_entries key rs)"
    using assms(2) unfolding holds_def by (induction rule: list_all2_induct) auto
  then show ?thesis
    unfolding bt_get_def find_record_sorted[OF holds_sorted[OF assms]] by (rule rel_map_of)
qed

lemma holdsI:
  assumes t: "bt_sorted t" and rs: "key_sorted key rs"
    and look: "\<And>k. rel_option (decodes c) (bt_get t k) (find_record key rs k)"
  shows "holds c key t rs"
proof -
  have none: "bt_get t k = None \<longleftrightarrow> find_record key rs k = None" for k
    using look[of k] by (auto simp: rel_option_iff split: option.splits)
  have "set (map fst t) = set (map key rs)"
    using none unfolding bt_get_def find_record_sorted[OF rs] map_of_keyed_entries_None
    by (auto simp: map_of_eq_None_iff)
  then have keys: "map fst t = map key rs" using t rs strictly_sorted_eq by blast
  have dist: "distinct (map fst t)" using t strictly_sorted_iff by blast
  have len: "length t = length rs" using keys by (metis length_map)
  show ?thesis unfolding holds_def
  proof (rule list_all2_all_nthI[OF len])
    fix n
    assume n: "n < length t"
    have n': "n < length rs" using len n by simp
    have k: "fst (t ! n) = key (rs ! n)" using arg_cong[OF keys, of "\<lambda>l. l ! n"] n n' by simp
    have "bt_get t (fst (t ! n)) = Some (snd (t ! n))"
      using dist n by (simp add: bt_get_def)
    moreover have "find_record key rs (key (rs ! n)) = Some (rs ! n)"
      using n' by (simp add: find_record_sorted[OF rs] map_of_keyed_entries[OF rs])
    ultimately show "(\<lambda>(k, bytes) r. k = key r \<and> decodes c bytes r) (t ! n) (rs ! n)"
      using look[of "fst (t ! n)"] k by (auto split: prod.splits)
  qed
qed

section \<open>What a commit writes\<close>

lemma insert_versioned_Ok [ok_simps]:
  "insert_versioned c key r t = Ok t' \<longleftrightarrow> writable c r \<and> t' = bt_insert key (written c r) t"
  by (auto simp: insert_versioned_def insert_raw_def written_def writable_def ok_simps)

lemma upsert_records_Ok [ok_simps]:
  "upsert_records c key us t = Ok t' \<longleftrightarrow> (\<forall>r \<in> set us. writable c r)
    \<and> t' = fold (\<lambda>(k, v). bt_insert k v) (map (\<lambda>r. (key r, written c r)) us) t"
  unfolding upsert_records_def by (induction us arbitrary: t) (auto simp: ok_simps)

lemma delete_records_lookup:
  "bt_get (delete_records ks t) k = (if k \<in> set ks then None else bt_get t k)"
  unfolding delete_records_def by (induction ks arbitrary: t) (auto simp: bt_get_remove)

lemma delete_records_sorted: "bt_sorted t \<Longrightarrow> bt_sorted (delete_records ks t)"
  unfolding delete_records_def by (induction ks arbitrary: t) (simp_all add: bt_remove_sorted)

lemma map_of_written:
  "map_of (map (\<lambda>r. (key r, written c r)) us) k
    = map_option (written c) (map_of (keyed_entries key us) k)"
  by (induction us) auto

lemma apply_table_records_holds:
  assumes t: "bt_sorted t" "holds c key t rs" and c: "codec_ok c" and keys: "distinct (map key us @ ds)"
    and rs': "apply_snapshot_records e key rs us ds = Ok rs'" and t': "apply_table_records c key us ds t = Ok t'"
  shows "bt_sorted t' \<and> holds c key t' rs'"
proof -
  let ?es = "map (\<lambda>r. (key r, written c r)) us"
  let ?t = "fold (\<lambda>(k, v). bt_insert k v) ?es t"
  have t'_def: "t' = delete_records ds ?t" and w: "\<And>r. r \<in> set us \<Longrightarrow> writable c r"
    using t' by (auto simp: apply_table_records_def ok_simps)
  have up: "bt_sorted ?t" "bt_get ?t k = (case map_of (rev ?es) k of Some v \<Rightarrow> Some v | None \<Rightarrow> bt_get t k)" for k
    using btree.fold_update[OF t(1), of ?es k] by auto
  have rev: "map_of (rev ?es) = map_of ?es" using keys by (intro map_of_rev_distinct) (simp add: comp_def)
  note look = applied_lookup[OF holds_sorted[OF t] keys rs']
  have "holds c key (delete_records ds ?t) rs'"
  proof (rule holdsI[OF delete_records_sorted[OF up(1)] look(1)])
    fix k
    have us: "k \<notin> set ds" "decodes c (written c r) r" if "map_of (keyed_entries key us) k = Some r" for r
      using map_of_SomeD[OF that] keys codec_written[OF c w] by fastforce+
    show "rel_option (decodes c) (bt_get (delete_records ds ?t) k) (find_record key rs' k)"
      unfolding delete_records_lookup up(2) rev map_of_written look(2)
      using us holds_lookup[OF t, of k] by (auto split: option.splits)
  qed
  then show ?thesis using delete_records_sorted[OF up(1)] by (simp add: t'_def)
qed

definition sorted_tables :: "database \<Rightarrow> bool" where
  "sorted_tables db \<longleftrightarrow> bt_sorted (db_metadata db) \<and> bt_sorted (db_zones db) \<and> bt_sorted (db_evidence db)
     \<and> bt_sorted (db_segments db) \<and> bt_sorted (db_gaps db)"

lemma read_snapshot_Ok:
  "read_snapshot cd db = Ok s \<longleftrightarrow>
     validate_schema cd (db_metadata db) = Ok ()
     \<and> rel_option (decodes (cd_metadata cd)) (bt_get (db_metadata db) ''catalog'') (Some (cs_metadata s))
     \<and> rel_option (decodes (cd_frontier cd)) (bt_get (db_metadata db) ''frontier'') (cs_frontier s)
     \<and> rel_option (decodes (cd_traversal cd)) (bt_get (db_metadata db) ''traversal'') (cs_traversal s)
     \<and> holds (cd_zone cd) zr_channel_id (db_zones db) (cs_zones s)
     \<and> holds (cd_evidence cd) ev_evidence_id (db_evidence db) (cs_evidence s)
     \<and> holds (cd_segment cd) sg_segment_id (db_segments db) (cs_segments s)
     \<and> holds (cd_gap cd) gp_gap_id (db_gaps db) (cs_gaps s) \<and> validate_snapshot s = Ok ()"
  unfolding read_snapshot_def Let_def and_then_Ok read_required_Ok read_optional_Ok read_records_Ok result.inject
  by (cases s) auto

lemma read_snapshotD:
  assumes "read_snapshot cd db = Ok s"
  shows "holds (cd_zone cd) zr_channel_id (db_zones db) (cs_zones s)"
    "holds (cd_evidence cd) ev_evidence_id (db_evidence db) (cs_evidence s)"
    "holds (cd_segment cd) sg_segment_id (db_segments db) (cs_segments s)"
    "holds (cd_gap cd) gp_gap_id (db_gaps db) (cs_gaps s)" "validate_snapshot s = Ok ()"
  using assms by (simp_all add: read_snapshot_Ok)

lemma sorted_tablesD:
  assumes "sorted_tables db"
  shows "bt_sorted (db_metadata db)" "bt_sorted (db_zones db)" "bt_sorted (db_evidence db)"
    "bt_sorted (db_segments db)" "bt_sorted (db_gaps db)"
  using assms by (simp_all add: sorted_tables_def)

lemma read_snapshot_sorted:
  assumes "sorted_tables db" "read_snapshot cd db = Ok s"
  shows "sorted_snapshot s" "valid_snapshot s"
proof -
  show srt: "sorted_snapshot s"
    unfolding sorted_snapshot_def
    by (intro conjI holds_sorted[OF sorted_tablesD(2)[OF assms(1)] read_snapshotD(1)[OF assms(2)]]
        holds_sorted[OF sorted_tablesD(3)[OF assms(1)] read_snapshotD(2)[OF assms(2)]]
        holds_sorted[OF sorted_tablesD(4)[OF assms(1)] read_snapshotD(3)[OF assms(2)]]
        holds_sorted[OF sorted_tablesD(5)[OF assms(1)] read_snapshotD(4)[OF assms(2)]])
  show "valid_snapshot s" using read_snapshotD(5)[OF assms(2)] validate_snapshot_iff[OF srt] by simp
qed

lemma apply_batch_records_holds:
  assumes db: "sorted_tables db" "read_snapshot cd db = Ok s" and cd: "codecs_ok cd" and app: "applied s b s'"
    and db': "apply_batch_records cd b db = Ok db'"
  shows "db_metadata db' = db_metadata db" "sorted_tables db'"
    "holds (cd_zone cd) zr_channel_id (db_zones db') (cs_zones s')"
    "holds (cd_evidence cd) ev_evidence_id (db_evidence db') (cs_evidence s')"
    "holds (cd_segment cd) sg_segment_id (db_segments db') (cs_segments s')"
    "holds (cd_gap cd) gp_gap_id (db_gaps db') (cs_gaps s')"
proof -
  note srt = sorted_tablesD[OF db(1)] and h = read_snapshotD[OF db(2)]
  have c: "codec_ok (cd_zone cd)" "codec_ok (cd_evidence cd)" "codec_ok (cd_segment cd)" "codec_ok (cd_gap cd)"
    using cd by (simp_all add: codecs_ok_def)
  note keys = applied_sorted(5-8)[OF app] and parts = applied_parts[OF app]
  obtain zs es gs ps where
    t: "apply_table_records (cd_zone cd) zr_channel_id (cb_upsert_zones b) (cb_delete_zone_ids b) (db_zones db) = Ok zs"
    "apply_table_records (cd_evidence cd) ev_evidence_id (cb_upsert_evidence b) (cb_delete_evidence_ids b)
      (db_evidence db) = Ok es"
    "apply_table_records (cd_segment cd) sg_segment_id (cb_upsert_segments b) (cb_delete_segment_ids b)
      (db_segments db) = Ok gs"
    "apply_table_records (cd_gap cd) gp_gap_id (cb_upsert_gaps b) (cb_delete_gap_ids b) (db_gaps db) = Ok ps"
    and eq: "db' = db\<lparr>db_zones := zs, db_evidence := es, db_segments := gs, db_gaps := ps\<rparr>"
    using db' unfolding apply_batch_records_def and_then_Ok result.inject by blast
  note z = apply_table_records_holds[OF srt(2) h(1) c(1) keys(1) parts(1) t(1)]
    and e = apply_table_records_holds[OF srt(3) h(2) c(2) keys(2) parts(2) t(2)]
    and g = apply_table_records_holds[OF srt(4) h(3) c(3) keys(3) parts(3) t(3)]
    and p = apply_table_records_holds[OF srt(5) h(4) c(4) keys(4) parts(4) t(4)]
  show "db_metadata db' = db_metadata db" "sorted_tables db'"
    "holds (cd_zone cd) zr_channel_id (db_zones db') (cs_zones s')"
    "holds (cd_evidence cd) ev_evidence_id (db_evidence db') (cs_evidence s')"
    "holds (cd_segment cd) sg_segment_id (db_segments db') (cs_segments s')"
    "holds (cd_gap cd) gp_gap_id (db_gaps db') (cs_gaps s')"
    using srt(1) z e g p by (simp_all add: eq sorted_tables_def)
qed

lemma replace_optional_Ok:
  assumes "codec_ok c" "bt_sorted t" "replace_optional_versioned c key v t = Ok t'"
  shows "bt_sorted t'" "rel_option (decodes c) (bt_get t' key) v" "\<And>k. k \<noteq> key \<Longrightarrow> bt_get t' k = bt_get t k"
proof -
  consider (none) "v = None" "t' = bt_remove key t"
    | (some) r where "v = Some r" "writable c r" "t' = bt_insert key (written c r) t"
    using assms(3) by (cases v) (auto simp: replace_optional_versioned_def ok_simps)
  then show "bt_sorted t'" "rel_option (decodes c) (bt_get t' key) v" "\<And>k. k \<noteq> key \<Longrightarrow> bt_get t' k = bt_get t k"
    using bt_remove_sorted[OF assms(2)] bt_insert_sorted[OF assms(2)] codec_written[OF assms(1)]
    by (cases; simp add: bt_get_remove bt_get_insert[OF assms(2)])+
qed

lemma validate_schema_cong: "bt_get t ''schema'' = bt_get u ''schema'' \<Longrightarrow> validate_schema cd t = validate_schema cd u"
  by (simp add: validate_schema_def)

text \<open>
  The tables a commit writes read back as the held snapshot with the batch applied, as long as the
  full validation accepts that.
\<close>

lemma write_batch_reads:
  assumes db: "sorted_tables db" "read_snapshot cd db = Ok s" and cd: "codecs_ok cd" and keys: "batch_keys_ok b"
    and w: "write_batch cd db (cs_metadata s) b = Ok (md, db')"
  shows "\<exists>s'. sorted_tables db' \<and> apply_batch_records_to s md b = Ok s' \<and> applied s b s'
    \<and> (\<forall>r. read_snapshot cd db' = Ok r \<longleftrightarrow> r = s' \<and> validate_snapshot s' = Ok ())"
proof -
  obtain s' where s': "apply_batch_records_to s md b = Ok s'" "applied s b s'"
    using applied_total[OF read_snapshot_sorted(1)[OF db] keys] by blast
  have hd: "cs_metadata s' = md" "cs_frontier s' = cb_frontier b" "cs_traversal s' = cb_traversal b"
    using s'(1) unfolding apply_batch_records_to_Ok by auto
  have c: "codec_ok (cd_metadata cd)" "codec_ok (cd_frontier cd)" "codec_ok (cd_traversal cd)"
    using cd by (simp_all add: codecs_ok_def)
  obtain db1 t2 t3 where db1: "apply_batch_records cd b db = Ok db1" and wr: "writable (cd_metadata cd) md"
    and t2: "replace_optional_versioned (cd_frontier cd) ''frontier'' (cb_frontier b)
      (bt_insert ''catalog'' (written (cd_metadata cd) md) (db_metadata db1)) = Ok t2"
    and t3: "replace_optional_versioned (cd_traversal cd) ''traversal'' (cb_traversal b) t2 = Ok t3"
    and db': "db' = db1\<lparr>db_metadata := t3\<rparr>"
    using w unfolding write_batch_def and_then_Ok insert_versioned_Ok result.inject prod.inject by blast
  note h = apply_batch_records_holds[OF db cd s'(2) db1]
  have srt: "bt_sorted (db_metadata db)" using db(1) by (simp add: sorted_tables_def)
  note f = replace_optional_Ok[OF c(2) bt_insert_sorted[OF srt] t2[unfolded h(1)]]
  note t = replace_optional_Ok[OF c(3) f(1) t3]
  have md: "decodes (cd_metadata cd) (written (cd_metadata cd) md) md" by (rule codec_written[OF c(1) wr])
  have look: "bt_get t3 ''catalog'' = Some (written (cd_metadata cd) md)"
    "bt_get t3 ''schema'' = bt_get (db_metadata db) ''schema''"
    "bt_get t3 ''frontier'' = bt_get t2 ''frontier''"
    using t(3) f(3) by (simp_all add: bt_get_insert[OF srt])
  have "read_snapshot cd db' = Ok r \<longleftrightarrow> r = s' \<and> validate_snapshot s' = Ok ()" for r
  proof
    assume r: "read_snapshot cd db' = Ok r"
    have "cs_metadata r = md" "cs_frontier r = cb_frontier b" "cs_traversal r = cb_traversal b"
      using r f(2) t(2) md unfolding read_snapshot_Ok db'
      by (auto simp: look intro: rel_decodes_unique decodes_unique)
    moreover have "cs_zones r = cs_zones s'" "cs_evidence r = cs_evidence s'" "cs_segments r = cs_segments s'"
      "cs_gaps r = cs_gaps s'"
      using read_snapshotD[OF r[unfolded db']] by (auto intro: holds_unique[OF _ h(3)] holds_unique[OF _ h(4)]
          holds_unique[OF _ h(5)] holds_unique[OF _ h(6)])
    ultimately have "r = s'" using hd by simp
    then show "r = s' \<and> validate_snapshot s' = Ok ()" using r unfolding read_snapshot_Ok by simp
  next
    assume "r = s' \<and> validate_snapshot s' = Ok ()"
    then show "read_snapshot cd db' = Ok r"
      using db(2) h(3-6) f(2) t(2) hd md validate_schema_cong[OF look(2)]
      unfolding read_snapshot_Ok db' by (simp add: look)
  qed
  moreover have "sorted_tables db'" using h(2) t(1) by (simp add: sorted_tables_def db')
  ultimately show ?thesis using s' by blast
qed

section \<open>The held snapshot\<close>

definition consistent :: "codecs \<Rightarrow> catalog_store \<Rightarrow> catalog_snapshot \<Rightarrow> bool" where
  "consistent cd st s \<longleftrightarrow> sorted_tables (st_database st) \<and> snapshot cd st = Ok s"

lemma read_current_metadata_Ok:
  assumes "read_snapshot cd db = Ok s"
  shows "read_current_metadata cd db revision now = Ok md \<longleftrightarrow> md = cs_metadata s
    \<and> cm_catalog_revision md = revision \<and> cm_updated_at_unix md \<le> now"
proof -
  have "validate_schema cd (db_metadata db) = Ok ()"
    "read_required_versioned (cd_metadata cd) (db_metadata db) ''catalog'' RMetadata = Ok (cs_metadata s)"
    using assms by (simp_all add: read_snapshot_Ok read_required_Ok)
  moreover have "validate_persisted (validate_metadata (cs_metadata s)) RMetadata = Ok ()"
    using read_snapshotD(5)[OF assms] by (auto simp: validate_snapshot_def validate_header_def Let_def and_then_Ok)
  ultimately show ?thesis by (auto simp: read_current_metadata_def not_less)
qed

text \<open>The two commit paths, on a store whose tables hold the held snapshot.\<close>

lemma commit_paths:
  assumes con: "consistent cd st s" and cd: "codecs_ok cd"
  shows "commit_batch_from_snapshot cd st s b = Ok (st', s') \<longleftrightarrow> commit_batch cd st b = Ok (st', s')"
    and "commit_batch cd st b = Ok (st', s') \<Longrightarrow> consistent cd st' s'"
proof -
  have db: "sorted_tables (st_database st)" "read_snapshot cd (st_database st) = Ok s"
    using con by (simp_all add: consistent_def snapshot_def)
  note md = read_current_metadata_Ok[OF db(2)]
  have "(commit_batch_from_snapshot cd st s b = Ok (st', s') \<longleftrightarrow> commit_batch cd st b = Ok (st', s'))
    \<and> (commit_batch cd st b = Ok (st', s') \<longrightarrow> consistent cd st' s')"
  proof (cases "validate_batch b = Ok () \<and> \<not> st_read_only st
      \<and> cm_catalog_revision (cs_metadata s) = cb_expected_catalog_revision b
      \<and> cm_updated_at_unix (cs_metadata s) \<le> cb_updated_at_unix b
      \<and> (\<exists>m. write_batch cd (st_database st) (cs_metadata s) b = Ok m)")
    case False
    then have "\<not> (\<exists>held. commit_batch_with_snapshot_hook cd st held b (Ok ()) = Ok (st', s'))"
      by (auto simp: commit_batch_with_snapshot_hook_def and_then_Ok md split: if_splits)
    then show ?thesis by (simp add: commit_batch_def commit_batch_from_snapshot_def)
  next
    case True
    then obtain m db' where b: "validate_batch b = Ok ()" "\<not> st_read_only st"
      "cm_catalog_revision (cs_metadata s) = cb_expected_catalog_revision b"
      and m: "write_batch cd (st_database st) (cs_metadata s) b = Ok (m, db')" by auto
    have cur: "read_current_metadata cd (st_database st) (cb_expected_catalog_revision b) (cb_updated_at_unix b)
        = Ok (cs_metadata s)" using True md by simp
    obtain r where w: "sorted_tables db'" "apply_batch_records_to s m b = Ok r" "applied s b r"
      and reads: "\<And>q. read_snapshot cd db' = Ok q \<longleftrightarrow> q = r \<and> validate_snapshot r = Ok ()"
      using write_batch_reads[OF db cd validate_batch_keys[OF b(1)] m] by blast
    have "apply_batch_to_snapshot s m b = Ok q \<longleftrightarrow> q = r \<and> validate_snapshot r = Ok ()" for q
      unfolding apply_batch_to_snapshot_iff[OF read_snapshot_sorted[OF db] b(1,3)]
      using w(2,3) validate_snapshot_iff[OF applied_sorted_after[OF w(3)]] by auto
    then show ?thesis using b cur m w(1) reads
      by (auto simp: commit_batch_def commit_batch_from_snapshot_def commit_batch_with_snapshot_hook_def
          ok_simps consistent_def snapshot_def)
  qed
  then show "commit_batch_from_snapshot cd st s b = Ok (st', s') \<longleftrightarrow> commit_batch cd st b = Ok (st', s')"
    "commit_batch cd st b = Ok (st', s') \<Longrightarrow> consistent cd st' s'" by blast+
qed

section \<open>Metadata updates\<close>

lemma next_metadata_Ok:
  "next_metadata m now = Ok m' \<Longrightarrow> cm_created_at_unix m' = cm_created_at_unix m
    \<and> cm_catalog_file_id m' = cm_catalog_file_id m \<and> cm_updated_at_unix m' = now
    \<and> unat (cm_catalog_revision m') = unat (cm_catalog_revision m) + 1"
  by (auto simp: next_metadata_def ok_simps checked_add_u64)

lemma metadata_write_reads:
  assumes db: "sorted_tables db" "read_snapshot cd db = Ok s" and cd: "codecs_ok cd"
    and t: "insert_versioned (cd_metadata cd) ''catalog'' md (db_metadata db) = Ok t"
    and r: "read_snapshot cd (db\<lparr>db_metadata := t\<rparr>) = Ok r"
  shows "sorted_tables (db\<lparr>db_metadata := t\<rparr>) \<and> r = s\<lparr>cs_metadata := md\<rparr>"
proof -
  have srt: "bt_sorted (db_metadata db)" using db(1) by (simp add: sorted_tables_def)
  have t': "t = bt_insert ''catalog'' (written (cd_metadata cd) md) (db_metadata db)"
    and "decodes (cd_metadata cd) (written (cd_metadata cd) md) md"
    using t cd by (auto simp: insert_versioned_Ok codecs_ok_def codec_written)
  then have "cs_metadata r = md" "cs_frontier r = cs_frontier s" "cs_traversal r = cs_traversal s"
    using r db(2) unfolding read_snapshot_Ok
    by (auto simp: bt_get_insert[OF srt] intro: rel_decodes_unique decodes_unique)
  moreover have "cs_zones r = cs_zones s" "cs_evidence r = cs_evidence s" "cs_segments r = cs_segments s" "cs_gaps r = cs_gaps s"
    using read_snapshotD[OF r] read_snapshotD[OF db(2)] by (auto intro: holds_unique)
  moreover have "sorted_tables (db\<lparr>db_metadata := t\<rparr>)"
    using db(1) bt_insert_sorted[OF srt] by (simp add: sorted_tables_def t')
  ultimately show ?thesis by simp
qed

text \<open>An accepted metadata update either found nothing to change or wrote the next revision.\<close>

lemma update_metadata_Ok:
  assumes "codecs_ok cd" "consistent cd st s" "update_metadata cd st revision now update = Ok (st', s')"
  shows "consistent cd st' s' \<and> st_read_only st' = st_read_only st \<and> cm_catalog_revision (cs_metadata s) = revision
    \<and> (\<exists>m. update (cs_metadata s) = Ok m
        \<and> (m = cs_metadata s \<and> s' = s
           \<or> m \<noteq> cs_metadata s \<and> (\<exists>m'. next_metadata m now = Ok m' \<and> validate_metadata m' = Ok () \<and> s' = s\<lparr>cs_metadata := m'\<rparr>)
             \<and> cm_catalog_revision m = cm_catalog_revision (cs_metadata s)
             \<and> cm_created_at_unix m = cm_created_at_unix (cs_metadata s)
             \<and> cm_catalog_file_id m = cm_catalog_file_id (cs_metadata s)))"
proof -
  have db: "sorted_tables (st_database st)" "read_snapshot cd (st_database st) = Ok s"
    using assms(2) by (simp_all add: snapshot_def consistent_def)
  obtain m where cur: "read_current_metadata cd (st_database st) revision now = Ok (cs_metadata s)"
    and m: "update (cs_metadata s) = Ok m" and rev: "cm_catalog_revision (cs_metadata s) = revision"
    using assms(3) read_current_metadata_Ok[OF db(2)]
    by (auto simp: update_metadata_def and_then_Ok Let_def split: if_splits)
  show ?thesis
  proof (cases "m = cs_metadata s")
    case True
    then show ?thesis using assms(3) cur m db rev
      by (auto simp: update_metadata_def Let_def snapshot_def consistent_def split: if_splits)
  next
    case False
    then obtain m' t where m': "next_metadata m now = Ok m'" "validate_metadata m' = Ok ()"
        "cm_catalog_revision m = cm_catalog_revision (cs_metadata s)"
        "cm_created_at_unix m = cm_created_at_unix (cs_metadata s)" "cm_catalog_file_id m = cm_catalog_file_id (cs_metadata s)"
      and t: "insert_versioned (cd_metadata cd) ''catalog'' m' (db_metadata (st_database st)) = Ok t"
        "read_snapshot cd ((st_database st)\<lparr>db_metadata := t\<rparr>) = Ok s'"
      and st': "st' = st\<lparr>st_database := (st_database st)\<lparr>db_metadata := t\<rparr>\<rparr>"
      using assms(3) cur m by (auto simp: update_metadata_def Let_def and_then_Ok map_err_Ok split: if_splits)
    have "s' = s\<lparr>cs_metadata := m'\<rparr>" "sorted_tables (st_database st')"
      using metadata_write_reads[OF db assms(1) t] by (simp_all add: st')
    then show ?thesis using False m rev m' t(2) st' by (auto simp: snapshot_def consistent_def)
  qed
qed

section \<open>The properties\<close>

text \<open>
  C22: A worker that opens a catalog and then commits any sequence of batches through the snapshot it
  holds, each commit validated incrementally, holds at the close exactly the snapshot that reading
  and fully validating the tables returns. The codec is only assumed to decode what it encoded.
\<close>

theorem held_snapshot_is_persisted:
  assumes "codecs_ok cd" "sorted_tables (st_database st)" "snapshot cd st = Ok s"
    and "fold_result (\<lambda>(st, s) b. commit_batch_from_snapshot cd st s b) (st, s) bs = Ok (st', s')"
  shows "snapshot cd st' = Ok s'"
proof -
  have "case (st', s') of (st, s) \<Rightarrow> consistent cd st s"
    using assms(4)
  proof (rule fold_result_invariant)
    show "case (st, s) of (st, s) \<Rightarrow> consistent cd st s" using assms(2,3) by (simp add: consistent_def)
  next
    fix x b y
    assume "case x of (st, s) \<Rightarrow> consistent cd st s" "(case x of (st, s) \<Rightarrow> commit_batch_from_snapshot cd st s) b = Ok y"
    then show "case y of (st, s) \<Rightarrow> consistent cd st s"
      using commit_paths[OF _ assms(1)] by (cases x; cases y) auto
  qed
  then show ?thesis by (simp add: consistent_def)
qed

text \<open>
  C23: Committing through the held snapshot and committing by rereading the whole database are the same
  function: they accept the same batches and produce the same tables and the same snapshot.
\<close>

theorem held_commit_equals_reread:
  assumes "codecs_ok cd" "sorted_tables (st_database st)" "snapshot cd st = Ok s"
  shows "commit_batch_from_snapshot cd st s b = Ok r \<longleftrightarrow> commit_batch cd st b = Ok r"
proof -
  have "consistent cd st s" using assms(2,3) by (simp add: consistent_def)
  then show ?thesis using commit_paths(1)[OF _ assms(1)] by (cases r) blast
qed

lemma create_store_Ok:
  assumes "codecs_ok cd" "create_store cd path_exists md = Ok st"
  shows "snapshot cd st = Ok \<lparr>cs_metadata = md, cs_frontier = None, cs_traversal = None, cs_zones = [],
      cs_evidence = [], cs_segments = [], cs_gaps = []\<rparr>
    \<and> open_store cd read_only (st_database st) = Ok \<lparr>st_read_only = read_only, st_database = st_database st\<rparr>
    \<and> sorted_tables (st_database st)"
proof -
  let ?c = "cd_metadata cd"
  obtain x r where st: "st = \<lparr>st_read_only = False, st_database = \<lparr>db_metadata = [(''catalog'', written ?c md), (''schema'', x)],
      db_zones = [], db_evidence = [], db_segments = [], db_gaps = []\<rparr>\<rparr>" and w: "writable ?c md"
    and r: "snapshot cd st = Ok r"
    using assms(2) by (auto simp: create_store_def insert_raw_def ok_simps Let_def split: if_splits)
  have d: "decodes ?c (written ?c md) md" using w assms(1) by (simp add: codecs_ok_def codec_written)
  have "cs_metadata r = md" "cs_frontier r = None" "cs_traversal r = None" "cs_zones r = []"
    "cs_evidence r = []" "cs_segments r = []" "cs_gaps r = []"
    using r d unfolding snapshot_def read_snapshot_Ok st
    by (auto simp: bt_get_def holds_def intro: decodes_unique)
  then have "r = \<lparr>cs_metadata = md, cs_frontier = None, cs_traversal = None, cs_zones = [],
      cs_evidence = [], cs_segments = [], cs_gaps = []\<rparr>" by simp
  then show ?thesis using r by (simp add: open_store_def snapshot_def sorted_tables_def st)
qed

text \<open>
  C24: A catalog that was created reads back as the metadata it was created with and no records, and
  its file can be opened again, for writing or for reading only.
\<close>

theorem created_catalog_reads_back:
  assumes "codecs_ok cd" "create_store cd path_exists md = Ok st"
  shows "snapshot cd st = Ok \<lparr>cs_metadata = md, cs_frontier = None, cs_traversal = None, cs_zones = [],
      cs_evidence = [], cs_segments = [], cs_gaps = []\<rparr>
    \<and> open_store cd read_only (st_database st) = Ok \<lparr>st_read_only = read_only, st_database = st_database st\<rparr>"
  using create_store_Ok[OF assms] by blast

text \<open>
  C25: A metadata update leaves every record and the coverage state as they were, keeps the fields the
  store owns, and either changes nothing or raises the revision by exactly one, without
  wrap-around; what it returns is what the tables then hold.
\<close>

theorem metadata_update_is_local:
  assumes "codecs_ok cd" "sorted_tables (st_database st)" "snapshot cd st = Ok s"
    and "update_metadata cd st revision now update = Ok (st', s')"
  shows "snapshot cd st' = Ok s' \<and> s' = s\<lparr>cs_metadata := cs_metadata s'\<rparr>
    \<and> cm_catalog_file_id (cs_metadata s') = cm_catalog_file_id (cs_metadata s)
    \<and> cm_created_at_unix (cs_metadata s') = cm_created_at_unix (cs_metadata s)
    \<and> (s' = s \<or> unat (cm_catalog_revision (cs_metadata s')) = unat (cm_catalog_revision (cs_metadata s)) + 1)"
  using update_metadata_Ok[OF assms(1) _ assms(4)] assms(2,3)
  by (auto simp: consistent_def dest: next_metadata_Ok)

section \<open>A concrete store\<close>

text \<open>A codec that knows two values, enough to write the records of the sample batch.\<close>

definition two_codec :: "u32 \<times> 'r \<Rightarrow> u32 \<times> 'r \<Rightarrow> 'r codec" where
  "two_codec a b = \<lparr>cd_encode = (\<lambda>v. if v = a then Some [0] else if v = b then Some [1] else None),
     cd_decode = (\<lambda>bytes. if bytes = [0] then Some a else if bytes = [1] then Some b else None)\<rparr>"

lemma two_codec_ok: "codec_ok (two_codec a b)"
  by (auto simp: codec_ok_def two_codec_def)

definition sample_next_metadata :: catalog_metadata where
  "sample_next_metadata = sample_metadata\<lparr>cm_catalog_revision := 1, cm_updated_at_unix := 6\<rparr>"

definition sample_codecs :: codecs where
  "sample_codecs = \<lparr>cd_schema = two_codec (1, 1) (1, 1),
     cd_metadata = two_codec (1, sample_metadata) (1, sample_next_metadata),
     cd_frontier = two_codec (1, \<lparr>fr_scanned_through_slot = None, fr_checkpoint = None, fr_observed_lib = None,
       fr_coverage_floor = None, fr_prefix_status = PrefixUnknown, fr_coverage_status = CoverageRebuilding\<rparr>)
       (2, \<lparr>fr_scanned_through_slot = None, fr_checkpoint = None, fr_observed_lib = None,
       fr_coverage_floor = None, fr_prefix_status = PrefixUnknown, fr_coverage_status = CoverageRebuilding\<rparr>),
     cd_traversal = two_codec (1, \<lparr>tr_target_lib = None, tr_ingestion_cursor = None\<rparr>)
       (2, \<lparr>tr_target_lib = None, tr_ingestion_cursor = None\<rparr>),
     cd_zone = two_codec (1, sample_zone) (2, sample_zone),
     cd_evidence = two_codec (1, sample_evidence) (2, sample_evidence),
     cd_segment = two_codec (1, sample_segment) (2, sample_segment),
     cd_gap = \<lparr>cd_encode = (\<lambda>_. None), cd_decode = (\<lambda>_. None)\<rparr>\<rparr>"

lemma sample_codecs_ok: "codecs_ok sample_codecs"
  by (simp add: codecs_ok_def sample_codecs_def two_codec_ok) (simp add: codec_ok_def)

definition sample_store :: catalog_store where
  "sample_store = \<lparr>st_read_only = False, st_database = \<lparr>db_metadata = [(''catalog'', [0]), (''schema'', [0])],
     db_zones = [], db_evidence = [], db_segments = [], db_gaps = []\<rparr>\<rparr>"

lemma sample_store_created: "create_store sample_codecs False sample_metadata = Ok sample_store"
  by code_simp

lemma sample_store_snapshot: "snapshot sample_codecs sample_store = Ok empty_snapshot"
  by code_simp

lemma sample_store_sorted: "sorted_tables (st_database sample_store)"
  by (simp add: sorted_tables_def sample_store_def)

lemma sample_commit: "is_ok (commit_batch_from_snapshot sample_codecs sample_store empty_snapshot sample_batch)"
  by code_simp

theorem held_snapshot_is_persisted_witness:
  "\<exists>st' s'. commit_batch_from_snapshot sample_codecs sample_store empty_snapshot sample_batch = Ok (st', s')
     \<and> snapshot sample_codecs st' = Ok s'"
proof -
  obtain st' s' where c: "commit_batch_from_snapshot sample_codecs sample_store empty_snapshot sample_batch = Ok (st', s')"
    using sample_commit by (auto simp: is_ok_iff)
  then show ?thesis
    using held_snapshot_is_persisted[OF sample_codecs_ok sample_store_sorted sample_store_snapshot, of "[sample_batch]" st' s']
    by simp
qed

theorem held_commit_equals_reread_witness:
  "\<exists>r. commit_batch_from_snapshot sample_codecs sample_store empty_snapshot sample_batch = Ok r
     \<and> commit_batch sample_codecs sample_store sample_batch = Ok r"
  using sample_commit held_commit_equals_reread[OF sample_codecs_ok sample_store_sorted sample_store_snapshot, of sample_batch]
  unfolding is_ok_iff by blast

theorem created_catalog_reads_back_witness:
  "snapshot sample_codecs sample_store = Ok empty_snapshot
    \<and> open_store sample_codecs True (st_database sample_store)
      = Ok \<lparr>st_read_only = True, st_database = st_database sample_store\<rparr>"
  using created_catalog_reads_back[OF sample_codecs_ok sample_store_created, of True]
  by (simp add: empty_snapshot_def)

definition sample_assure :: "catalog_metadata \<Rightarrow> catalog_metadata catalog_result" where
  "sample_assure m = Ok (m\<lparr>cm_identity_assurance := AncestryVerified\<rparr>)"

definition assured_codecs :: codecs where
  "assured_codecs = sample_codecs\<lparr>cd_metadata := two_codec (1, sample_metadata)
     (1, sample_next_metadata\<lparr>cm_identity_assurance := AncestryVerified\<rparr>)\<rparr>"

lemma assured_codecs_ok: "codecs_ok assured_codecs"
  using sample_codecs_ok by (simp add: codecs_ok_def assured_codecs_def two_codec_ok)

lemma assured_store_snapshot: "snapshot assured_codecs sample_store = Ok empty_snapshot"
  by code_simp

lemma sample_metadata_update: "is_ok (update_metadata assured_codecs sample_store 0 6 sample_assure)"
  by code_simp

theorem metadata_update_is_local_witness:
  "\<exists>st' s'. update_metadata assured_codecs sample_store 0 6 sample_assure = Ok (st', s')
     \<and> snapshot assured_codecs st' = Ok s'
     \<and> cm_catalog_file_id (cs_metadata s') = cm_catalog_file_id (cs_metadata empty_snapshot)"
proof -
  obtain st' s' where c: "update_metadata assured_codecs sample_store 0 6 sample_assure = Ok (st', s')"
    using sample_metadata_update by (auto simp: is_ok_iff)
  then show ?thesis
    using metadata_update_is_local[OF assured_codecs_ok sample_store_sorted assured_store_snapshot c] by blast
qed

end
