(* ===== verification/Catalog_Run.thy ===== *)
theory Catalog_Run
  imports L1_Source Catalog_Database
begin

text \<open>
  The context a catalog run works in, from \<^verbatim>\<open>src/src/inspection/catalog/service.rs\<close>: the service errors, the
  publications and the run context with its cancellation and revision checks.

  A run is asynchronous code between whose steps anything outside may change. What it observes at each interaction is an
  argument, the record \<open>environment\<close>: every field is a function of a moment, and each interaction reads the
  environment at the current moment and advances it, so that the answers of the L1 source, the clock, the
  cancellation token, the desired revision, the storage layer and the settings rebinder are arbitrary sequences. The
  state of a run is the moment, the catalog's tables and the publications it has sent. A computation of a run takes the
  state and returns a result with the new state; the state also survives an error, because what was committed stays
  committed. A blocking storage task is a function of the tables; a storage fault is
  reported before the task changes them, which is what the transactions of \<open>redb\<close> give.
\<close>

section \<open>Errors and publications\<close>

datatype worker_detail = WorkerText string | IngestionFailed engine_error

datatype catalog_failure = CatalogText string | StorageFailed catalog_detail

datatype service_error =
    SvInvalidSource string
  | SvInvalidState string
  | SvSource string
  | SvCatalog catalog_failure
  | SvWorker worker_detail
  | SvJoin string
  | SvCancelled
  | SvStaleRevision u64 u64

datatype verification_state =
  StateEmpty | StateCachedUnverified | StateVerifying | StateSourceBehind | StateVerified | StateMismatch

datatype readiness_phase = WaitingForBedrock

record readiness_report =
  rr_phase :: readiness_phase
  rr_finalized_lib_slot :: u64
  rr_required_checkpoint_slot :: u64

record publication =
  pb_verification_state :: verification_state
  pb_catalog :: "catalog_snapshot option"
  pb_readiness :: "readiness_report option"
  pb_current_error :: "string option"

datatype run_mode = Resume | Rebuild

definition map_source_error :: "source_error \<Rightarrow> service_error" where
  "map_source_error e = SvSource (case e of
     InvalidRequest _ \<Rightarrow> ''catalog L1 request was invalid''
   | Unavailable _ \<Rightarrow> ''catalog L1 source is unavailable''
   | InvalidResponse _ \<Rightarrow> ''catalog L1 source returned invalid data'')"

definition map_engine_error :: "engine_error \<Rightarrow> service_error" where
  "map_engine_error e = SvWorker (IngestionFailed e)"

text \<open>
  A storage error keeps its cause; every other catalog error is reported without its details.
\<close>

definition map_catalog_error :: "catalog_error \<Rightarrow> service_error" where
  "map_catalog_error e = SvCatalog (case e of
     Storage d \<Rightarrow> StorageFailed d
   | _ \<Rightarrow> CatalogText ''catalog storage or validation failed'')"

section \<open>Runs\<close>

record 'n environment =
  en_source_revision :: u64
  en_run_mode :: run_mode
  en_codecs :: codecs
  en_cancelled :: "nat \<Rightarrow> bool"
  en_desired_revision :: "nat \<Rightarrow> u64"
  en_report_revision :: "nat \<Rightarrow> u64"
  en_now_unix :: "nat \<Rightarrow> u64"
  en_storage_fault :: "nat \<Rightarrow> string option"
  en_chain_status :: "nat \<Rightarrow> l1_chain_status source_result"
  en_time_status :: "nat \<Rightarrow> l1_time_status source_result"
  en_finalized_range :: "nat \<Rightarrow> l1_range_request \<Rightarrow> 'n l1_event list source_result"
  en_block :: "nat \<Rightarrow> string \<Rightarrow> 'n l1_block option source_result"
  en_file_fault :: "nat \<Rightarrow> string option"
  en_file_id :: "nat \<Rightarrow> (string, string) result"
  en_path_exists :: "nat \<Rightarrow> string \<Rightarrow> bool"
  en_rebind :: "nat \<Rightarrow> network_scope \<Rightarrow> network_scope \<Rightarrow> (unit, service_error) result"

record run_state =
  rn_moment :: nat
  rn_store :: catalog_store
  rn_publications :: "publication list"
  rn_quarantined :: "(string \<times> string) list"

type_synonym 'a run_of = "run_state \<Rightarrow> ('a, service_error) result \<times> run_state"

definition run_return :: "'a \<Rightarrow> 'a run_of" where
  "run_return x st = (Ok x, st)"

definition run_result :: "('a, service_error) result \<Rightarrow> 'a run_of" where
  "run_result r st = (r, st)"

definition run_bind :: "'a run_of \<Rightarrow> ('a \<Rightarrow> 'b run_of) \<Rightarrow> 'b run_of" where
  "run_bind m f st = (case m st of (Ok x, st') \<Rightarrow> f x st' | (Err e, st') \<Rightarrow> (Err e, st'))"

text \<open>One interaction with the environment.\<close>

definition observe :: "(nat \<Rightarrow> ('a, service_error) result) \<Rightarrow> 'a run_of" where
  "observe f st = (f (rn_moment st), st\<lparr>rn_moment := rn_moment st + 1\<rparr>)"

definition ensure_current :: "'n environment \<Rightarrow> unit run_of" where
  "ensure_current env = observe (\<lambda>t.
     if en_cancelled env t then Err SvCancelled
     else if en_desired_revision env t \<noteq> en_source_revision env
     then Err (SvStaleRevision (en_source_revision env) (en_desired_revision env t))
     else Ok ())"

definition chain_status :: "'n environment \<Rightarrow> l1_chain_status run_of" where
  "chain_status env = observe (\<lambda>t. map_err map_source_error (en_chain_status env t))"

definition time_status :: "'n environment \<Rightarrow> l1_time_status run_of" where
  "time_status env = observe (\<lambda>t. map_err map_source_error (en_time_status env t))"

definition finalized_range :: "'n environment \<Rightarrow> l1_range_request \<Rightarrow> 'n l1_event list run_of" where
  "finalized_range env request = observe (\<lambda>t. map_err map_source_error (en_finalized_range env t request))"

definition source_block :: "'n environment \<Rightarrow> string \<Rightarrow> 'n l1_block option run_of" where
  "source_block env block_id = observe (\<lambda>t. map_err map_source_error (en_block env t block_id))"

definition now_unix :: "'n environment \<Rightarrow> u64 run_of" where
  "now_unix env = observe (\<lambda>t. Ok (en_now_unix env t))"

definition blocking_task :: "'n environment \<Rightarrow> (catalog_store \<Rightarrow> (catalog_store \<times> 'a) catalog_result) \<Rightarrow> 'a run_of" where
  "blocking_task env task st =
     (let st' = st\<lparr>rn_moment := rn_moment st + 1\<rparr>
      in case en_storage_fault env (rn_moment st) of
           Some fault \<Rightarrow> (Err (SvCatalog (CatalogText fault)), st')
         | None \<Rightarrow> (case task (rn_store st) of
             Err e \<Rightarrow> (Err (map_catalog_error e), st')
           | Ok (store, x) \<Rightarrow> (Ok x, st'\<lparr>rn_store := store\<rparr>)))"

definition run_blocking_catalog ::
  "'n environment \<Rightarrow> (catalog_store \<Rightarrow> (catalog_store \<times> 'a) catalog_result) \<Rightarrow> 'a run_of" where
  "run_blocking_catalog env task =
     run_bind (ensure_current env) (\<lambda>_.
     run_bind (blocking_task env task) (\<lambda>x.
     run_bind (ensure_current env) (\<lambda>_.
     run_return x)))"

definition catalog_snapshot_of :: "'n environment \<Rightarrow> catalog_snapshot run_of" where
  "catalog_snapshot_of env = run_blocking_catalog env (\<lambda>store.
     and_then (snapshot (en_codecs env) store) (\<lambda>s. Ok (store, s)))"

text \<open>The report takes a publication only from the current run; the result says whether it did.\<close>

definition publish :: "'n environment \<Rightarrow> publication \<Rightarrow> bool run_of" where
  "publish env p st =
     (let t = rn_moment st;
          accepted = (\<not> en_cancelled env t \<and> en_desired_revision env t = en_source_revision env
            \<and> en_report_revision env t = en_source_revision env)
      in (Ok accepted, st\<lparr>rn_moment := t + 1,
            rn_publications := (if accepted then rn_publications st @ [p] else rn_publications st)\<rparr>))"

definition publish_verified :: "'n environment \<Rightarrow> catalog_snapshot \<Rightarrow> unit run_of" where
  "publish_verified env s =
     run_bind (publish env \<lparr>pb_verification_state = StateVerified, pb_catalog = Some s, pb_readiness = None,
       pb_current_error = None\<rparr>) (\<lambda>_. run_return ())"

section \<open>Facts about runs\<close>

lemma run_bind_simps [simp]:
  "run_bind (run_return x) f = f x" "run_bind (run_result (Ok x)) f = f x"
  by (simp_all add: fun_eq_iff run_bind_def run_return_def run_result_def)

lemma run_bind_cases:
  "run_bind m f st = (r, st') \<longleftrightarrow> (\<exists>x st1. m st = (Ok x, st1) \<and> f x st1 = (r, st')) \<or> (\<exists>e. m st = (Err e, st') \<and> r = Err e)"
  by (auto simp: run_bind_def split: prod.splits result.splits)

lemma run_bind_Ok [ok_simps]:
  "run_bind m f st = (Ok y, st') \<longleftrightarrow> (\<exists>x st1. m st = (Ok x, st1) \<and> f x st1 = (Ok y, st'))"
  by (simp add: run_bind_cases)

lemma run_return_eq [ok_simps]: "run_return x st = (r, st') \<longleftrightarrow> r = Ok x \<and> st' = st"
  by (auto simp: run_return_def)

lemma run_result_eq [ok_simps]: "run_result q st = (r, st') \<longleftrightarrow> q = r \<and> st' = st"
  by (auto simp: run_result_def)

text \<open>
  Assertions are about the tables and the publications. \<open>spec A m B E\<close> says that a run of \<open>m\<close> from a state with \<open>A\<close>
  returns a value \<open>x\<close> in a state with \<open>B x\<close>, or fails in a state with \<open>E\<close>. Interactions change neither part.
\<close>

type_synonym assertion = "catalog_store \<Rightarrow> publication list \<Rightarrow> bool"

definition spec :: "assertion \<Rightarrow> 'a run_of \<Rightarrow> ('a \<Rightarrow> assertion) \<Rightarrow> assertion \<Rightarrow> bool" where
  "spec A m B E \<longleftrightarrow> (\<forall>st r st'. m st = (r, st') \<longrightarrow> A (rn_store st) (rn_publications st) \<longrightarrow>
     (case r of Ok x \<Rightarrow> B x (rn_store st') (rn_publications st') | Err _ \<Rightarrow> E (rn_store st') (rn_publications st')))"

definition untouched :: "'a run_of \<Rightarrow> bool" where
  "untouched m \<longleftrightarrow> (\<forall>st r st'. m st = (r, st') \<longrightarrow> rn_store st' = rn_store st \<and> rn_publications st' = rn_publications st)"

lemma untouchedD: "untouched m \<Longrightarrow> m st = (r, st') \<Longrightarrow> rn_store st' = rn_store st \<and> rn_publications st' = rn_publications st"
  by (simp add: untouched_def)

lemma untouched_observe [simp]: "untouched (observe f)"
  by (auto simp: untouched_def observe_def)

lemma untouched_primitives [simp]:
  "untouched (ensure_current env)" "untouched (chain_status env)" "untouched (time_status env)"
  "untouched (finalized_range env request)" "untouched (source_block env i)" "untouched (now_unix env)"
  "untouched (run_return x)" "untouched (run_result q)"
  by (simp_all add: ensure_current_def chain_status_def time_status_def finalized_range_def source_block_def now_unix_def)
    (auto simp: untouched_def run_return_def run_result_def)

lemma untouched_bind: "untouched m \<Longrightarrow> (\<And>x. untouched (f x)) \<Longrightarrow> untouched (run_bind m f)"
  by (auto simp: untouched_def run_bind_cases)

lemma spec_Ok: "spec A m B E \<Longrightarrow> m st = (Ok x, st') \<Longrightarrow> A (rn_store st) (rn_publications st)
    \<Longrightarrow> B x (rn_store st') (rn_publications st')"
  unfolding spec_def by fastforce

lemma spec_Err: "spec A m B E \<Longrightarrow> m st = (Err e, st') \<Longrightarrow> A (rn_store st) (rn_publications st)
    \<Longrightarrow> E (rn_store st') (rn_publications st')"
  unfolding spec_def by fastforce

lemma specI:
  assumes "\<And>st x st'. m st = (Ok x, st') \<Longrightarrow> A (rn_store st) (rn_publications st) \<Longrightarrow> B x (rn_store st') (rn_publications st')"
    "\<And>st e st'. m st = (Err e, st') \<Longrightarrow> A (rn_store st) (rn_publications st) \<Longrightarrow> E (rn_store st') (rn_publications st')"
  shows "spec A m B E"
  unfolding spec_def using assms by (auto split: result.splits)

lemma spec_bind:
  assumes "spec A m R E" "\<And>x. spec (R x) (f x) B E"
  shows "spec A (run_bind m f) B E"
  unfolding spec_def
proof (intro allI impI)
  fix st r st' assume run: "run_bind m f st = (r, st')" and pre: "A (rn_store st) (rn_publications st)"
  show "case r of Ok x \<Rightarrow> B x (rn_store st') (rn_publications st') | Err _ \<Rightarrow> E (rn_store st') (rn_publications st')"
  proof (cases "m st")
    case (Pair q st1)
    show ?thesis
    proof (cases q)
      case (Ok x)
      have "f x st1 = (r, st')" using run by (simp add: run_bind_def Pair Ok)
      moreover have "R x (rn_store st1) (rn_publications st1)" using spec_Ok[OF assms(1) _ pre] Pair Ok by simp
      ultimately show ?thesis using assms(2)[of x] by (simp add: spec_def)
    next
      case (Err e)
      then show ?thesis using run spec_Err[OF assms(1) _ pre] by (auto simp: run_bind_def Pair)
    qed
  qed
qed

lemma spec_return: "(\<And>s p. A s p \<Longrightarrow> B x s p) \<Longrightarrow> spec A (run_return x) B E"
  by (auto simp: spec_def run_return_def)

lemma spec_result: "(\<And>x s p. q = Ok x \<Longrightarrow> A s p \<Longrightarrow> B x s p) \<Longrightarrow> (\<And>s p. A s p \<Longrightarrow> E s p) \<Longrightarrow> spec A (run_result q) B E"
  by (auto simp: spec_def run_result_def split: result.splits)

lemma spec_untouched: "untouched m \<Longrightarrow> (\<And>s p. A s p \<Longrightarrow> E s p) \<Longrightarrow> spec A m (\<lambda>_. A) E"
  by (auto simp: spec_def untouched_def split: result.splits)

lemma spec_observe:
  "(\<And>s p. A s p \<Longrightarrow> E s p) \<Longrightarrow> (\<And>t x s p. f t = Ok x \<Longrightarrow> A s p \<Longrightarrow> B x s p) \<Longrightarrow> spec A (observe f) B E"
  by (auto simp: spec_def observe_def split: result.splits)

lemma spec_weaken:
  assumes "spec A m B E" "\<And>s p. A' s p \<Longrightarrow> A s p" "\<And>x s p. B x s p \<Longrightarrow> B' x s p"
  shows "spec A' m B' E"
  by (rule specI) (use assms spec_Ok[OF assms(1)] spec_Err[OF assms(1)] in blast)+

lemma spec_fact: "(P \<Longrightarrow> spec A m B E) \<Longrightarrow> spec (\<lambda>s p. P \<and> A s p) m B E"
  by (auto simp: spec_def)

lemma spec_blocking:
  assumes "\<And>s p. A s p \<Longrightarrow> E s p" "\<And>s p s' x. A s p \<Longrightarrow> task s = Ok (s', x) \<Longrightarrow> B x s' p" "\<And>x s p. B x s p \<Longrightarrow> E s p"
  shows "spec A (run_blocking_catalog env task) B E"
proof -
  have "spec A (blocking_task env task) B E"
    using assms by (auto simp: spec_def blocking_task_def Let_def split: option.splits result.splits)
  then have task: "spec A (run_bind (blocking_task env task) (\<lambda>x. run_bind (ensure_current env) (\<lambda>_. run_return x))) B E"
  proof (rule spec_bind)
    fix x
    have "spec (B x) (ensure_current env) (\<lambda>_. B x) E" by (rule spec_untouched) (auto intro: assms(3))
    then show "spec (B x) (run_bind (ensure_current env) (\<lambda>_. run_return x)) B E" by (rule spec_bind) (rule spec_return)
  qed
  have "spec A (ensure_current env) (\<lambda>_. A) E" by (rule spec_untouched) (auto intro: assms(1))
  then show ?thesis unfolding run_blocking_catalog_def using task by (rule spec_bind)
qed

section \<open>Held snapshots\<close>

text \<open>
  \<open>held good s\<close>: the run holds the snapshot \<open>s\<close>, which is \<open>good\<close> for its tables, and every publication marked verified is of a
  good catalog. \<open>kept good\<close>: the same for some snapshot, which is what remains of it after an error.
\<close>

definition verified_ok :: "(catalog_snapshot \<Rightarrow> bool) \<Rightarrow> publication list \<Rightarrow> bool" where
  "verified_ok P ps \<longleftrightarrow> (\<forall>p \<in> set ps. pb_verification_state p = StateVerified \<longrightarrow> (\<exists>c. pb_catalog p = Some c \<and> P c))"

definition held :: "(catalog_store \<Rightarrow> catalog_snapshot \<Rightarrow> bool) \<Rightarrow> catalog_snapshot \<Rightarrow> assertion" where
  "held good s st ps \<longleftrightarrow> good st s \<and> verified_ok (\<lambda>c. \<exists>st. good st c) ps"

definition kept :: "(catalog_store \<Rightarrow> catalog_snapshot \<Rightarrow> bool) \<Rightarrow> assertion" where
  "kept good st ps \<longleftrightarrow> (\<exists>s. held good s st ps)"

lemma held_kept: "held good s st ps \<Longrightarrow> kept good st ps"
  by (auto simp: kept_def)

lemma spec_held: "untouched m \<Longrightarrow> spec (held good s) m (\<lambda>_. held good s) (kept good)"
  by (rule spec_untouched) (auto intro: held_kept)

lemma spec_publish:
  assumes "pb_verification_state p = StateVerified \<Longrightarrow> pb_catalog p = Some s"
  shows "spec (held good s) (publish env p) (\<lambda>_. held good s) (kept good)"
  by (rule specI) (use assms in \<open>auto simp: publish_def Let_def held_def verified_ok_def\<close>)

lemma spec_publish_verified: "spec (held good s) (publish_verified env s) (\<lambda>_. held good s) (kept good)"
  unfolding publish_verified_def by (rule spec_bind[OF spec_publish]) (auto intro: spec_return)

lemma spec_value:
  assumes "untouched m" "\<And>st x st'. m st = (Ok x, st') \<Longrightarrow> P x"
  shows "spec (held good s) m (\<lambda>x st ps. P x \<and> held good s st ps) (kept good)"
  by (rule specI) (use assms untouchedD[OF assms(1)] in \<open>auto intro: held_kept\<close>)

lemma spec_pure: "spec (held good s) (run_result q) (\<lambda>x st ps. q = Ok x \<and> held good s st ps) (kept good)"
  by (rule spec_result) (auto intro: held_kept)

lemma spec_snapshot:
  assumes "\<And>st s'. good st s \<Longrightarrow> snapshot (en_codecs env) st = Ok s' \<Longrightarrow> s' = s"
  shows "spec (held good s) (catalog_snapshot_of env) (\<lambda>s' st ps. s' = s \<and> held good s st ps) (kept good)"
  unfolding catalog_snapshot_of_def
  by (rule spec_blocking) (use assms in \<open>auto simp: and_then_Ok held_def kept_def\<close>)

end
