(* ===== verification/Catalog_Identity.thy ===== *)
theory Catalog_Identity
  imports Catalog_Run
begin

text \<open>
  The identity of a catalog's network, from \<^verbatim>\<open>src/src/inspection/catalog/service.rs\<close>: the verification of a stored
  catalog against the L1 source, and the promotion of a provisional identity (a finalized anchor block) to the genesis
  identity in three persisted stages, which a run can resume after a crash.
\<close>

section \<open>Scopes and checkpoints\<close>

record identity_promotion =
  ip_old_scope :: network_scope
  ip_new_scope :: network_scope
  ip_anchor :: block_checkpoint
  ip_checkpoint :: block_checkpoint
  ip_assurance :: identity_assurance

datatype candidate_activation =
    ActVerified "identity_promotion option"
  | ActSourceBehind u64 u64
  | ActCachedUnverified string
  | ActMismatch string

definition latest_catalog_checkpoint :: "catalog_snapshot \<Rightarrow> block_checkpoint option" where
  "latest_catalog_checkpoint s = Option.bind (cs_frontier s) fr_checkpoint"

definition is_finalized_anchor :: "network_scope \<Rightarrow> bool" where
  "is_finalized_anchor scope = (case scope of FinalizedAnchor _ _ _ _ \<Rightarrow> True | GenesisId _ \<Rightarrow> False)"

definition finalized_anchor_alias :: "catalog_snapshot \<Rightarrow> network_scope option" where
  "finalized_anchor_alias s =
     find is_finalized_anchor (map ia_network_scope (rev (cm_identity_aliases (cs_metadata s))))"

definition finalized_anchor_checkpoint :: "network_scope \<Rightarrow> block_checkpoint option" where
  "finalized_anchor_checkpoint scope = (case scope of
     FinalizedAnchor time slot block_id parent_id \<Rightarrow> Some \<lparr>cp_slot = slot, cp_block_id = block_id, cp_parent_id = parent_id\<rparr>
   | GenesisId _ \<Rightarrow> None)"

definition finalized_anchor_genesis_time :: "network_scope \<Rightarrow> string option" where
  "finalized_anchor_genesis_time scope = (case scope of
     FinalizedAnchor time slot block_id parent_id \<Rightarrow> Some time | GenesisId _ \<Rightarrow> None)"

definition genesis_id_of :: "network_scope \<Rightarrow> string option" where
  "genesis_id_of scope = (case scope of GenesisId g \<Rightarrow> Some g | FinalizedAnchor _ _ _ _ \<Rightarrow> None)"

definition promotion_assurance :: "catalog_snapshot \<Rightarrow> network_scope \<Rightarrow> block_checkpoint \<Rightarrow> identity_assurance" where
  "promotion_assurance s new_scope checkpoint =
     (case genesis_id_of new_scope of
        None \<Rightarrow> SourceAttested
      | Some genesis \<Rightarrow>
          let complete_prefix = is_some_and (cs_frontier s) (\<lambda>f. fr_coverage_floor f = Some 0
                \<and> fr_prefix_status f = PrefixComplete \<and> fr_checkpoint f = Some checkpoint);
              connected = (cs_gaps s = [] \<and> length (cs_segments s) = 1
                \<and> list_ex (\<lambda>g. cp_slot (sg_floor g) = 0 \<and> cp_block_id (sg_floor g) = genesis
                    \<and> sg_frontier g = \<lparr>br_slot = cp_slot checkpoint, br_block_id = cp_block_id checkpoint\<rparr>) (cs_segments s))
          in if complete_prefix \<and> connected then AncestryVerified else SourceAttested)"

definition transition_matches_promotion :: "identity_transition \<Rightarrow> identity_promotion \<Rightarrow> bool" where
  "transition_matches_promotion t p \<longleftrightarrow> it_old_scope t = ip_old_scope p \<and> it_new_scope t = ip_new_scope p
     \<and> it_anchor t = ip_anchor p \<and> it_checkpoint t = ip_checkpoint p"

section \<open>Verification of a candidate\<close>

definition pending_transition :: "catalog_snapshot \<Rightarrow> identity_transition option" where
  "pending_transition s = (case cm_identity_transition (cs_metadata s) of
     Some t \<Rightarrow> if it_stage t \<noteq> Committed then Some t else None | None \<Rightarrow> None)"

text \<open>The early returns that only need the genesis identifier the source reported.\<close>

definition reported_conflict :: "catalog_snapshot \<Rightarrow> string option \<Rightarrow> candidate_activation option" where
  "reported_conflict s reported =
     (case (pending_transition s, reported) of
        (Some t, Some g) \<Rightarrow>
          if Some g \<noteq> genesis_id_of (it_new_scope t)
          then Some (ActMismatch ''source genesis does not match pending identity transition'') else None
      | (Some t, None) \<Rightarrow> Some (ActCachedUnverified ''source omitted genesis id required by pending promotion'')
      | (None, _) \<Rightarrow> None)"

definition scope_conflict :: "catalog_snapshot \<Rightarrow> string option \<Rightarrow> candidate_activation option" where
  "scope_conflict s reported =
     (case (cm_network_scope (cs_metadata s), reported) of
        (GenesisId g, Some r) \<Rightarrow>
          if g \<noteq> r then Some (ActMismatch ''source reported a conflicting genesis id'') else None
      | (GenesisId g, None) \<Rightarrow>
          if finalized_anchor_alias s = None
          then Some (ActCachedUnverified ''source omitted genesis id and catalog has no retained anchor'') else None
      | (FinalizedAnchor _ _ _ _, _) \<Rightarrow> None)"

definition anchor_scope :: "catalog_snapshot \<Rightarrow> string option \<Rightarrow> network_scope option" where
  "anchor_scope s reported = (case cm_network_scope (cs_metadata s) of
     FinalizedAnchor _ _ _ _ \<Rightarrow> Some (cm_network_scope (cs_metadata s))
   | GenesisId _ \<Rightarrow> if reported = None then finalized_anchor_alias s else None)"

definition identity_anchor :: "catalog_snapshot \<Rightarrow> string option \<Rightarrow> block_checkpoint option" where
  "identity_anchor s reported = (case pending_transition s of
     Some t \<Rightarrow> Some (it_anchor t)
   | None \<Rightarrow> Option.bind (anchor_scope s reported) finalized_anchor_checkpoint)"

definition identity_checkpoint :: "catalog_snapshot \<Rightarrow> string option \<Rightarrow> block_checkpoint option" where
  "identity_checkpoint s reported = (case pending_transition s of
     Some t \<Rightarrow> Some (it_checkpoint t)
   | None \<Rightarrow> (case latest_catalog_checkpoint s of Some c \<Rightarrow> Some c | None \<Rightarrow> identity_anchor s reported))"

definition identity_checks :: "catalog_snapshot \<Rightarrow> string option \<Rightarrow> block_checkpoint list" where
  "identity_checks s reported =
     (let checks = (case identity_anchor s reported of Some a \<Rightarrow> [a] | None \<Rightarrow> [])
      in case identity_checkpoint s reported of
           Some c \<Rightarrow> if list_all (\<lambda>e. e \<noteq> c) checks then checks @ [c] else checks
         | None \<Rightarrow> checks)"

fun max_slot :: "block_checkpoint list \<Rightarrow> u64 option" where
  "max_slot [] = None"
| "max_slot (c # cs) = Some (case max_slot cs of None \<Rightarrow> cp_slot c | Some m \<Rightarrow> max (cp_slot c) m)"

text \<open>The \<open>for\<close> loop over the checks; \<open>Some\<close> is an early return.\<close>

fun verify_checks :: "'n environment \<Rightarrow> block_reference \<Rightarrow> block_checkpoint list \<Rightarrow> candidate_activation option run_of" where
  "verify_checks env lib [] = run_return None"
| "verify_checks env lib (expected # rest) =
     (if br_slot lib = cp_slot expected \<and> br_block_id lib \<noteq> cp_block_id expected
      then run_return (Some (ActMismatch (''source LIB conflicts with catalog checkpoint at slot ''
        @ u64_text (cp_slot expected))))
      else
        run_bind (ensure_current env) (\<lambda>_.
        run_bind (source_block env (cp_block_id expected)) (\<lambda>actual.
        run_bind (ensure_current env) (\<lambda>_.
        case actual of
          None \<Rightarrow> run_return (Some (ActCachedUnverified (''source cannot return catalog checkpoint at slot ''
            @ u64_text (cp_slot expected))))
        | Some block \<Rightarrow>
            if lb_checkpoint block \<noteq> expected
            then run_return (Some (ActMismatch (''source block conflicts with catalog checkpoint at slot ''
              @ u64_text (cp_slot expected))))
            else verify_checks env lib rest))))"

definition i64_text :: "int \<Rightarrow> string" where
  "i64_text i = (if i < 0 then CHR ''-'' # nat_text (nat (- i)) else nat_text (nat i))"

definition verify_genesis_time :: "'n environment \<Rightarrow> network_scope option \<Rightarrow> candidate_activation option run_of" where
  "verify_genesis_time env scope = (case scope of
     None \<Rightarrow> run_return None
   | Some anchor \<Rightarrow>
       run_bind (ensure_current env) (\<lambda>_.
       run_bind (time_status env) (\<lambda>time.
       run_bind (ensure_current env) (\<lambda>_.
       run_return (if finalized_anchor_genesis_time anchor \<noteq> Some (i64_text (ts_genesis_time_unix_ms time))
         then Some (ActMismatch ''source genesis time does not match catalog anchor'') else None)))))"

definition verified_activation ::
  "catalog_snapshot \<Rightarrow> string option \<Rightarrow> (candidate_activation, service_error) result" where
  "verified_activation s reported =
     (case (cm_network_scope (cs_metadata s), reported) of
        (FinalizedAnchor t sl b p, Some genesis) \<Rightarrow>
          and_then (ok_or (identity_anchor s reported)
            (SvInvalidState ''provisional catalog has no finalized anchor'')) (\<lambda>anchor.
          let checkpoint = unwrap_or (identity_checkpoint s reported) anchor;
              promotion = \<lparr>ip_old_scope = FinalizedAnchor t sl b p, ip_new_scope = GenesisId genesis, ip_anchor = anchor,
                ip_checkpoint = checkpoint, ip_assurance = promotion_assurance s (GenesisId genesis) checkpoint\<rparr>
          in if is_some_and (pending_transition s) (\<lambda>transition. \<not> transition_matches_promotion transition promotion)
             then Ok (ActMismatch ''pending identity transition conflicts with current source'')
             else Ok (ActVerified (Some promotion)))
      | _ \<Rightarrow> Ok (ActVerified None))"

text \<open>The rest of \<open>verify_catalog_candidate\<close> once the source has reported its status.\<close>

definition verify_reported :: "'n environment \<Rightarrow> catalog_snapshot \<Rightarrow> string option \<Rightarrow> block_reference \<Rightarrow> candidate_activation run_of" where
  "verify_reported env s reported lib =
     (case reported_conflict s reported of Some a \<Rightarrow> run_return a
      | None \<Rightarrow> (case scope_conflict s reported of Some a \<Rightarrow> run_return a
      | None \<Rightarrow>
          let checks = identity_checks s reported
          in case (case max_slot checks of Some required \<Rightarrow> if br_slot lib < required then Some required else None | None \<Rightarrow> None) of
             Some required \<Rightarrow> run_return (ActSourceBehind (br_slot lib) required)
           | None \<Rightarrow>
               run_bind (verify_genesis_time env (anchor_scope s reported)) (\<lambda>time.
               case time of Some a \<Rightarrow> run_return a
               | None \<Rightarrow>
                   run_bind (verify_checks env lib checks) (\<lambda>found.
                   case found of Some a \<Rightarrow> run_return a
                   | None \<Rightarrow> run_result (verified_activation s reported)))))"

definition verify_catalog_candidate :: "'n environment \<Rightarrow> catalog_snapshot \<Rightarrow> candidate_activation run_of" where
  "verify_catalog_candidate env s =
     run_bind (ensure_current env) (\<lambda>_.
     run_bind (chain_status env) (\<lambda>status.
     run_bind (ensure_current env) (\<lambda>_.
     verify_reported env s (ct_genesis_id status) (ls_lib (ct_snapshot status)))))"

section \<open>Promotion\<close>

definition prepare_update ::
  "u64 \<Rightarrow> u64 \<Rightarrow> identity_promotion \<Rightarrow> catalog_metadata \<Rightarrow> catalog_metadata catalog_result" where
  "prepare_update updated_at source_revision p m = (case cm_identity_transition m of
     Some existing \<Rightarrow>
       if transition_matches_promotion existing p then Ok m else Err (InvalidInput OtherTransitionExists)
   | None \<Rightarrow>
       if cm_network_scope m \<noteq> ip_old_scope p then Err (InvalidInput ScopeChangedBeforePromotion)
       else Ok (m\<lparr>cm_identity_transition := Some \<lparr>it_old_scope = ip_old_scope p, it_new_scope = ip_new_scope p,
         it_anchor = ip_anchor p, it_checkpoint = ip_checkpoint p, it_source_revision = source_revision,
         it_stage = Prepared, it_prepared_at_unix = updated_at\<rparr>\<rparr>))"

definition prepare_identity_promotion ::
  "codecs \<Rightarrow> catalog_store \<Rightarrow> u64 \<Rightarrow> u64 \<Rightarrow> u64 \<Rightarrow> identity_promotion \<Rightarrow> (catalog_store \<times> catalog_snapshot) catalog_result" where
  "prepare_identity_promotion cd store expected_revision updated_at source_revision p =
     update_metadata cd store expected_revision updated_at (prepare_update updated_at source_revision p)"

definition rebound_update :: "identity_promotion \<Rightarrow> catalog_metadata \<Rightarrow> catalog_metadata catalog_result" where
  "rebound_update p m =
     and_then (ok_or (cm_identity_transition m) (InvalidInput TransitionMissing)) (\<lambda>t.
     if \<not> transition_matches_promotion t p then Err (InvalidInput TransitionBoundariesChanged)
     else Ok (case it_stage t of
         Prepared \<Rightarrow> m\<lparr>cm_identity_transition := Some (t\<lparr>it_stage := SettingsRebound\<rparr>)\<rparr>
       | _ \<Rightarrow> m))"

definition mark_identity_settings_rebound ::
  "codecs \<Rightarrow> catalog_store \<Rightarrow> u64 \<Rightarrow> u64 \<Rightarrow> identity_promotion \<Rightarrow> (catalog_store \<times> catalog_snapshot) catalog_result" where
  "mark_identity_settings_rebound cd store expected_revision updated_at p =
     update_metadata cd store expected_revision updated_at (rebound_update p)"

definition commit_update :: "u64 \<Rightarrow> identity_promotion \<Rightarrow> catalog_metadata \<Rightarrow> catalog_metadata catalog_result" where
  "commit_update updated_at p m =
     and_then (ok_or (cm_identity_transition m) (InvalidInput TransitionMissing)) (\<lambda>t.
     if \<not> transition_matches_promotion t p then Err (InvalidInput TransitionBoundariesChanged)
     else case it_stage t of
       Prepared \<Rightarrow> Err (InvalidInput SettingsNotRebound)
     | SettingsRebound \<Rightarrow> Ok (m\<lparr>cm_identity_transition := Some (t\<lparr>it_stage := Committed\<rparr>),
         cm_network_scope := ip_new_scope p, cm_identity_assurance := ip_assurance p,
         cm_identity_aliases :=
           (if list_ex (\<lambda>a. ia_network_scope a = ip_old_scope p) (cm_identity_aliases m) then cm_identity_aliases m
            else cm_identity_aliases m @ [\<lparr>ia_network_scope = ip_old_scope p, ia_accepted_at_unix = updated_at\<rparr>])\<rparr>)
     | Committed \<Rightarrow> Ok m)"

definition commit_identity_promotion ::
  "codecs \<Rightarrow> catalog_store \<Rightarrow> u64 \<Rightarrow> u64 \<Rightarrow> identity_promotion \<Rightarrow> (catalog_store \<times> catalog_snapshot) catalog_result" where
  "commit_identity_promotion cd store expected_revision updated_at p =
     update_metadata cd store expected_revision updated_at (commit_update updated_at p)"

text \<open>
  The loop over the stages. The fuel bounds the rounds: \<open>None\<close> is a loop that has not ended.
\<close>

fun promotion_loop ::
  "nat \<Rightarrow> 'n environment \<Rightarrow> identity_promotion \<Rightarrow> u64 \<Rightarrow> catalog_snapshot \<Rightarrow> catalog_snapshot option run_of" where
  "promotion_loop 0 env p updated_at s = run_return None"
| "promotion_loop (Suc fuel) env p updated_at s =
     (let revision = cm_catalog_revision (cs_metadata s) in
      case map_option it_stage (cm_identity_transition (cs_metadata s)) of
        None \<Rightarrow>
          run_bind (run_blocking_catalog env (\<lambda>store. prepare_identity_promotion (en_codecs env) store revision updated_at
            (en_source_revision env) p)) (promotion_loop fuel env p updated_at)
      | Some Prepared \<Rightarrow>
          run_bind (ensure_current env) (\<lambda>_.
          run_bind (observe (\<lambda>t. en_rebind env t (ip_old_scope p) (ip_new_scope p))) (\<lambda>_.
          run_bind (ensure_current env) (\<lambda>_.
          run_bind (run_blocking_catalog env (\<lambda>store. mark_identity_settings_rebound (en_codecs env) store revision updated_at p))
            (promotion_loop fuel env p updated_at))))
      | Some SettingsRebound \<Rightarrow>
          run_bind (ensure_current env) (\<lambda>_.
          run_bind (run_blocking_catalog env (\<lambda>store. commit_identity_promotion (en_codecs env) store revision updated_at p))
            (promotion_loop fuel env p updated_at))
      | Some Committed \<Rightarrow>
          if cm_network_scope (cs_metadata s) \<noteq> ip_new_scope p
             \<or> \<not> is_some_and (cm_identity_transition (cs_metadata s)) (\<lambda>t. transition_matches_promotion t p)
          then run_result (Err (SvInvalidState ''committed identity transition has wrong scope or boundaries''))
          else run_return (Some s))"

definition apply_catalog_identity_promotion ::
  "nat \<Rightarrow> 'n environment \<Rightarrow> identity_promotion \<Rightarrow> u64 \<Rightarrow> catalog_snapshot option run_of" where
  "apply_catalog_identity_promotion fuel env p updated_at =
     run_bind (catalog_snapshot_of env) (promotion_loop fuel env p updated_at)"

end
