(* ===== verification/Catalog_Worker.thy ===== *)
theory Catalog_Worker
  imports Catalog_Identity
begin

text \<open>
  The scan of \<open>src/inspection/catalog/worker.rs\<close>: the application of a page with its repairs, the confirmation of the
  source before a repair is stored, the repair of one gap, and the cycles of the scan loop. All of it runs in the
  environment of \<open>Catalog_Run\<close>. The endless scan loop is the iteration of \<open>scan_cycle\<close>. The two loops inside a cycle take
  fuel and return \<open>None\<close> if it runs out; the fuel they are given is shown to be enough.
\<close>

section \<open>Timing\<close>

definition CATALOG_REPAIR_INTERVAL_SECONDS :: u64 where
  "CATALOG_REPAIR_INTERVAL_SECONDS = 30"

definition CATALOG_NO_PROGRESS_WARNING_ROUNDS :: u32 where
  "CATALOG_NO_PROGRESS_WARNING_ROUNDS = 3"

definition CATALOG_POLL_INTERVAL :: nat where
  "CATALOG_POLL_INTERVAL = 5"

definition no_progress_delay :: "u32 \<Rightarrow> nat" where
  "no_progress_delay round = (if round = 0 \<or> round = 1 then 2 else if round = 2 then 5 else if round = 3 then 15 else 30)"

definition should_publish_no_progress_warning :: "u32 \<Rightarrow> bool" where
  "should_publish_no_progress_warning round \<longleftrightarrow> round = CATALOG_NO_PROGRESS_WARNING_ROUNDS"

definition no_progress_warning_message :: string where
  "no_progress_warning_message = ''L1 source is not advancing finalized data; Zone Catalog is waiting for a reachable Bedrock provider. Check Bedrock bootstrap peers and node logs.''"

text \<open>
  A wait is cut short by a cancellation and then rechecks the run; both give the error of \<open>ensure_current\<close>.
\<close>

definition wait_for_retry :: "'n environment \<Rightarrow> nat \<Rightarrow> unit run_of" where
  "wait_for_retry env seconds = ensure_current env"

definition cursor_is :: "catalog_snapshot \<Rightarrow> block_reference \<Rightarrow> bool" where
  "cursor_is s target \<longleftrightarrow> ingestion_cursor (cs_traversal s) = Some target"

definition catalog_poll_delay :: "'n environment \<Rightarrow> catalog_snapshot \<Rightarrow> block_reference \<Rightarrow> bool \<Rightarrow> u32 \<Rightarrow> (nat \<times> u32) run_of" where
  "catalog_poll_delay env s target made_progress round =
     (if made_progress \<or> cursor_is s target then
        run_bind (if \<not> made_progress \<and> round \<ge> CATALOG_NO_PROGRESS_WARNING_ROUNDS then publish_verified env s else run_return ())
          (\<lambda>_. run_return (CATALOG_POLL_INTERVAL, 0))
      else
        let round = saturating_add round 1 in
        run_bind (if should_publish_no_progress_warning round
            then run_bind (publish env \<lparr>pb_verification_state = StateVerified, pb_catalog = Some s, pb_readiness = None,
              pb_current_error = Some no_progress_warning_message\<rparr>) (\<lambda>_. run_return ())
            else run_return ())
          (\<lambda>_. run_return (no_progress_delay round, round)))"

section \<open>Engine calls\<close>

definition engine_context_for :: "'n environment \<Rightarrow> catalog_snapshot \<Rightarrow> engine_context run_of" where
  "engine_context_for env s =
     run_bind (now_unix env) (\<lambda>now.
     run_result (map_err map_engine_error
       (engine_context_new (en_source_revision env) (max now (cm_updated_at_unix (cs_metadata s))))))"

definition commit_catalog_batch :: "'n environment \<Rightarrow> catalog_snapshot \<Rightarrow> catalog_batch \<Rightarrow> catalog_snapshot run_of" where
  "commit_catalog_batch env s b =
     run_blocking_catalog env (\<lambda>store. commit_batch_from_snapshot (en_codecs env) store s b)"

text \<open>The repair asks for every block at most once, so one moment stands for all its requests.\<close>

definition repair_ancestry_run :: "'n environment \<Rightarrow> repair_request \<Rightarrow> 'n repair_outcome run_of" where
  "repair_ancestry_run env request =
     observe (\<lambda>t. map_err map_engine_error (repair_catalog_ancestry (en_block env t) request))"

definition confirm_current_catalog ::
  "'n environment \<Rightarrow> catalog_snapshot \<Rightarrow> block_reference option \<Rightarrow> repair_confirmation run_of" where
  "confirm_current_catalog env s lower =
     run_bind (verify_catalog_candidate env s) (\<lambda>activation.
     run_bind (run_result (case activation of
         ActVerified None \<Rightarrow> Ok ()
       | ActVerified (Some _) \<Rightarrow>
           Err (SvWorker (WorkerText ''catalog identity strengthened during ancestry repair; retry required''))
       | _ \<Rightarrow> Err (SvWorker (WorkerText ''catalog identity or checkpoint changed during ancestry repair'')))) (\<lambda>_.
     run_bind (run_result (ok_or (Option.bind (cs_traversal s) tr_target_lib)
         (SvWorker (WorkerText ''catalog repair has no fixed target LIB'')))) (\<lambda>target.
     run_return \<lparr>rc_target_lib = target, rc_lower_checkpoint = lower,
       rc_upper_frontier_checkpoint = latest_catalog_checkpoint s\<rparr>)))"

section \<open>Pages\<close>

definition reduce_page_run ::
  "'n environment \<Rightarrow> 'n externals \<Rightarrow> catalog_snapshot \<Rightarrow> 'n l1_event list \<Rightarrow> 'n page_reduction run_of" where
  "reduce_page_run env ext s events =
     run_bind (engine_context_for env s) (\<lambda>ctx.
     run_result (map_err map_engine_error (reduce_catalog_page ext s events ctx)))"

fun page_loop ::
  "nat \<Rightarrow> 'n environment \<Rightarrow> 'n externals \<Rightarrow> catalog_snapshot \<Rightarrow> 'n page_reduction \<Rightarrow> catalog_snapshot option run_of" where
  "page_loop 0 env ext s reduction = run_return None"
| "page_loop (Suc fuel) env ext s reduction =
     run_bind (ensure_current env) (\<lambda>_.
     case reduction of
       NoProgress \<Rightarrow> run_return (Some s)
     | Commit batch remaining \<Rightarrow>
         run_bind (commit_catalog_batch env s batch) (\<lambda>s'.
         run_bind (publish_verified env s') (\<lambda>_.
         if remaining = [] then run_return (Some s')
         else run_bind (reduce_page_run env ext s' remaining) (page_loop fuel env ext s')))
     | RepairRequired request pending \<Rightarrow>
         run_bind (repair_ancestry_run env request) (\<lambda>outcome.
         run_bind (ensure_current env) (\<lambda>_.
         run_bind (engine_context_for env s) (\<lambda>ctx.
         run_bind (run_result (map_err map_engine_error (reduce_catalog_repair ext s request pending outcome ctx)))
           (page_loop fuel env ext s))))
     | GapConfirmationRequired request pending outcome \<Rightarrow>
         run_bind (confirm_current_catalog env s (rq_lower_checkpoint request)) (\<lambda>confirmation.
         run_bind (engine_context_for env s) (\<lambda>ctx.
         run_bind (run_result (map_err map_engine_error
             (confirm_catalog_repair_gap ext s request pending outcome confirmation ctx)))
           (page_loop fuel env ext s))))"

definition apply_catalog_page ::
  "'n environment \<Rightarrow> 'n externals \<Rightarrow> catalog_snapshot \<Rightarrow> 'n l1_event list \<Rightarrow> catalog_snapshot option run_of" where
  "apply_catalog_page env ext s events =
     run_bind (reduce_page_run env ext s events) (page_loop (3 * length events + 1) env ext s)"

section \<open>Gap repair\<close>

definition repair_one_catalog_gap :: "'n environment \<Rightarrow> 'n externals \<Rightarrow> catalog_snapshot \<Rightarrow> catalog_snapshot run_of" where
  "repair_one_catalog_gap env ext s =
     run_bind (engine_context_for env s) (\<lambda>initial.
     if is_some_and (cs_frontier s) (\<lambda>f. fr_prefix_status f = PrefixUnavailable) then
       run_bind (run_result (map_err map_engine_error (catalog_prefix_repair_request s initial))) (\<lambda>request.
       run_bind (repair_ancestry_run env request) (\<lambda>outcome.
       run_bind (ensure_current env) (\<lambda>_.
       run_bind (confirm_current_catalog env s None) (\<lambda>confirmation.
       run_bind (engine_context_for env s) (\<lambda>ctx.
       run_bind (run_result (map_err map_engine_error (reduce_catalog_prefix_repair ext s outcome confirmation ctx))) (\<lambda>batch.
       case batch of None \<Rightarrow> run_return s | Some b \<Rightarrow> commit_catalog_batch env s b))))))
     else case cs_gaps s of
       [] \<Rightarrow> run_return s
     | gap # _ \<Rightarrow>
         run_bind (run_result (map_err map_engine_error (catalog_gap_repair_request s (gp_gap_id gap) initial))) (\<lambda>request.
         run_bind (repair_ancestry_run env request) (\<lambda>outcome.
         run_bind (ensure_current env) (\<lambda>_.
         run_bind (confirm_current_catalog env s (Some (gp_lower_checkpoint gap))) (\<lambda>confirmation.
         run_bind (engine_context_for env s) (\<lambda>ctx.
         run_bind (run_result (map_err map_engine_error
             (reduce_catalog_gap_repair ext s (gp_gap_id gap) outcome confirmation ctx))) (\<lambda>b.
         commit_catalog_batch env s b)))))))"

section \<open>The scan loop\<close>

text \<open>The inner loop of a cycle: pages from the cursor to the target, until a page is empty.\<close>

fun ingest_loop ::
  "nat \<Rightarrow> 'n environment \<Rightarrow> 'n externals \<Rightarrow> block_reference \<Rightarrow> catalog_snapshot \<Rightarrow> bool
   \<Rightarrow> (catalog_snapshot \<times> bool) option run_of" where
  "ingest_loop 0 env ext target s made_progress = run_return None"
| "ingest_loop (Suc fuel) env ext target s made_progress =
     run_bind (ensure_current env) (\<lambda>_.
     if cursor_is s target then run_return (Some (s, made_progress))
     else
       let slot_from = (case ingestion_cursor (cs_traversal s) of None \<Rightarrow> 0 | Some c \<Rightarrow> saturating_add (br_slot c) 1) in
       run_bind (run_result (map_err map_source_error (range_request_new slot_from target MAX_CATALOG_L1_RANGE_BLOCKS))) (\<lambda>request.
       run_bind (finalized_range env request) (\<lambda>events.
       run_bind (ensure_current env) (\<lambda>_.
       if events = [] then run_return (Some (s, made_progress))
       else
         run_bind (apply_catalog_page env ext s events) (\<lambda>applied.
         case applied of
           None \<Rightarrow> run_return None
         | Some s' \<Rightarrow>
             let made_progress = (made_progress
               \<or> cm_catalog_revision (cs_metadata s') \<noteq> cm_catalog_revision (cs_metadata s)) in
             run_bind (if cursor_is s' target then run_return () else wait_for_retry env 0) (\<lambda>_.
             ingest_loop fuel env ext target s' made_progress))))))"

record scan_state =
  sc_next_repair_at_unix :: u64
  sc_no_progress_round :: u32
  sc_first_scan_cycle :: bool
  sc_snapshot :: catalog_snapshot

definition scan_start :: "catalog_snapshot \<Rightarrow> scan_state" where
  "scan_start s = \<lparr>sc_next_repair_at_unix = 0, sc_no_progress_round = 0, sc_first_scan_cycle = True, sc_snapshot = s\<rparr>"

definition prepare_cycle ::
  "'n environment \<Rightarrow> bool \<Rightarrow> catalog_snapshot \<Rightarrow> block_reference \<Rightarrow> (catalog_snapshot \<times> bool) run_of" where
  "prepare_cycle env first s target =
     run_bind (engine_context_for env s) (\<lambda>ctx.
     run_bind (run_result (map_err map_engine_error
         (if first then prepare_resumed_catalog_catch_up s target ctx else prepare_catalog_catch_up s target ctx))) (\<lambda>prepared.
     case prepared of
       None \<Rightarrow> run_return (s, False)
     | Some b \<Rightarrow>
         run_bind (commit_catalog_batch env s b) (\<lambda>s'.
         run_bind (publish_verified env s') (\<lambda>_. run_return (s', True)))))"

definition repair_round ::
  "'n environment \<Rightarrow> 'n externals \<Rightarrow> u64 \<Rightarrow> catalog_snapshot \<Rightarrow> bool \<Rightarrow> (catalog_snapshot \<times> bool \<times> u64) run_of" where
  "repair_round env ext next_repair s made_progress =
     run_bind (now_unix env) (\<lambda>now.
     if now \<ge> next_repair then
       run_bind (repair_one_catalog_gap env ext s) (\<lambda>s'.
       let next_repair = saturating_add now CATALOG_REPAIR_INTERVAL_SECONDS in
       if cm_catalog_revision (cs_metadata s') \<noteq> cm_catalog_revision (cs_metadata s)
       then run_bind (publish_verified env s') (\<lambda>_. run_return (s', True, next_repair))
       else run_return (s', made_progress, next_repair))
     else run_return (s, made_progress, next_repair))"

definition scan_cycle :: "'n environment \<Rightarrow> 'n externals \<Rightarrow> scan_state \<Rightarrow> scan_state option run_of" where
  "scan_cycle env ext sc =
     run_bind (ensure_current env) (\<lambda>_.
     run_bind (chain_status env) (\<lambda>status.
     run_bind (ensure_current env) (\<lambda>_.
     let target = ls_lib (ct_snapshot status) in
     run_bind (prepare_cycle env (sc_first_scan_cycle sc) (sc_snapshot sc) target) (\<lambda>(s, progress).
     run_bind (ingest_loop (unat (br_slot target) + 4) env ext target s progress) (\<lambda>ingested.
     case ingested of
       None \<Rightarrow> run_return None
     | Some (s, progress) \<Rightarrow>
         run_bind (repair_round env ext (sc_next_repair_at_unix sc) s progress) (\<lambda>(s, progress, next_repair).
         run_bind (catalog_poll_delay env s target progress (sc_no_progress_round sc)) (\<lambda>(delay, round).
         run_bind (wait_for_retry env delay) (\<lambda>_.
         run_return (Some \<lparr>sc_next_repair_at_unix = next_repair, sc_no_progress_round = round,
           sc_first_scan_cycle = False, sc_snapshot = s\<rparr>)))))))))"

text \<open>The first \<open>n\<close> cycles of the endless loop.\<close>

fun scan_cycles :: "nat \<Rightarrow> 'n environment \<Rightarrow> 'n externals \<Rightarrow> scan_state \<Rightarrow> scan_state option run_of" where
  "scan_cycles 0 env ext sc = run_return (Some sc)"
| "scan_cycles (Suc n) env ext sc =
     run_bind (scan_cycle env ext sc) (\<lambda>next. case next of
       None \<Rightarrow> run_return None | Some sc' \<Rightarrow> scan_cycles n env ext sc')"

definition run_catalog_scan :: "nat \<Rightarrow> 'n environment \<Rightarrow> 'n externals \<Rightarrow> scan_state option run_of" where
  "run_catalog_scan n env ext =
     run_bind (catalog_snapshot_of env) (\<lambda>s. scan_cycles n env ext (scan_start s))"

end
