(* ===== verification/Catalog_Repair.thy ===== *)
theory Catalog_Repair
  imports Catalog_Engine
begin

text \<open>
  Linked runs of block checkpoints, what the page and repair checks of the engine accept in terms
  of them, and the ancestry repair loop: it returns within its block budget, every outcome it
  returns passes the check of its consumer or exposes an inconsistent source, and it
  finds every ancestry a source can serve within the budget.
\<close>

section \<open>Linked runs\<close>

text \<open>\<open>links c d\<close>: block \<open>d\<close> is a child of block \<open>c\<close> at a later slot.\<close>

definition links :: "block_checkpoint \<Rightarrow> block_checkpoint \<Rightarrow> bool" where
  "links c d \<longleftrightarrow> cp_slot c < cp_slot d \<and> cp_parent_id d = cp_block_id c"

fun linked :: "block_checkpoint list \<Rightarrow> bool" where
  "linked [] = True"
| "linked [c] = True"
| "linked (c # d # cs) = (links c d \<and> linked (d # cs))"

lemma linked_append:
  "linked (xs @ ys) \<longleftrightarrow> linked xs \<and> linked ys \<and> (xs \<noteq> [] \<and> ys \<noteq> [] \<longrightarrow> links (last xs) (hd ys))"
proof (induction xs rule: linked.induct)
  case (2 c)
  then show ?case by (cases ys) auto
qed auto

lemma linked_Cons: "linked (c # cs) \<longleftrightarrow> linked cs \<and> (cs \<noteq> [] \<longrightarrow> links c (hd cs))"
  by (cases cs) auto

lemma linked_sorted: "linked cs \<Longrightarrow> strictly_sorted (map cp_slot cs)"
proof (induction cs rule: linked.induct)
  case (3 c d cs)
  then have "strictly_sorted (map cp_slot (d # cs))" "cp_slot c < cp_slot d" by (auto simp: links_def)
  then show ?case by auto
qed auto

lemma linked_hd_le: "linked (c # cs) \<Longrightarrow> d \<in> set (c # cs) \<Longrightarrow> cp_slot c \<le> cp_slot d"
  using linked_sorted[of "c # cs"] by auto

lemma linked_slots:
  assumes "linked cs" "c \<in> set cs"
  shows "cp_slot (hd cs) \<le> cp_slot c" and "cp_slot c \<le> cp_slot (last cs)"
proof -
  have s: "sorted (map cp_slot cs)" using linked_sorted[OF assms(1)] strictly_sorted_iff by blast
  obtain xs ys where cs: "cs = xs @ c # ys" using assms(2) by (meson split_list)
  show "cp_slot (hd cs) \<le> cp_slot c" using s unfolding cs by (cases xs) (auto simp: sorted_append)
  show "cp_slot c \<le> cp_slot (last cs)" using s unfolding cs by (cases ys rule: rev_cases) (auto simp: sorted_append)
qed

section \<open>What the checks accept\<close>

lemma validate_id_Ok [ok_simps]: "validate_id v l = Ok u \<longleftrightarrow> hex_id v"
  by (simp add: validate_id_def ok_simps)

lemma validate_reference_Ok [ok_simps]: "validate_reference r l = Ok u \<longleftrightarrow> hex_id (br_block_id r)"
  by (simp add: validate_reference_def ok_simps)

lemma engine_validate_checkpoint_Ok [ok_simps]:
  "engine_validate_checkpoint c l = Ok u \<longleftrightarrow> hex_id (cp_block_id c) \<and> hex_id (cp_parent_id c)"
  by (simp add: engine_validate_checkpoint_def ok_simps)

lemma validate_repair_request_Ok:
  "validate_repair_request r = Ok u \<longleftrightarrow>
     hex_id (cp_block_id (rq_upper_checkpoint r)) \<and> hex_id (cp_parent_id (rq_upper_checkpoint r))
     \<and> (\<forall>lower. rq_lower_checkpoint r = Some lower \<longrightarrow>
          hex_id (br_block_id lower) \<and> br_slot lower < cp_slot (rq_upper_checkpoint r))
     \<and> (\<forall>g. rq_expected_genesis_id r = Some g \<longrightarrow> hex_id g)"
  by (auto simp: validate_repair_request_def ok_simps split: option.splits)

lemma ascending_from_Ok:
  "ascending_from p es = Ok () \<longleftrightarrow>
     sorted_wrt (<) (map (cp_slot \<circ> event_checkpoint) es)
     \<and> (\<forall>slot. p = Some slot \<longrightarrow> (\<forall>e \<in> set es. slot < cp_slot (event_checkpoint e)))"
  by (induction es arbitrary: p) (auto simp: is_some_and_def split: option.splits)

lemma validate_strictly_ascending_slots_Ok [ok_simps]:
  "validate_strictly_ascending_slots es = Ok u \<longleftrightarrow> strictly_sorted (map (cp_slot \<circ> event_checkpoint) es)"
  by (simp add: validate_strictly_ascending_slots_def ascending_from_Ok)

lemma recovered_chain_Ok:
  "recovered_chain p ids bs = Ok () \<longleftrightarrow>
     linked ((case p of Some c \<Rightarrow> [c] | None \<Rightarrow> []) @ map lb_checkpoint bs)
     \<and> distinct (map (cp_block_id \<circ> lb_checkpoint) bs)
     \<and> (cp_block_id \<circ> lb_checkpoint) ` set bs \<inter> set ids = {}
     \<and> (\<forall>b \<in> set bs. hex_id (cp_block_id (lb_checkpoint b)) \<and> hex_id (cp_parent_id (lb_checkpoint b)))"
proof (induction bs arbitrary: p ids)
  case Nil
  then show ?case by (cases p) auto
next
  case (Cons b bs)
  show ?case
    by (cases p) (auto simp: Cons.IH ok_simps Let_def links_def not_le linked_Cons[of "lb_checkpoint b"]
      split: if_splits)
qed

lemma validate_recovered_chain_Ok [ok_simps]:
  "validate_recovered_chain bs = Ok u \<longleftrightarrow>
     linked (map lb_checkpoint bs) \<and> distinct (map (cp_block_id \<circ> lb_checkpoint) bs)
     \<and> (\<forall>b \<in> set bs. hex_id (cp_block_id (lb_checkpoint b)) \<and> hex_id (cp_parent_id (lb_checkpoint b)))"
  by (simp add: validate_recovered_chain_def recovered_chain_Ok)

section \<open>Splitting a page\<close>

lemma split_loop_broken: "split_loop p True acc rem es = Ok (acc, rem @ es)"
  by (induction es arbitrary: rem) auto

lemma split_loop_Ok:
  "split_loop p False acc [] es = Ok (a, r) \<Longrightarrow> \<exists>xs. a = acc @ xs \<and> es = xs @ r
     \<and> linked (p # map event_checkpoint xs)
     \<and> (r \<noteq> [] \<longrightarrow> cp_slot (last (p # map event_checkpoint xs)) < cp_slot (event_checkpoint (hd r))
          \<and> \<not> links (last (p # map event_checkpoint xs)) (event_checkpoint (hd r)))"
proof (induction es arbitrary: p acc)
  case (Cons e es)
  show ?case
  proof (cases "links p (event_checkpoint e)")
    case True
    then have "split_loop (event_checkpoint e) False (acc @ [e]) [] es = Ok (a, r)"
      using Cons.prems by (simp add: links_def)
    from Cons.IH[OF this] obtain xs where xs: "a = (acc @ [e]) @ xs" "es = xs @ r"
      "linked (event_checkpoint e # map event_checkpoint xs)"
      "r \<noteq> [] \<longrightarrow> cp_slot (last (event_checkpoint e # map event_checkpoint xs)) < cp_slot (event_checkpoint (hd r))
          \<and> \<not> links (last (event_checkpoint e # map event_checkpoint xs)) (event_checkpoint (hd r))"
      by blast
    then show ?thesis using True by (intro exI[of _ "e # xs"]) simp
  next
    case False
    then have "a = acc" "r = e # es" "cp_slot p < cp_slot (event_checkpoint e)"
      using Cons.prems by (auto simp: links_def split_loop_broken Let_def not_le split: if_splits)
    then show ?thesis using False by (intro exI[of _ "[]"]) simp
  qed
qed simp

lemma split_connected_events_Ok:
  assumes "split_connected_events es = Ok (a, r)"
  shows "es = a @ r" "a \<noteq> []" "linked (map event_checkpoint a)"
    "r \<noteq> [] \<Longrightarrow> \<not> links (last (map event_checkpoint a)) (event_checkpoint (hd r))"
proof -
  obtain e es' where es: "es = e # es'" and s: "split_loop (event_checkpoint e) False [e] [] es' = Ok (a, r)"
    using assms by (cases es) (auto simp: split_connected_events_def)
  from split_loop_Ok[OF s] obtain xs where "a = [e] @ xs" "es' = xs @ r"
    "linked (event_checkpoint e # map event_checkpoint xs)"
    "r \<noteq> [] \<longrightarrow> \<not> links (last (event_checkpoint e # map event_checkpoint xs)) (event_checkpoint (hd r))"
    by blast
  then show "es = a @ r" "a \<noteq> []" "linked (map event_checkpoint a)"
    "r \<noteq> [] \<Longrightarrow> \<not> links (last (map event_checkpoint a)) (event_checkpoint (hd r))"
    using es by auto
qed

lemma split_loop_total:
  "strictly_sorted (map (cp_slot \<circ> event_checkpoint) es) \<Longrightarrow>
   \<forall>e \<in> set es. cp_slot p < cp_slot (event_checkpoint e) \<Longrightarrow>
   \<exists>x. split_loop p False acc [] es = Ok x"
proof (induction es arbitrary: p acc)
  case (Cons e es)
  then show ?case by (auto simp: Let_def split_loop_broken not_le)
qed simp

lemma split_connected_events_total:
  assumes "es \<noteq> []" "strictly_sorted (map (cp_slot \<circ> event_checkpoint) es)"
  shows "\<exists>x. split_connected_events es = Ok x"
  using assms split_loop_total[of "tl es" "event_checkpoint (hd es)"]
  by (cases es) (auto simp: split_connected_events_def)

section \<open>The repair loop\<close>

text \<open>
  The blocks gathered below the upper checkpoint form a linked run with distinct valid identifiers
  that stays strictly above the lower checkpoint (or above slot zero when there is none).
\<close>

definition gathered :: "repair_request \<Rightarrow> 'n l1_block list \<Rightarrow> bool" where
  "gathered r bs \<longleftrightarrow>
     linked (map lb_checkpoint bs @ [rq_upper_checkpoint r])
     \<and> distinct (map (cp_block_id \<circ> lb_checkpoint) bs)
     \<and> (\<forall>b \<in> set bs. hex_id (cp_block_id (lb_checkpoint b)) \<and> hex_id (cp_parent_id (lb_checkpoint b)))
     \<and> length bs \<le> rq_max_blocks r
     \<and> (\<forall>lower. rq_lower_checkpoint r = Some lower \<longrightarrow>
          (\<forall>b \<in> set bs. br_slot lower < cp_slot (lb_checkpoint b)
             \<and> cp_block_id (lb_checkpoint b) \<noteq> br_block_id lower))"

text \<open>The lowest block of the run, the upper checkpoint itself when nothing was gathered.\<close>

definition lowest :: "repair_request \<Rightarrow> 'n l1_block list \<Rightarrow> block_checkpoint" where
  "lowest r bs = hd (map lb_checkpoint bs @ [rq_upper_checkpoint r])"

definition sound_outcome :: "repair_request \<Rightarrow> 'n repair_outcome \<Rightarrow> bool" where
  "sound_outcome r out \<longleftrightarrow> (case out of
     Connected bs \<Rightarrow> gathered r bs \<and> (case rq_lower_checkpoint r of
         Some lower \<Rightarrow> cp_parent_id (lowest r bs) = br_block_id lower
       | None \<Rightarrow> bs \<noteq> [] \<and> cp_slot (lowest r bs) = 0
           \<and> is_none_or (rq_expected_genesis_id r) (\<lambda>g. g = cp_block_id (lowest r bs)))
   | Unresolved bs missing _ \<Rightarrow> gathered r bs \<and> cp_parent_id (lowest r bs) = missing
       \<and> \<not> is_some_and (rq_lower_checkpoint r) (\<lambda>lower. br_block_id lower = missing)
       \<and> (rq_lower_checkpoint r = None \<longrightarrow> (\<forall>b \<in> set bs. cp_slot (lb_checkpoint b) \<noteq> 0)))"

definition loop_inv ::
  "repair_request \<Rightarrow> string \<Rightarrow> u64 \<Rightarrow> 'n l1_block list \<Rightarrow> string list \<Rightarrow> bool" where
  "loop_inv r requested child recovered visited \<longleftrightarrow>
     gathered r (rev recovered) \<and> requested = cp_parent_id (lowest r (rev recovered))
     \<and> child = cp_slot (lowest r (rev recovered))
     \<and> set visited = (cp_block_id \<circ> lb_checkpoint) ` set recovered
     \<and> (rq_lower_checkpoint r = None \<longrightarrow> (\<forall>b \<in> set recovered. cp_slot (lb_checkpoint b) \<noteq> 0))"

lemma gathered_Cons:
  assumes "gathered r bs" "length bs < rq_max_blocks r"
    and "cp_block_id c = cp_parent_id (lowest r bs)" "cp_slot c < cp_slot (lowest r bs)"
    and "cp_block_id c \<notin> (cp_block_id \<circ> lb_checkpoint) ` set bs" "hex_id (cp_block_id c)" "hex_id (cp_parent_id c)"
    and "\<And>lower. rq_lower_checkpoint r = Some lower \<Longrightarrow>
      br_slot lower < cp_slot c \<and> cp_block_id c \<noteq> br_block_id lower"
    and "lb_checkpoint b = c"
  shows "gathered r (b # bs)" "lowest r (b # bs) = c"
proof -
  show "lowest r (b # bs) = c" using assms by (simp add: lowest_def)
  have "linked (c # map lb_checkpoint bs @ [rq_upper_checkpoint r])"
    using assms by (auto simp: linked_Cons gathered_def links_def lowest_def)
  then show "gathered r (b # bs)"
    using assms unfolding gathered_def by auto
qed

lemma loop_inv_step:
  assumes "loop_inv r requested child recovered visited" "length recovered < rq_max_blocks r"
    and "requested \<notin> set visited" "cp_block_id (lb_checkpoint b) = requested"
    and "cp_slot (lb_checkpoint b) < child" "hex_id (cp_block_id (lb_checkpoint b))"
    and "hex_id (cp_parent_id (lb_checkpoint b))"
    and "\<And>lower. rq_lower_checkpoint r = Some lower \<Longrightarrow>
      br_slot lower < cp_slot (lb_checkpoint b) \<and> br_block_id lower \<noteq> requested"
  shows "gathered r (b # rev recovered)" "lowest r (b # rev recovered) = lb_checkpoint b"
proof -
  have inv: "gathered r (rev recovered)" "requested = cp_parent_id (lowest r (rev recovered))"
    "child = cp_slot (lowest r (rev recovered))"
    "set visited = (cp_block_id \<circ> lb_checkpoint) ` set (rev recovered)"
    using assms(1) by (simp_all add: loop_inv_def)
  have new: "cp_block_id (lb_checkpoint b) \<notin> (cp_block_id \<circ> lb_checkpoint) ` set (rev recovered)"
    using assms(3) unfolding inv(4) assms(4) .
  have len: "length (rev recovered) < rq_max_blocks r" using assms(2) by simp
  have low: "br_slot lower < cp_slot (lb_checkpoint b) \<and> cp_block_id (lb_checkpoint b) \<noteq> br_block_id lower"
    if "rq_lower_checkpoint r = Some lower" for lower
    using assms(8)[OF that] assms(4) by auto
  note g = gathered_Cons[OF inv(1) len assms(4)[unfolded inv(2)] assms(5)[unfolded inv(3)] new assms(6,7) low refl]
  show "gathered r (b # rev recovered)" "lowest r (b # rev recovered) = lb_checkpoint b"
    by (rule g; assumption)+
qed

lemma loop_inv_next:
  assumes "gathered r (b # rev recovered)" "lowest r (b # rev recovered) = lb_checkpoint b"
    "loop_inv r requested child recovered visited" "cp_block_id (lb_checkpoint b) = requested"
    "rq_lower_checkpoint r = None \<Longrightarrow> cp_slot (lb_checkpoint b) \<noteq> 0"
  shows "loop_inv r (cp_parent_id (lb_checkpoint b)) (cp_slot (lb_checkpoint b)) (recovered @ [b])
    (requested # visited)"
  using assms by (auto simp: loop_inv_def)

lemma repair_loop_sound:
  "repair_loop source r requested child recovered visited = Ok out \<Longrightarrow>
   loop_inv r requested child recovered visited \<Longrightarrow> sound_outcome r out"
proof (induction source r requested child recovered visited rule: repair_loop.induct)
  case (1 source r requested child recovered visited)
  note eq = 1(3)[unfolded repair_loop.simps[of source r requested]] and inv = 1(4)
  have g: "gathered r (rev recovered)" "cp_parent_id (lowest r (rev recovered)) = requested"
    "rq_lower_checkpoint r = None \<longrightarrow> (\<forall>b \<in> set recovered. cp_slot (lb_checkpoint b) \<noteq> 0)"
    using inv by (auto simp: loop_inv_def)
  consider (reached) "is_some_and (rq_lower_checkpoint r) (\<lambda>lower. br_block_id lower = requested)"
    | (stopped) reason where "out = Unresolved (rev recovered) requested reason"
        "\<not> is_some_and (rq_lower_checkpoint r) (\<lambda>lower. br_block_id lower = requested)"
    | (block) b where "source requested = Ok (Some b)" "requested \<notin> set visited"
        "length recovered < rq_max_blocks r"
        "\<not> is_some_and (rq_lower_checkpoint r) (\<lambda>lower. br_block_id lower = requested)"
    using eq by (force simp: not_le split: if_splits result.splits option.splits source_error.splits)
  then show ?case
  proof cases
    case reached
    then show ?thesis using eq g by (auto simp: sound_outcome_def is_some_and_def split: option.splits)
  next
    case stopped
    then show ?thesis using g by (simp add: sound_outcome_def)
  next
    case block
    let ?c = "lb_checkpoint b"
    have chk: "hex_id (cp_block_id ?c)" "hex_id (cp_parent_id ?c)" "cp_block_id ?c = requested" "cp_slot ?c < child"
      using eq block by (auto simp: ok_simps Let_def not_le split: if_splits)
    have low: "br_slot lower < cp_slot ?c \<and> br_block_id lower \<noteq> requested"
      if "rq_lower_checkpoint r = Some lower" for lower
      using eq block that by (auto simp: ok_simps Let_def not_le split: if_splits)
    note step = loop_inv_step[OF inv block(3,2) chk(3,4,1,2) low]
    show ?thesis
    proof (cases "rq_lower_checkpoint r = None \<and> cp_slot ?c = 0")
      case True
      then have "out = Connected (b # rev recovered)" "is_none_or (rq_expected_genesis_id r) (\<lambda>g. g = cp_block_id ?c)"
        using eq block by (auto simp: ok_simps Let_def is_none_or_def is_some_and_def not_le split: if_splits option.splits)
      then show ?thesis using step True by (simp add: sound_outcome_def)
    next
      case False
      have rest: "repair_loop source r (cp_parent_id ?c) (cp_slot ?c) (recovered @ [b]) (requested # visited) = Ok out"
        using eq block False by (auto simp: ok_simps Let_def not_le split: if_splits option.splits)
      have inv': "loop_inv r (cp_parent_id ?c) (cp_slot ?c) (recovered @ [b]) (requested # visited)"
        using loop_inv_next[OF step inv chk(3)] False by blast
      show ?thesis
      proof (cases "rq_lower_checkpoint r")
        case None
        then show ?thesis
          using 1(1)[OF block(4) _ block(2,1) refl refl] block chk low rest inv' False
          by (auto simp: ok_simps not_le)
      next
        case (Some lower)
        then show ?thesis
          using 1(2)[OF block(4) _ block(2,1) refl refl] block chk low rest inv' False
          by (auto simp: ok_simps not_le)
      qed
    qed
  qed
qed

lemma repair_catalog_ancestry_sound:
  assumes "repair_catalog_ancestry source r = Ok out"
  shows "sound_outcome r out" "validate_repair_request r = Ok ()"
proof -
  show v: "validate_repair_request r = Ok ()"
    using assms by (auto simp: repair_catalog_ancestry_def ok_simps)
  have "loop_inv r (cp_parent_id (rq_upper_checkpoint r)) (cp_slot (rq_upper_checkpoint r)) [] []"
    by (simp add: loop_inv_def gathered_def lowest_def)
  then show "sound_outcome r out"
    using assms v repair_loop_sound by (auto simp: repair_catalog_ancestry_def)
qed

lemma gathered_facts:
  assumes "gathered r bs" "bs \<noteq> []"
  shows "validate_recovered_chain bs = Ok ()" "lowest r bs = lb_checkpoint (hd bs)"
    "links (lb_checkpoint (last bs)) (rq_upper_checkpoint r)"
    "\<forall>b \<in> set bs. cp_slot (lowest r bs) \<le> cp_slot (lb_checkpoint b)
       \<and> cp_slot (lb_checkpoint b) < cp_slot (rq_upper_checkpoint r)"
proof -
  have l: "linked (map lb_checkpoint bs @ [rq_upper_checkpoint r])" using assms(1) by (simp add: gathered_def)
  show "validate_recovered_chain bs = Ok ()"
    using assms(1) l by (simp add: ok_simps gathered_def linked_append)
  show lo: "lowest r bs = lb_checkpoint (hd bs)" using assms(2) by (cases bs) (simp_all add: lowest_def)
  show up: "links (lb_checkpoint (last bs)) (rq_upper_checkpoint r)"
    using l assms(2) by (simp add: linked_append last_map)
  have "linked (map lb_checkpoint bs)" using l by (simp add: linked_append)
  then show "\<forall>b \<in> set bs. cp_slot (lowest r bs) \<le> cp_slot (lb_checkpoint b)
       \<and> cp_slot (lb_checkpoint b) < cp_slot (rq_upper_checkpoint r)"
    using linked_slots[of "map lb_checkpoint bs"] up assms(2) unfolding lo links_def
    by (fastforce simp: hd_map last_map)
qed

lemma connected_check:
  assumes "sound_outcome r (Connected bs)" "validate_repair_request r = Ok ()"
  shows "validate_connected_repair r bs =
    (if \<exists>b \<in> set bs. cp_block_id (lb_checkpoint b) = cp_block_id (rq_upper_checkpoint r)
     then Err (SourceInconsistent (InRepair RepairContainsUpper)) else Ok ())"
proof (cases "bs = []")
  case True
  then show ?thesis
    using assms by (auto simp: validate_connected_repair_def sound_outcome_def lowest_def is_some_and_def
        split: option.splits)
next
  case False
  have g: "gathered r bs" using assms(1) by (simp add: sound_outcome_def)
  note f = gathered_facts[OF g False]
  have newest: "cp_block_id (lb_checkpoint (last bs)) = cp_parent_id (rq_upper_checkpoint r)"
    "\<not> cp_slot (rq_upper_checkpoint r) \<le> cp_slot (lb_checkpoint (last bs))"
    using f(3) by (simp_all add: links_def not_le)
  show ?thesis
  proof (cases "rq_lower_checkpoint r")
    case None
    then have "cp_slot (lb_checkpoint (hd bs)) = 0"
      "\<not> is_some_and (rq_expected_genesis_id r) (\<lambda>g. g \<noteq> cp_block_id (lb_checkpoint (hd bs)))"
      using assms(1) f(2) by (auto simp: sound_outcome_def is_none_or_def is_some_and_def split: option.splits)
    then show ?thesis
      using False f(1) assms(2) None by (simp add: validate_connected_repair_def newest list_ex_iff Let_def)
  next
    case (Some lower)
    then have "\<forall>b \<in> set bs. br_slot lower < cp_slot (lb_checkpoint b) \<and> cp_block_id (lb_checkpoint b) \<noteq> br_block_id lower"
      using g by (simp add: gathered_def)
    then have "\<not> cp_slot (lb_checkpoint (hd bs)) \<le> br_slot lower"
      "\<not> (\<exists>b \<in> set bs. cp_block_id (lb_checkpoint b) = br_block_id lower)"
      using hd_in_set[OF False] by (auto simp: not_le)
    moreover have "cp_parent_id (lb_checkpoint (hd bs)) = br_block_id lower"
      using assms(1) Some f(2) by (simp add: sound_outcome_def)
    ultimately show ?thesis
      using False f(1) assms(2) Some by (simp add: validate_connected_repair_def newest list_ex_iff Let_def)
  qed
qed

lemma unresolved_check:
  assumes "sound_outcome r (Unresolved bs missing reason)" "validate_repair_request r = Ok ()"
  shows "validate_unresolved_repair r bs missing (rq_upper_checkpoint r) =
    (if \<exists>b \<in> set bs. cp_block_id (lb_checkpoint b) \<in> {missing, cp_block_id (rq_upper_checkpoint r)}
     then Err (SourceInconsistent (InRepair UnresolvedCrossesBoundary)) else Ok ())"
proof -
  have g: "gathered r bs" "cp_parent_id (lowest r bs) = missing"
    "\<not> is_some_and (rq_lower_checkpoint r) (\<lambda>lower. br_block_id lower = missing)"
    "rq_lower_checkpoint r = None \<longrightarrow> (\<forall>b \<in> set bs. cp_slot (lb_checkpoint b) \<noteq> 0)"
    using assms(1) by (simp_all add: sound_outcome_def)
  have hex: "hex_id missing"
    using g(1,2) assms(2) by (cases bs) (auto simp: gathered_def lowest_def validate_repair_request_Ok)
  show ?thesis
  proof (cases "bs = []")
    case True
    then show ?thesis
      using g hex assms(2) by (simp add: validate_unresolved_repair_def validate_id_def validate_hex_id_hex_id lowest_def)
  next
    case False
    note f = gathered_facts[OF g(1) False]
    have ends: "cp_block_id (lb_checkpoint (last bs)) = cp_parent_id (rq_upper_checkpoint r)"
      "\<not> cp_slot (rq_upper_checkpoint r) \<le> cp_slot (lb_checkpoint (last bs))"
      "cp_parent_id (lb_checkpoint (hd bs)) = missing"
      using f(2,3) g(2) by (simp_all add: links_def not_le)
    have low: "\<not> is_some_and (rq_lower_checkpoint r) (\<lambda>lower. cp_slot (lb_checkpoint b) \<le> br_slot lower)"
      "\<not> is_some_and (rq_lower_checkpoint r) (\<lambda>lower. cp_block_id (lb_checkpoint b) = br_block_id lower)"
      "\<not> (rq_lower_checkpoint r = None \<and> cp_slot (lb_checkpoint b) = 0)" if "b \<in> set bs" for b
      using g(1,4) that by (auto simp: gathered_def is_some_and_def not_le split: option.splits)
    have "validate_id missing LUnresolvedRepairBlockId = Ok ()" using hex by (simp add: ok_simps)
    then show ?thesis
      using False f(1) g(3) low(1,3)[OF hd_in_set[OF False]] low(2) assms(2)
      by (auto simp: validate_unresolved_repair_def ends list_ex_iff Let_def)
  qed
qed

definition recovered_blocks :: "'n repair_outcome \<Rightarrow> 'n l1_block list" where
  "recovered_blocks out = (case out of Connected bs \<Rightarrow> bs | Unresolved bs _ _ \<Rightarrow> bs)"

definition outcome_check :: "repair_request \<Rightarrow> 'n repair_outcome \<Rightarrow> unit engine_result" where
  "outcome_check r out = (case out of
     Connected bs \<Rightarrow> validate_connected_repair r bs
   | Unresolved bs missing _ \<Rightarrow> validate_unresolved_repair r bs missing (rq_upper_checkpoint r))"

lemma repair_loop_served:
  "repair_loop source r requested child recovered visited = Ok out \<Longrightarrow>
   \<forall>b \<in> set recovered. \<exists>i. source i = Ok (Some b) \<Longrightarrow>
   \<forall>b \<in> set (recovered_blocks out). \<exists>i. source i = Ok (Some b)"
proof (induction source r requested child recovered visited rule: repair_loop.induct)
  case (1 source r requested child recovered visited)
  note eq = 1(3)[unfolded repair_loop.simps[of source r requested]]
  consider (stop) "recovered_blocks out = rev recovered"
    | (genesis) b where "source requested = Ok (Some b)" "recovered_blocks out = b # rev recovered"
    | (more) b where "source requested = Ok (Some b)" "repair_loop source r (cp_parent_id (lb_checkpoint b))
        (cp_slot (lb_checkpoint b)) (recovered @ [b]) (requested # visited) = Ok out"
    using eq by (auto simp: recovered_blocks_def ok_simps Let_def
        split: if_splits result.splits option.splits source_error.splits)
  then show ?case
  proof cases
    case more
    have new: "\<forall>b \<in> set (recovered @ [b]). \<exists>i. source i = Ok (Some b)" using 1(4) more(1) by auto
    show ?thesis
      using eq 1(1)[OF _ _ _ more(1) refl refl] 1(2)[OF _ _ _ more(1) refl refl] more new
      by (auto simp: Let_def ok_simps recovered_blocks_def split: if_splits option.splits)
  qed (use 1(4) in auto)
qed

text \<open>
  An honest source: every identifier has one slot, and a block above slot zero has a parent
  at a lower slot.
\<close>

definition honest_source ::
  "(string \<Rightarrow> u64) \<Rightarrow> block_checkpoint \<Rightarrow> (string \<Rightarrow> ('n l1_block option, source_error) result) \<Rightarrow> bool" where
  "honest_source slot_of upper source \<longleftrightarrow>
     slot_of (cp_block_id upper) = cp_slot upper
     \<and> (\<forall>i b. source i = Ok (Some b) \<longrightarrow> cp_slot (lb_checkpoint b) = slot_of (cp_block_id (lb_checkpoint b))
          \<and> (cp_slot (lb_checkpoint b) \<noteq> 0 \<longrightarrow> slot_of (cp_parent_id (lb_checkpoint b)) < cp_slot (lb_checkpoint b)))"

lemma honest_no_repeat:
  assumes g: "gathered r bs" and hon: "honest_source slot_of (rq_upper_checkpoint r) source"
    and served: "\<forall>b \<in> set bs. \<exists>i. source i = Ok (Some b)" and b: "b \<in> set bs"
  shows "cp_block_id (lb_checkpoint b) \<noteq> cp_block_id (rq_upper_checkpoint r)"
    and "cp_slot (lowest r bs) \<noteq> 0 \<Longrightarrow> cp_block_id (lb_checkpoint b) \<noteq> cp_parent_id (lowest r bs)"
proof -
  have ne: "bs \<noteq> []" using b by auto
  note f = gathered_facts[OF g ne]
  have slot: "cp_slot (lb_checkpoint c) = slot_of (cp_block_id (lb_checkpoint c))"
    "cp_slot (lb_checkpoint c) \<noteq> 0 \<Longrightarrow> slot_of (cp_parent_id (lb_checkpoint c)) < cp_slot (lb_checkpoint c)"
    if "c \<in> set bs" for c
    using hon served that unfolding honest_source_def by metis+
  have lt: "cp_slot (lb_checkpoint b) < cp_slot (rq_upper_checkpoint r)"
    "cp_slot (lowest r bs) \<le> cp_slot (lb_checkpoint b)" using f(4) b by auto
  show "cp_block_id (lb_checkpoint b) \<noteq> cp_block_id (rq_upper_checkpoint r)"
    using lt(1) slot(1)[OF b] hon unfolding honest_source_def by fastforce
  show "cp_slot (lowest r bs) \<noteq> 0 \<Longrightarrow> cp_block_id (lb_checkpoint b) \<noteq> cp_parent_id (lowest r bs)"
    using lt(2) slot(2)[OF hd_in_set[OF ne]] slot(1)[OF b] unfolding f(2) by fastforce
qed

text \<open>
  C20: Whatever the L1 source answers, the ancestry repair returns at most the requested number of
  blocks, and the outcome it returns passes the check its consumer makes or is refused there as an
  inconsistent source; it is never refused as an invalid engine state. When the source gives every
  identifier one slot, which agrees with the upper checkpoint, and every block above slot zero has its
  parent at a lower slot, the outcome is always accepted.
\<close>

theorem repair_outcome_accepted:
  assumes "repair_catalog_ancestry source r = Ok out"
  shows "length (recovered_blocks out) \<le> rq_max_blocks r
    \<and> outcome_check r out \<in> {Ok (), Err (SourceInconsistent (InRepair RepairContainsUpper)),
      Err (SourceInconsistent (InRepair UnresolvedCrossesBoundary))}
    \<and> (honest_source slot_of (rq_upper_checkpoint r) source \<longrightarrow> outcome_check r out = Ok ())"
proof (intro conjI impI)
  note sound = repair_catalog_ancestry_sound[OF assms]
  show "length (recovered_blocks out) \<le> rq_max_blocks r"
    using sound by (cases out) (auto simp: recovered_blocks_def sound_outcome_def gathered_def)
  show "outcome_check r out \<in> {Ok (), Err (SourceInconsistent (InRepair RepairContainsUpper)),
      Err (SourceInconsistent (InRepair UnresolvedCrossesBoundary))}"
    using sound by (cases out) (auto simp: outcome_check_def connected_check unresolved_check)
  assume hon: "honest_source slot_of (rq_upper_checkpoint r) source"
  have served: "\<forall>b \<in> set (recovered_blocks out). \<exists>i. source i = Ok (Some b)"
    using assms repair_loop_served by (fastforce simp: repair_catalog_ancestry_def ok_simps)
  have g: "gathered r (recovered_blocks out)"
    using sound by (cases out) (auto simp: recovered_blocks_def sound_outcome_def)
  show "outcome_check r out = Ok ()"
  proof (cases out)
    case (Connected bs)
    then show ?thesis
      using sound honest_no_repeat(1)[OF g hon served]
      by (simp add: outcome_check_def connected_check recovered_blocks_def)
  next
    case (Unresolved bs missing reason)
    have pos: "cp_slot (lowest r bs) \<noteq> 0" if "bs \<noteq> []"
      using sound(1) gathered_facts(2)[OF _ that] hd_in_set[OF that] Unresolved
      by (cases "rq_lower_checkpoint r") (fastforce simp: sound_outcome_def gathered_def)+
    have "cp_block_id (lb_checkpoint b) \<notin> {missing, cp_block_id (rq_upper_checkpoint r)}" if b: "b \<in> set bs" for b
    proof -
      have "b \<in> set (recovered_blocks out)" "recovered_blocks out = bs"
        using b Unresolved by (simp_all add: recovered_blocks_def)
      moreover have "cp_slot (lowest r bs) \<noteq> 0" by (rule pos) (use b in auto)
      moreover have "missing = cp_parent_id (lowest r bs)" using sound(1) Unresolved by (simp add: sound_outcome_def)
      ultimately show ?thesis using honest_no_repeat[OF g hon served] by auto
    qed
    then show ?thesis using sound Unresolved unresolved_check[of r bs missing reason] by (simp add: outcome_check_def)
  qed
qed

lemma repair_loop_complete:
  assumes sound: "sound_outcome r (Connected (xs @ ys))"
    and served: "\<forall>b \<in> set (xs @ ys). source (cp_block_id (lb_checkpoint b)) = Ok (Some b)"
    and more: "xs = [] \<Longrightarrow> rq_lower_checkpoint r \<noteq> None"
    and visited: "set visited = (cp_block_id \<circ> lb_checkpoint) ` set ys"
  shows "repair_loop source r (cp_parent_id (lowest r ys)) (cp_slot (lowest r ys)) (rev ys) visited
    = Ok (Connected (xs @ ys))"
  using sound served more visited
proof (induction xs arbitrary: ys visited rule: rev_induct)
  case Nil
  then obtain lower where "rq_lower_checkpoint r = Some lower" by auto
  then show ?case using Nil.prems(1) by (simp add: repair_loop.simps[of _ r] sound_outcome_def)
next
  case (snoc b xs)
  let ?c = "lb_checkpoint b" and ?bs = "xs @ b # ys"
  have g: "gathered r ?bs" using snoc.prems(1) by (simp add: sound_outcome_def)
  have lk: "links ?c (lowest r ys)"
    using g by (cases ys) (auto simp: gathered_def lowest_def linked_append linked_Cons)
  have low: "lowest r (b # ys) = ?c" by (simp add: lowest_def)
  have bounds: "hex_id (cp_block_id ?c)" "hex_id (cp_parent_id ?c)" "length ys < rq_max_blocks r"
    "cp_block_id ?c \<notin> (cp_block_id \<circ> lb_checkpoint) ` set ys"
    using g by (auto simp: gathered_def)
  have lower: "br_slot lower < cp_slot ?c" "cp_block_id ?c \<noteq> br_block_id lower"
    if "rq_lower_checkpoint r = Some lower" for lower
    using g that by (auto simp: gathered_def)
  have srv: "source (cp_block_id ?c) = Ok (Some b)" using snoc.prems(2) by simp
  have req: "cp_parent_id (lowest r ys) = cp_block_id ?c" "cp_slot ?c < cp_slot (lowest r ys)"
    using lk by (simp_all add: links_def)
  have rest: "repair_loop source r (cp_parent_id ?c) (cp_slot ?c) (rev ys @ [b]) (cp_block_id ?c # visited)
      = Ok (Connected ?bs)" if "xs = [] \<Longrightarrow> rq_lower_checkpoint r \<noteq> None"
    using snoc.IH[of "b # ys" "cp_block_id ?c # visited"] snoc.prems that low by simp
  have zero: "xs = [] \<longleftrightarrow> cp_slot ?c = 0" if n: "rq_lower_checkpoint r = None"
  proof -
    have z: "cp_slot (lowest r ?bs) = 0" using snoc.prems(1) n by (simp add: sound_outcome_def)
    have "strictly_sorted (map cp_slot (map lb_checkpoint ?bs @ [rq_upper_checkpoint r]))"
      by (rule linked_sorted) (use g in \<open>simp add: gathered_def\<close>)
    then show ?thesis using z by (cases xs) (auto simp: lowest_def)
  qed
  have gen: "\<not> is_some_and (rq_expected_genesis_id r) (\<lambda>g. g \<noteq> cp_block_id ?c)" if "rq_lower_checkpoint r = None" "xs = []"
    using snoc.prems(1) that by (auto simp: sound_outcome_def is_none_or_def is_some_and_def lowest_def split: option.splits)
  have chk: "engine_validate_checkpoint ?c LRepairBlock = Ok ()" using bounds by (simp add: ok_simps)
  have novis: "cp_block_id ?c \<notin> set visited" using bounds(4) snoc.prems(4) by simp
  show ?case
  proof (cases "rq_lower_checkpoint r")
    case None
    then show ?thesis
      using srv req bounds chk novis rest zero gen
      by (auto simp: repair_loop.simps[of source r "cp_block_id ?c"] not_le Let_def)
  next
    case (Some l)
    then show ?thesis
      using srv req bounds chk novis rest lower[OF Some]
      by (auto simp: repair_loop.simps[of source r "cp_block_id ?c"] not_le Let_def)
  qed
qed

lemma connected_sound:
  assumes "validate_connected_repair r bs = Ok ()" "length bs \<le> rq_max_blocks r"
  shows "sound_outcome r (Connected bs)"
proof (cases "bs = []")
  case True
  then show ?thesis
    using assms by (auto simp: validate_connected_repair_def sound_outcome_def gathered_def lowest_def
        ok_simps is_some_and_def split: if_splits option.splits)
next
  case False
  then have c: "linked (map lb_checkpoint bs)" "distinct (map (cp_block_id \<circ> lb_checkpoint) bs)"
    "\<forall>b \<in> set bs. hex_id (cp_block_id (lb_checkpoint b)) \<and> hex_id (cp_parent_id (lb_checkpoint b))"
    "links (lb_checkpoint (last bs)) (rq_upper_checkpoint r)"
    using assms(1) by (auto simp: validate_connected_repair_def ok_simps Let_def links_def not_le split: if_splits)
  have lo: "lowest r bs = lb_checkpoint (hd bs)" using False by (cases bs) (simp_all add: lowest_def)
  have l: "linked (map lb_checkpoint bs @ [rq_upper_checkpoint r])"
    using c False by (simp add: linked_append last_map)
  have above: "cp_slot (lb_checkpoint (hd bs)) \<le> cp_slot (lb_checkpoint b)" if "b \<in> set bs" for b
    using linked_slots(1)[OF c(1), of "lb_checkpoint b"] that False by (simp add: hd_map)
  show ?thesis
  proof (cases "rq_lower_checkpoint r")
    case None
    then show ?thesis
      using assms False c l lo by (auto simp: validate_connected_repair_def sound_outcome_def gathered_def
        ok_simps Let_def is_none_or_def is_some_and_def split: if_splits option.splits)
  next
    case (Some lower)
    then have "br_slot lower < cp_slot (lb_checkpoint (hd bs))" "cp_parent_id (lb_checkpoint (hd bs)) = br_block_id lower"
      "\<forall>b \<in> set bs. cp_block_id (lb_checkpoint b) \<noteq> br_block_id lower"
      using assms(1) False by (auto simp: validate_connected_repair_def ok_simps Let_def not_le list_ex_iff split: if_splits)
    then show ?thesis
      using Some assms(2) c l lo above unfolding sound_outcome_def gathered_def
      by (auto intro: less_le_trans)
  qed
qed

text \<open>
  C21: The repair loop is complete: every ancestry that the consumer would accept and that fits the block budget is
  found, as soon as the source serves its blocks. For a request without a lower checkpoint the
  ancestry ends at slot zero.
\<close>

theorem repair_finds_ancestry:
  assumes "validate_connected_repair r bs = Ok ()" "length bs \<le> rq_max_blocks r"
    and "\<forall>b \<in> set bs. source (cp_block_id (lb_checkpoint b)) = Ok (Some b)"
  shows "repair_catalog_ancestry source r = Ok (Connected bs)"
proof -
  have s: "sound_outcome r (Connected bs)" by (rule connected_sound[OF assms(1,2)])
  have v: "validate_repair_request r = Ok ()"
    using assms(1) by (auto simp: validate_connected_repair_def ok_simps)
  have "bs = [] \<Longrightarrow> rq_lower_checkpoint r \<noteq> None"
    using s by (auto simp: sound_outcome_def split: option.splits)
  then show ?thesis
    using repair_loop_complete[of r bs "[]" source "[]"] s v assms(3)
    by (simp add: repair_catalog_ancestry_def lowest_def)
qed

section \<open>A sample repair\<close>

definition sample_checkpoint :: "u64 \<Rightarrow> char \<Rightarrow> char \<Rightarrow> block_checkpoint" where
  "sample_checkpoint slot i p = \<lparr>cp_slot = slot, cp_block_id = sample_id i, cp_parent_id = sample_id p\<rparr>"

definition sample_block :: "u64 \<Rightarrow> char \<Rightarrow> char \<Rightarrow> nat l1_block" where
  "sample_block slot i p = \<lparr>lb_checkpoint = sample_checkpoint slot i p,
     lb_payload = JObject [(''transactions'', JArray [])]\<rparr>"

definition sample_request :: repair_request where
  "sample_request = \<lparr>rq_lower_checkpoint = Some \<lparr>br_slot = 1, br_block_id = sample_id (CHR ''1'')\<rparr>,
     rq_upper_checkpoint = sample_checkpoint 4 (CHR ''4'') (CHR ''3''),
     rq_expected_genesis_id = None, rq_max_blocks = 8\<rparr>"

definition sample_source :: "string \<Rightarrow> (nat l1_block option, source_error) result" where
  "sample_source i =
     (if i = sample_id (CHR ''3'') then Ok (Some (sample_block 3 (CHR ''3'') (CHR ''2'')))
      else if i = sample_id (CHR ''2'') then Ok (Some (sample_block 2 (CHR ''2'') (CHR ''1'')))
      else Err (Unavailable []))"

definition sample_slot :: "string \<Rightarrow> u64" where
  "sample_slot i = (if i = sample_id (CHR ''4'') then 4 else if i = sample_id (CHR ''3'') then 3
     else if i = sample_id (CHR ''2'') then 2 else 1)"

lemma sample_source_honest: "honest_source sample_slot (rq_upper_checkpoint sample_request) sample_source"
  unfolding honest_source_def sample_source_def sample_slot_def sample_request_def sample_block_def
    sample_checkpoint_def sample_id_def
  by (simp split: if_splits)

theorem repair_outcome_accepted_witness:
  "\<exists>out. repair_catalog_ancestry sample_source sample_request = Ok out
     \<and> length (recovered_blocks out) \<le> 8 \<and> outcome_check sample_request out = Ok ()"
proof -
  have "is_ok (repair_catalog_ancestry sample_source sample_request)" by code_simp
  then obtain out where out: "repair_catalog_ancestry sample_source sample_request = Ok out"
    unfolding is_ok_iff by blast
  show ?thesis
    using repair_outcome_accepted[OF out, of sample_slot] sample_source_honest out
    by (auto simp: sample_request_def)
qed

theorem repair_finds_ancestry_witness:
  "repair_catalog_ancestry sample_source sample_request =
     Ok (Connected [sample_block 2 (CHR ''2'') (CHR ''1''), sample_block 3 (CHR ''3'') (CHR ''2'')])"
proof (rule repair_finds_ancestry)
  show "validate_connected_repair sample_request
      [sample_block 2 (CHR ''2'') (CHR ''1''), sample_block 3 (CHR ''3'') (CHR ''2'')] = Ok ()"
    by code_simp
qed (simp_all add: sample_request_def sample_source_def sample_block_def sample_checkpoint_def sample_id_def)

end
