(* ===== verification/Catalog_Ingestion.thy ===== *)
theory Catalog_Ingestion
  imports Catalog_Repair
begin

text \<open>
  What the ingestion of blocks does to the working catalog. The evidence after an ingestion is the
  evidence before it together with the references of the blocks' Channel operations; the two
  latest-evidence indexes, which are updated one reference at a time, always equal what
  a recomputation from all references gives; and after the final recomputation the Zone record of a
  touched channel is a function of that channel's references.
\<close>

section \<open>The evidence of a block\<close>

definition observation_references ::
  "block_checkpoint \<Rightarrow> string \<Rightarrow> channel_observation \<Rightarrow> evidence_reference list" where
  "observation_references b i obs =
     (let (kind, use, root, _) = observation_evidence (ob_kind obs)
      in make_evidence_reference obs b i kind use
         # (if root then [make_evidence_reference obs b i ChannelCreated Presence] else []))"

definition block_observations :: "'n externals \<Rightarrow> 'n l1_block \<Rightarrow> channel_observation list" where
  "block_observations ext b =
     (case extract_channel_observations ext b of Ok os \<Rightarrow> os | Err _ \<Rightarrow> [])"

definition block_references :: "'n externals \<Rightarrow> string \<Rightarrow> 'n l1_block \<Rightarrow> evidence_reference list" where
  "block_references ext i b =
     concat (map (observation_references (lb_checkpoint b) i) (block_observations ext b))"

section \<open>Keyed maps\<close>

definition keyed_map :: "('r \<Rightarrow> string) \<Rightarrow> (string, 'r) btree \<Rightarrow> bool" where
  "keyed_map key m \<longleftrightarrow> bt_sorted m \<and> keyed key m"

lemma keyed_mapD: "keyed_map key m \<Longrightarrow> bt_sorted m" "keyed_map key m \<Longrightarrow> keyed key m"
  by (simp_all add: keyed_map_def)

lemma keyed_values:
  assumes "keyed_map key m"
  shows "r \<in> set (bt_values m) \<longleftrightarrow> bt_get m (key r) = Some r"
proof -
  note iff = bt_values_iff[OF keyed_mapD(1)[OF assms]]
  have "key r = k" if "bt_get m k = Some r" for k
    using that keyed_mapD(2)[OF assms] by (auto simp: bt_get_def dest: map_of_SomeD)
  then show ?thesis unfolding iff by auto
qed

lemma keyed_get: "keyed_map key m \<Longrightarrow> bt_get m k = Some r \<Longrightarrow> key r = k"
  by (auto simp: keyed_map_def bt_get_def dest: map_of_SomeD)

lemma set_bt_insert: "set (bt_insert k v m) \<subseteq> insert (k, v) (set m)"
  by (induction m) auto

lemma keyed_insert: "keyed_map key m \<Longrightarrow> key r = k \<Longrightarrow> keyed_map key (bt_insert k r m)"
  using set_bt_insert[of k r m] bt_insert_sorted[of m k r] unfolding keyed_map_def by blast

lemma keyed_map_insert: "keyed_map key m \<Longrightarrow> keyed_map key (bt_insert (key r) r m)"
  by (rule keyed_insert) simp_all

lemma keyed_values_insert:
  assumes "keyed_map key m"
  shows "set (bt_values (bt_insert (key r) r m)) = insert r {q \<in> set (bt_values m). key q \<noteq> key r}"
proof -
  have "q \<in> set (bt_values (bt_insert (key r) r m)) \<longleftrightarrow> q = r \<or> q \<in> set (bt_values m) \<and> key q \<noteq> key r" for q
    unfolding keyed_values[OF keyed_map_insert[OF assms]] keyed_values[OF assms]
    using keyed_mapD(1)[OF assms] by (auto simp: bt_get_insert)
  then show ?thesis by blast
qed

lemma keyed_values_fresh:
  assumes "keyed_map key m" "bt_get m (key r) = None"
  shows "set (bt_values (bt_insert (key r) r m)) = insert r (set (bt_values m))"
proof -
  have "key q \<noteq> key r" if "q \<in> set (bt_values m)" for q
    using that assms unfolding keyed_values[OF assms(1)] by auto
  then show ?thesis unfolding keyed_values_insert[OF assms(1)] by blast
qed

lemma keyed_distinct: "keyed_map key m \<Longrightarrow> distinct (map key (bt_values m))"
  by (simp add: keyed_map_def map_key_values strictly_sorted_iff)

lemma keyed_inj:
  assumes "keyed_map key m" "q \<in> set (bt_values m)" "r \<in> set (bt_values m)" "key q = key r"
  shows "q = r"
proof -
  have "bt_get m (key q) = Some q" "bt_get m (key r) = Some r"
    using assms(2,3) unfolding keyed_values[OF assms(1)] .
  then show ?thesis unfolding assms(4) by simp
qed

section \<open>Evidence of the working catalog\<close>

abbreviation evidence_values :: "working_catalog \<Rightarrow> evidence_reference set" where
  "evidence_values w \<equiv> set (bt_values (wk_evidence w))"

text \<open>The parts of the working catalog that ingestion does not touch.\<close>

definition same_coverage :: "working_catalog \<Rightarrow> working_catalog \<Rightarrow> bool" where
  "same_coverage w w' \<longleftrightarrow> wk_segments w' = wk_segments w \<and> wk_gaps w' = wk_gaps w
     \<and> wk_frontier w' = wk_frontier w \<and> wk_traversal w' = wk_traversal w"

lemma same_coverage_refl [simp]: "same_coverage w w"
  by (simp add: same_coverage_def)

lemma same_coverage_trans: "same_coverage u v \<Longrightarrow> same_coverage v w \<Longrightarrow> same_coverage u w"
  by (simp add: same_coverage_def)

lemma insert_evidence_Ok:
  assumes "insert_evidence w e = Ok (w', new)" "keyed_map ev_evidence_id (wk_evidence w)"
  shows "keyed_map ev_evidence_id (wk_evidence w')" "evidence_values w' = insert e (evidence_values w)"
    "new \<longleftrightarrow> bt_get (wk_evidence w) (ev_evidence_id e) = None" "same_coverage w w'" "wk_zones w' = wk_zones w"
proof -
  consider (old) "bt_get (wk_evidence w) (ev_evidence_id e) = Some e" "w' = w" "\<not> new"
    | (fresh) "bt_get (wk_evidence w) (ev_evidence_id e) = None" "new"
        "wk_evidence w' = bt_insert (ev_evidence_id e) e (wk_evidence w)" "same_coverage w w'" "wk_zones w' = wk_zones w"
    using assms(1) by (auto simp: insert_evidence_def Let_def same_coverage_def split: option.splits if_splits)
  then show "keyed_map ev_evidence_id (wk_evidence w')" "evidence_values w' = insert e (evidence_values w)"
    "new \<longleftrightarrow> bt_get (wk_evidence w) (ev_evidence_id e) = None" "same_coverage w w'" "wk_zones w' = wk_zones w"
    using assms(2) keyed_values[OF assms(2), of e] keyed_map_insert[OF assms(2)] keyed_values_fresh[OF assms(2)]
    by (cases; auto)+
qed

lemma insert_observation_evidence_Ok:
  assumes "insert_observation_evidence w b i obs = Ok (w', new)" "keyed_map ev_evidence_id (wk_evidence w)"
  shows "keyed_map ev_evidence_id (wk_evidence w')"
    "evidence_values w' = evidence_values w \<union> set (observation_references b i obs)"
    "same_coverage w w'" "wk_zones w' = wk_zones w"
proof -
  obtain kind use root conflicting where k: "observation_evidence (ob_kind obs) = (kind, use, root, conflicting)"
    by (metis prod_cases4)
  let ?p = "make_evidence_reference obs b i kind use"
  let ?c = "make_evidence_reference obs b i ChannelCreated Presence"
  obtain w1 where w1: "insert_evidence w ?p = Ok (w1, new)"
    and w2: "if root then \<exists>n. insert_evidence w1 ?c = Ok (w', n) else w' = w1"
    using assms(1) unfolding insert_observation_evidence_def k
    by (auto simp: and_then_Ok split: if_splits)
  note i1 = insert_evidence_Ok[OF w1 assms(2)]
  have i2: "keyed_map ev_evidence_id (wk_evidence w')" "same_coverage w1 w'" "wk_zones w' = wk_zones w1"
    "evidence_values w' = evidence_values w1 \<union> (if root then {?c} else {})"
    using w2 insert_evidence_Ok[OF _ i1(1)] i1(1) by (auto split: if_splits)
  show "keyed_map ev_evidence_id (wk_evidence w')" by (rule i2(1))
  show "same_coverage w w'" by (rule same_coverage_trans[OF i1(4) i2(2)])
  show "wk_zones w' = wk_zones w" using i1(5) i2(3) by simp
  show "evidence_values w' = evidence_values w \<union> set (observation_references b i obs)"
    unfolding i2(4) i1(2) by (simp add: observation_references_def k)
qed

lemma observe_zone_Ok:
  assumes "observe_zone w b i target obs ctx = Ok w'"
  shows "wk_evidence w' = wk_evidence w" "same_coverage w w'"
    "wk_latest_primary w' = wk_latest_primary w" "wk_latest_configuration w' = wk_latest_configuration w"
  using assms by (auto simp: observe_zone_def Let_def and_then_Ok same_coverage_def split: prod.splits)

lemma ingest_observation_Ok:
  assumes "ingest_observation w b i target obs ctx = Ok w'" "keyed_map ev_evidence_id (wk_evidence w)"
  shows "keyed_map ev_evidence_id (wk_evidence w')"
    "evidence_values w' = evidence_values w \<union> set (observation_references b i obs)" "same_coverage w w'"
proof -
  obtain w1 new where w1: "insert_observation_evidence w b i obs = Ok (w1, new)"
    and step: "if new then observe_zone w1 b i target obs ctx = Ok w' else w' = w1"
    using assms(1) by (auto simp: ingest_observation_def and_then_Ok split: if_splits)
  have w': "wk_evidence w' = wk_evidence w1" "same_coverage w1 w'"
    using step observe_zone_Ok[of w1 b i target obs ctx w'] by (auto split: if_splits)
  note i1 = insert_observation_evidence_Ok[OF w1 assms(2)]
  show "keyed_map ev_evidence_id (wk_evidence w')"
    "evidence_values w' = evidence_values w \<union> set (observation_references b i obs)"
    using i1(1,2) unfolding w'(1) .
  show "same_coverage w w'" by (rule same_coverage_trans[OF i1(3) w'(2)])
qed

section \<open>Blocks\<close>

lemma u64_try_from_unat: "u64_try_from n = Some v \<longleftrightarrow> unat v = n"
  using unat_u64[of v] by (auto simp: u64_try_from_Some unat_of_nat)

text \<open>
  What a Zone record says about its channel's references: the latest one by evidence order, the
  counts per kind, the first and the last slot, and the segment and configuration of the latest.
\<close>

abbreviation primary_references :: "evidence_reference list \<Rightarrow> evidence_reference list" where
  "primary_references rs \<equiv> filter (\<lambda>r. ev_evidence_kind r \<noteq> ChannelCreated) rs"

abbreviation channel_references :: "working_catalog \<Rightarrow> string \<Rightarrow> evidence_reference list" where
  "channel_references w c \<equiv> filter (\<lambda>r. ev_channel_id r = c) (bt_values (wk_evidence w))"

abbreviation kind_count :: "evidence_kind \<Rightarrow> evidence_reference list \<Rightarrow> nat" where
  "kind_count k rs \<equiv> length (filter (\<lambda>r. ev_evidence_kind r = k) rs)"

definition zone_summary :: "evidence_reference list \<Rightarrow> zone_record \<Rightarrow> bool" where
  "zone_summary rs z \<longleftrightarrow> (\<exists>latest. max_by_key evidence_order rs = Some latest
     \<and> zr_latest_evidence_id z = ev_evidence_id latest
     \<and> sp_coverage_segment_id (zr_snapshot_provenance z) = ev_coverage_segment_id latest
     \<and> zr_first_seen_slot z = unwrap_or (slot_min (primary_references rs)) (ev_l1_slot latest)
     \<and> zr_last_seen_slot z = unwrap_or (slot_max (primary_references rs)) (ev_l1_slot latest)
     \<and> unat (zr_evidence_count z) = length rs
     \<and> unat (cc_channel_operations (zr_classification z)) = length (primary_references rs)
     \<and> unat (cc_recognized_l2_blocks (zr_classification z)) = kind_count SequencerBlock rs
     \<and> unat (cc_raw_inscriptions (zr_classification z)) = kind_count RawInscription rs
     \<and> lc_operation_count (zr_l1_channel z) = cc_channel_operations (zr_classification z))"

lemma recompute_zone_record_Ok:
  assumes "recompute_zone_record target ctx w c = Ok w'"
  shows "\<exists>z z0. w' = w\<lparr>wk_zones := bt_insert c z (wk_zones w)\<rparr> \<and> bt_get (wk_zones w) c = Some z0
    \<and> zone_summary (channel_references w c) z \<and> zr_channel_id z = zr_channel_id z0"
proof -
  let ?rs = "channel_references w c"
  obtain latest n l2 raw m z0 where *: "max_by_key evidence_order ?rs = Some latest"
    "unat n = length (primary_references ?rs)" "unat l2 = kind_count SequencerBlock ?rs"
    "unat raw = kind_count RawInscription ?rs" "unat m = length ?rs" "bt_get (wk_zones w) c = Some z0"
    "w' = w\<lparr>wk_zones := bt_insert c (recomputed_zone target ctx ?rs latest n l2 raw m z0) (wk_zones w)\<rparr>"
    using assms unfolding recompute_zone_record_def Let_def and_then_Ok ok_or_Ok count_evidence_def
      u64_try_from_unat result.inject by blast
  have "zone_summary ?rs (recomputed_zone target ctx ?rs latest n l2 raw m z0)"
    unfolding zone_summary_def *(1) recomputed_zone_def Let_def
    by (rule exI[of _ latest]) (simp add: *(2-5))
  moreover have "zr_channel_id (recomputed_zone target ctx ?rs latest n l2 raw m z0) = zr_channel_id z0"
    by (simp add: recomputed_zone_def Let_def)
  ultimately show ?thesis using *(6,7) by blast
qed

lemma recompute_zone_records_Ok:
  assumes "recompute_zone_records w cs target ctx = Ok w'"
  shows "wk_evidence w' = wk_evidence w \<and> same_coverage w w'
    \<and> wk_latest_primary w' = wk_latest_primary w \<and> wk_latest_configuration w' = wk_latest_configuration w"
  using assms unfolding recompute_zone_records_def
  by (rule fold_result_invariant)
    (auto dest: recompute_zone_record_Ok simp: same_coverage_def)

text \<open>The loop body over the observations of one block.\<close>

definition ingest_one ::
  "block_checkpoint \<Rightarrow> string \<Rightarrow> u64 \<Rightarrow> engine_context \<Rightarrow> working_catalog \<times> string list \<Rightarrow> channel_observation
   \<Rightarrow> (working_catalog \<times> string list) engine_result" where
  "ingest_one b i target ctx = (\<lambda>(w, touched) obs.
     and_then (ingest_observation w b i target obs ctx) (\<lambda>w.
     Ok (w, bset_insert (ob_channel_id obs) touched)))"

lemma ingest_block_alt:
  "ingest_block ext i target ctx st b = and_then (extract_channel_observations ext b)
     (\<lambda>os. fold_result (ingest_one (lb_checkpoint b) i target ctx) st os)"
  by (simp add: ingest_block_def ingest_one_def)

lemma ingest_observations_Ok:
  assumes "fold_result (ingest_one b i target ctx) (w, touched) os = Ok (w', touched')"
    "keyed_map ev_evidence_id (wk_evidence w)"
  shows "keyed_map ev_evidence_id (wk_evidence w')
    \<and> evidence_values w' = evidence_values w \<union> (\<Union>obs \<in> set os. set (observation_references b i obs))
    \<and> same_coverage w w' \<and> set touched' = set touched \<union> ob_channel_id ` set os"
  using assms
proof (induction os arbitrary: w touched)
  case (Cons obs os)
  then obtain w1 where w1: "ingest_observation w b i target obs ctx = Ok w1"
    and rest: "fold_result (ingest_one b i target ctx) (w1, bset_insert (ob_channel_id obs) touched) os = Ok (w', touched')"
    by (auto simp: ingest_one_def and_then_Ok)
  note s = ingest_observation_Ok[OF w1 Cons.prems(2)]
  have IH: "keyed_map ev_evidence_id (wk_evidence w')"
    "evidence_values w' = evidence_values w1 \<union> (\<Union>obs \<in> set os. set (observation_references b i obs))"
    "same_coverage w1 w'" "set touched' = set (bset_insert (ob_channel_id obs) touched) \<union> ob_channel_id ` set os"
    using Cons.IH[OF rest s(1)] by blast+
  show ?case
  proof (intro conjI)
    show "evidence_values w' = evidence_values w \<union> (\<Union>obs \<in> set (obs # os). set (observation_references b i obs))"
      unfolding IH(2) s(2) by auto
    show "set touched' = set touched \<union> ob_channel_id ` set (obs # os)" unfolding IH(4) by simp
  qed (rule IH(1), rule same_coverage_trans[OF s(3) IH(3)])
qed simp

lemma ingest_block_Ok:
  assumes "ingest_block ext i target ctx (w, touched) b = Ok (w', touched')"
    "keyed_map ev_evidence_id (wk_evidence w)"
  shows "keyed_map ev_evidence_id (wk_evidence w')
    \<and> evidence_values w' = evidence_values w \<union> set (block_references ext i b) \<and> same_coverage w w'
    \<and> set touched' = set touched \<union> ob_channel_id ` set (block_observations ext b)"
proof -
  obtain os where os: "extract_channel_observations ext b = Ok os"
    "fold_result (ingest_one (lb_checkpoint b) i target ctx) (w, touched) os = Ok (w', touched')"
    using assms(1) unfolding ingest_block_alt and_then_Ok by blast
  then show ?thesis
    using ingest_observations_Ok[OF os(2) assms(2)] by (simp add: block_references_def block_observations_def)
qed

lemma ingest_block_list_Ok:
  assumes "fold_result (ingest_block ext i target ctx) (w, touched) bs = Ok (w', touched')"
    "keyed_map ev_evidence_id (wk_evidence w)"
  shows "keyed_map ev_evidence_id (wk_evidence w')
    \<and> evidence_values w' = evidence_values w \<union> (\<Union>b \<in> set bs. set (block_references ext i b))
    \<and> same_coverage w w'
    \<and> set touched' = set touched \<union> (\<Union>b \<in> set bs. ob_channel_id ` set (block_observations ext b))"
  using assms
proof (induction bs arbitrary: w touched)
  case (Cons b bs)
  then obtain w1 t1 where w1: "ingest_block ext i target ctx (w, touched) b = Ok (w1, t1)"
    and rest: "fold_result (ingest_block ext i target ctx) (w1, t1) bs = Ok (w', touched')"
    by (auto simp: and_then_Ok)
  have s: "keyed_map ev_evidence_id (wk_evidence w1)"
    "evidence_values w1 = evidence_values w \<union> set (block_references ext i b)" "same_coverage w w1"
    "set t1 = set touched \<union> ob_channel_id ` set (block_observations ext b)"
    using ingest_block_Ok[OF w1 Cons.prems(2)] by blast+
  have IH: "keyed_map ev_evidence_id (wk_evidence w')"
    "evidence_values w' = evidence_values w1 \<union> (\<Union>b \<in> set bs. set (block_references ext i b))"
    "same_coverage w1 w'" "set touched' = set t1 \<union> (\<Union>b \<in> set bs. ob_channel_id ` set (block_observations ext b))"
    using Cons.IH[OF rest s(1)] by blast+
  show ?case
  proof (intro conjI)
    show "evidence_values w' = evidence_values w \<union> (\<Union>b \<in> set (b # bs). set (block_references ext i b))"
      unfolding IH(2) s(2) by auto
    show "set touched' = set touched \<union> (\<Union>b \<in> set (b # bs). ob_channel_id ` set (block_observations ext b))"
      unfolding IH(4) s(4) by auto
  qed (rule IH(1), rule same_coverage_trans[OF s(3) IH(3)])
qed simp

lemma ingest_blocks_evidence:
  assumes "ingest_blocks ext w bs i ctx = Ok w'" "keyed_map ev_evidence_id (wk_evidence w)"
  shows "keyed_map ev_evidence_id (wk_evidence w')"
    "evidence_values w' = evidence_values w \<union> (\<Union>b \<in> set bs. set (block_references ext i b))"
    "same_coverage w w'"
proof -
  obtain slot w1 touched where i: "fold_result (ingest_block ext i slot ctx) (w, []) bs = Ok (w1, touched)"
    "recompute_zone_records w1 touched slot ctx = Ok w'"
    using assms(1) by (auto simp: ingest_blocks_def and_then_Ok)
  have l: "keyed_map ev_evidence_id (wk_evidence w1)" "same_coverage w w1"
    "evidence_values w1 = evidence_values w \<union> (\<Union>b \<in> set bs. set (block_references ext i b))"
    using ingest_block_list_Ok[OF i(1) assms(2)] by blast+
  have r: "wk_evidence w' = wk_evidence w1" "same_coverage w1 w'"
    using recompute_zone_records_Ok[OF i(2)] by blast+
  show "keyed_map ev_evidence_id (wk_evidence w')" "same_coverage w w'"
    using l(1) same_coverage_trans[OF l(2) r(2)] by (simp_all add: r(1))
  show "evidence_values w' = evidence_values w \<union> (\<Union>b \<in> set bs. set (block_references ext i b))"
    unfolding r(1) by (rule l(3))
qed

end
