(* ===== verification/Catalog_Zones.thy ===== *)
theory Catalog_Zones
  imports Catalog_Ingestion
begin

text \<open>
  Two invariants of the working catalog. The latest-evidence indexes, which the engine updates one
  reference at a time, always equal their recomputation from all references. Every Zone record
  summarises exactly the references of its channel: ingestion breaks this for the channels it
  touches and the recomputation at its close restores it.
\<close>

section \<open>The latest-evidence indexes\<close>

text \<open>
  \<open>latest_index P S m\<close>: the index \<open>m\<close> maps each channel to the identifier of its largest reference
  among those of \<open>S\<close> that satisfy \<open>P\<close>.
\<close>

definition latest_index ::
  "(evidence_reference \<Rightarrow> bool) \<Rightarrow> evidence_reference set \<Rightarrow> (string, string) btree \<Rightarrow> bool" where
  "latest_index P S m \<longleftrightarrow> bt_sorted m \<and> (\<forall>c. case bt_get m c of
     None \<Rightarrow> \<forall>r \<in> S. \<not> (P r \<and> ev_channel_id r = c)
   | Some i \<Rightarrow> \<exists>r \<in> S. P r \<and> ev_channel_id r = c \<and> ev_evidence_id r = i
       \<and> (\<forall>q \<in> S. P q \<and> ev_channel_id q = c \<longrightarrow> evidence_order q \<le> evidence_order r))"

lemma evidence_order_id: "evidence_order q = evidence_order r \<Longrightarrow> ev_evidence_id q = ev_evidence_id r"
  by (simp add: evidence_order_def)

lemma latest_index_sorted: "latest_index P S m \<Longrightarrow> bt_sorted m"
  by (simp add: latest_index_def)

lemma latest_index_None:
  "latest_index P S m \<Longrightarrow> bt_get m c = None \<Longrightarrow> r \<in> S \<Longrightarrow> P r \<Longrightarrow> ev_channel_id r \<noteq> c"
  unfolding latest_index_def by (elim conjE allE[of _ c]) auto

lemma latest_index_Some:
  assumes "latest_index P S m" "bt_get m c = Some i"
  obtains r where "r \<in> S" "P r" "ev_channel_id r = c" "ev_evidence_id r = i"
    "\<And>q. q \<in> S \<Longrightarrow> P q \<Longrightarrow> ev_channel_id q = c \<Longrightarrow> evidence_order q \<le> evidence_order r"
proof -
  have "\<exists>r \<in> S. P r \<and> ev_channel_id r = c \<and> ev_evidence_id r = i
       \<and> (\<forall>q \<in> S. P q \<and> ev_channel_id q = c \<longrightarrow> evidence_order q \<le> evidence_order r)"
    using assms(1) unfolding latest_index_def by (elim conjE allE[of _ c]) (simp add: assms(2))
  then show ?thesis using that by blast
qed

lemma latest_indexI:
  assumes "bt_sorted m"
    and "\<And>c r. bt_get m c = None \<Longrightarrow> r \<in> S \<Longrightarrow> P r \<Longrightarrow> ev_channel_id r \<noteq> c"
    and "\<And>c i. bt_get m c = Some i \<Longrightarrow> \<exists>r \<in> S. P r \<and> ev_channel_id r = c \<and> ev_evidence_id r = i
       \<and> (\<forall>q \<in> S. P q \<and> ev_channel_id q = c \<longrightarrow> evidence_order q \<le> evidence_order r)"
  shows "latest_index P S m"
  unfolding latest_index_def using assms by (auto split: option.splits)

lemma latest_index_unique:
  assumes "latest_index P S m" "latest_index P S n"
  shows "m = n"
proof (rule btree.entries_eqI[OF latest_index_sorted latest_index_sorted, OF assms])
  fix c
  show "bt_get m c = bt_get n c"
  proof (cases "bt_get m c")
    case None
    then show ?thesis
      using latest_index_None[OF assms(1)] latest_index_Some[OF assms(2)] by (cases "bt_get n c") metis+
  next
    case (Some i)
    then obtain r where r: "r \<in> S" "P r" "ev_channel_id r = c" "ev_evidence_id r = i"
      and max: "\<And>q. q \<in> S \<Longrightarrow> P q \<Longrightarrow> ev_channel_id q = c \<Longrightarrow> evidence_order q \<le> evidence_order r"
      using latest_index_Some[OF assms(1)] by metis
    obtain j where j: "bt_get n c = Some j"
      using latest_index_None[OF assms(2) _ r(1,2)] r(3) by (cases "bt_get n c") auto
    then obtain q where q: "q \<in> S" "P q" "ev_channel_id q = c" "ev_evidence_id q = j"
      and "evidence_order r \<le> evidence_order q"
      using latest_index_Some[OF assms(2)] r(1-3) by metis
    then have "evidence_order q = evidence_order r" using max by (simp add: order_antisym)
    then show ?thesis using evidence_order_id q(4) r(4) Some j by metis
  qed
qed

lemma latest_index_skip:
  assumes "latest_index P S m" "\<not> P r"
  shows "latest_index P (insert r S) m"
proof (rule latest_indexI[OF latest_index_sorted[OF assms(1)]])
  show "ev_channel_id q \<noteq> c" if "bt_get m c = None" "q \<in> insert r S" "P q" for c q
    using that assms latest_index_None by blast
  fix c i
  assume "bt_get m c = Some i"
  with latest_index_Some[OF assms(1)] assms(2)
  show "\<exists>q \<in> insert r S. P q \<and> ev_channel_id q = c \<and> ev_evidence_id q = i
       \<and> (\<forall>p \<in> insert r S. P p \<and> ev_channel_id p = c \<longrightarrow> evidence_order p \<le> evidence_order q)"
    by (metis insert_iff)
qed

lemma latest_index_step:
  assumes idx: "latest_index P S m" and look: "\<And>q. q \<in> S \<Longrightarrow> bt_get ev (ev_evidence_id q) = Some q" and r: "P r"
  shows "latest_index P (insert r S) (update_latest_evidence_id ev m r)"
proof (rule latest_indexI)
  let ?c = "ev_channel_id r"
  note get = bt_get_insert[OF latest_index_sorted[OF idx]]
  show "bt_sorted (update_latest_evidence_id ev m r)"
    using latest_index_sorted[OF idx] by (simp add: update_latest_evidence_id_def bt_insert_sorted)
  have some: "bt_get (update_latest_evidence_id ev m r) ?c \<noteq> None"
    by (cases "bt_get m ?c") (auto simp: update_latest_evidence_id_def get replaces_latest_def)
  have other: "bt_get (update_latest_evidence_id ev m r) c = bt_get m c" if "c \<noteq> ?c" for c
    using that by (simp add: update_latest_evidence_id_def get)
  show "ev_channel_id q \<noteq> c" if "bt_get (update_latest_evidence_id ev m r) c = None" "q \<in> insert r S" "P q" for c q
    using that some other latest_index_None[OF idx] by (metis insertE)
  fix c i
  assume i: "bt_get (update_latest_evidence_id ev m r) c = Some i"
  show "\<exists>q \<in> insert r S. P q \<and> ev_channel_id q = c \<and> ev_evidence_id q = i
       \<and> (\<forall>p \<in> insert r S. P p \<and> ev_channel_id p = c \<longrightarrow> evidence_order p \<le> evidence_order q)"
  proof (cases "c = ?c \<and> replaces_latest m ev r")
    case True
    have "evidence_order p \<le> evidence_order r" if p: "p \<in> S" "P p" "ev_channel_id p = ?c" for p
    proof -
      obtain j where "bt_get m ?c = Some j" using latest_index_None[OF idx _ p(1,2)] p(3) by blast
      then obtain q where "bt_get m ?c = Some (ev_evidence_id q)" "q \<in> S" "evidence_order p \<le> evidence_order q"
        using latest_index_Some[OF idx] p by metis
      then show ?thesis using True look by (auto simp: replaces_latest_def)
    qed
    moreover have "i = ev_evidence_id r" using i True by (simp add: update_latest_evidence_id_def get)
    ultimately show ?thesis using True r by auto
  next
    case False
    then have m: "bt_get m c = Some i" using i other by (auto simp: update_latest_evidence_id_def split: if_splits)
    then obtain q where q: "q \<in> S" "P q" "ev_channel_id q = c" "ev_evidence_id q = i"
      and max: "\<And>p. p \<in> S \<Longrightarrow> P p \<Longrightarrow> ev_channel_id p = c \<Longrightarrow> evidence_order p \<le> evidence_order q"
      using latest_index_Some[OF idx] by metis
    have "evidence_order r \<le> evidence_order q" if "?c = c"
      using False that m look[OF q(1)] q(4) by (auto simp: replaces_latest_def not_less)
    then show ?thesis using q max by blast
  qed
qed

lemma latest_index_empty: "latest_index P {} []"
  by (simp add: latest_index_def)

abbreviation is_primary :: "evidence_reference \<Rightarrow> bool" where
  "is_primary r \<equiv> ev_evidence_kind r \<noteq> ChannelCreated"

abbreviation is_configuration :: "evidence_reference \<Rightarrow> bool" where
  "is_configuration r \<equiv> ev_evidence_kind r = ChannelConfiguration"

definition indexes_exact :: "working_catalog \<Rightarrow> bool" where
  "indexes_exact w \<longleftrightarrow> latest_index is_primary (evidence_values w) (wk_latest_primary w)
     \<and> latest_index is_configuration (evidence_values w) (wk_latest_configuration w)"

lemma latest_evidence_ids_index:
  assumes ev: "keyed_map ev_evidence_id ev" and ids: "latest_evidence_ids ev = (p, c)"
  shows "latest_index is_primary (set (bt_values ev)) p \<and> latest_index is_configuration (set (bt_values ev)) c"
proof -
  let ?step = "\<lambda>(p, c) r. (if is_primary r then update_latest_evidence_id ev p r else p,
    if is_configuration r then update_latest_evidence_id ev c r else c)"
  have "\<lbrakk>foldl ?step (p0, c0) xs = (p, c); S \<union> set xs \<subseteq> set (bt_values ev);
      latest_index is_primary S p0; latest_index is_configuration S c0\<rbrakk>
    \<Longrightarrow> latest_index is_primary (S \<union> set xs) p \<and> latest_index is_configuration (S \<union> set xs) c" for xs S p0 c0
  proof (induction xs arbitrary: S p0 c0)
    case (Cons r xs)
    have look: "bt_get ev (ev_evidence_id q) = Some q" if "q \<in> S" for q
      using Cons.prems(2) that keyed_values[OF ev] by auto
    obtain p1 c1 where st: "?step (p0, c0) r = (p1, c1)" by force
    have "latest_index is_primary (insert r S) p1"
      using st latest_index_step[OF Cons.prems(3) look] latest_index_skip[OF Cons.prems(3)] by (auto split: if_splits)
    moreover have "latest_index is_configuration (insert r S) c1"
      using st latest_index_step[OF Cons.prems(4) look] latest_index_skip[OF Cons.prems(4)] by (auto split: if_splits)
    ultimately show ?case using Cons.IH[of p1 c1 "insert r S"] Cons.prems(1,2) st by simp
  qed simp
  from this[of "[]" "[]" "bt_values ev" "{}"] ids show ?thesis
    by (simp add: latest_evidence_ids_def latest_index_empty)
qed

lemma insert_evidence_indexes:
  assumes "insert_evidence w e = Ok (w', new)" "keyed_map ev_evidence_id (wk_evidence w)" "indexes_exact w"
  shows "indexes_exact w'"
proof (cases "bt_get (wk_evidence w) (ev_evidence_id e)")
  case None
  have look: "bt_get (wk_evidence w) (ev_evidence_id q) = Some q" if "q \<in> evidence_values w" for q
    using that keyed_values[OF assms(2)] by simp
  have vals: "evidence_values w' = insert e (evidence_values w)" by (rule insert_evidence_Ok(2)[OF assms(1,2)])
  have idx: "wk_latest_primary w' = (if is_primary e then update_latest_evidence_id (wk_evidence w) (wk_latest_primary w) e
       else wk_latest_primary w)"
    "wk_latest_configuration w' = (if is_configuration e
       then update_latest_evidence_id (wk_evidence w) (wk_latest_configuration w) e else wk_latest_configuration w)"
    using assms(1) None by (auto simp: insert_evidence_def Let_def update_latest_evidence_id_def)
  have p: "latest_index is_primary (evidence_values w) (wk_latest_primary w)"
    and c: "latest_index is_configuration (evidence_values w) (wk_latest_configuration w)"
    using assms(3) by (simp_all add: indexes_exact_def)
  show ?thesis
    unfolding indexes_exact_def vals idx
    using latest_index_step[OF p look] latest_index_skip[OF p] latest_index_step[OF c look] latest_index_skip[OF c]
    by (cases "is_primary e"; cases "is_configuration e") simp_all
next
  case (Some q)
  then show ?thesis using assms(1,3) by (auto simp: insert_evidence_def split: if_splits)
qed

section \<open>Zone records\<close>

text \<open>
  \<open>zones_hold T w\<close>: the maps are keyed, the indexes are exact, every channel with evidence has a Zone
  record, and outside the channels \<open>T\<close> whose recomputation is pending every Zone record
  summarises the references of its channel.
\<close>

definition zone_exact :: "working_catalog \<Rightarrow> string \<Rightarrow> bool" where
  "zone_exact w c \<longleftrightarrow> (\<forall>z. bt_get (wk_zones w) c = Some z \<longrightarrow> zone_summary (channel_references w c) z)"

definition zones_hold :: "string set \<Rightarrow> working_catalog \<Rightarrow> bool" where
  "zones_hold T w \<longleftrightarrow> keyed_map zr_channel_id (wk_zones w) \<and> keyed_map ev_evidence_id (wk_evidence w)
     \<and> indexes_exact w \<and> (\<forall>e \<in> evidence_values w. bt_get (wk_zones w) (ev_channel_id e) \<noteq> None)
     \<and> (\<forall>c. c \<notin> T \<longrightarrow> zone_exact w c)"

lemma zones_holdD:
  assumes "zones_hold T w"
  shows "keyed_map zr_channel_id (wk_zones w)" "keyed_map ev_evidence_id (wk_evidence w)" "indexes_exact w"
    "e \<in> evidence_values w \<Longrightarrow> bt_get (wk_zones w) (ev_channel_id e) \<noteq> None"
    "c \<notin> T \<Longrightarrow> zone_exact w c"
  using assms by (simp_all add: zones_hold_def)

lemma filter_bt_insert_other:
  assumes "bt_get m k = None" "\<not> P v"
  shows "filter P (bt_values (bt_insert k v m)) = filter P (bt_values m)"
  using assms(1)
proof (induction m)
  case (Cons e m)
  then have "fst e \<noteq> k" "bt_get m k = None" by (auto simp: bt_get_def split: if_splits)
  with Cons.IH assms(2) show ?case by (auto simp: bt_values_def)
qed (use assms(2) in \<open>simp add: bt_values_def\<close>)

lemma insert_evidence_references:
  assumes "insert_evidence w e = Ok (w', new)" "c \<noteq> ev_channel_id e"
  shows "channel_references w' c = channel_references w c"
  using assms filter_bt_insert_other[of "wk_evidence w" "ev_evidence_id e" "\<lambda>r. ev_channel_id r = c" e]
  by (auto simp: insert_evidence_def Let_def split: option.splits if_splits)

lemma make_evidence_reference_simps [simp]:
  "ev_channel_id (make_evidence_reference obs b i k u) = ob_channel_id obs"
  "ev_coverage_segment_id (make_evidence_reference obs b i k u) = i"
  "ev_l1_slot (make_evidence_reference obs b i k u) = cp_slot b"
  "ev_evidence_kind (make_evidence_reference obs b i k u) = k"
  by (simp_all add: make_evidence_reference_def)

lemma observation_references_channel: "r \<in> set (observation_references b i obs) \<Longrightarrow> ev_channel_id r = ob_channel_id obs"
  by (auto simp: observation_references_def split: prod.splits if_splits)

lemma insert_observation_evidence_keeps:
  assumes "insert_observation_evidence w b i obs = Ok (w', new)" "keyed_map ev_evidence_id (wk_evidence w)" "indexes_exact w"
  shows "indexes_exact w'" "c \<noteq> ob_channel_id obs \<Longrightarrow> channel_references w' c = channel_references w c"
    "\<not> new \<Longrightarrow> \<exists>e \<in> evidence_values w. ev_channel_id e = ob_channel_id obs"
proof -
  obtain kind use root conflicting where k: "observation_evidence (ob_kind obs) = (kind, use, root, conflicting)"
    by (metis prod_cases4)
  let ?p = "make_evidence_reference obs b i kind use"
  let ?c = "make_evidence_reference obs b i ChannelCreated Presence"
  obtain w1 where w1: "insert_evidence w ?p = Ok (w1, new)"
    and w2: "if root then \<exists>n. insert_evidence w1 ?c = Ok (w', n) else w' = w1"
    using assms(1) unfolding insert_observation_evidence_def k
    by (auto simp: and_then_Ok split: if_splits)
  note i1 = insert_evidence_indexes[OF w1 assms(2,3)] and v1 = insert_evidence_Ok[OF w1 assms(2)]
  show "indexes_exact w'" using w2 insert_evidence_indexes[OF _ v1(1) i1] i1 by (auto split: if_splits)
  show "channel_references w' c = channel_references w c" if "c \<noteq> ob_channel_id obs"
    using that w2 insert_evidence_references[OF w1, of c] insert_evidence_references[of w1 ?c w' _ c]
    by (auto split: if_splits)
  show "\<exists>e \<in> evidence_values w. ev_channel_id e = ob_channel_id obs" if "\<not> new"
  proof -
    obtain q where "bt_get (wk_evidence w) (ev_evidence_id ?p) = Some q" using v1(3) \<open>\<not> new\<close> by auto
    moreover have "q = ?p" using w1 calculation by (auto simp: insert_evidence_def split: if_splits)
    ultimately have "?p \<in> evidence_values w" using keyed_values[OF assms(2), of ?p] by simp
    then show ?thesis by (rule bexI[rotated]) simp
  qed
qed

lemma observe_zone_record_channel:
  "observe_zone_record z b k l c = Ok z' \<Longrightarrow> zr_channel_id z' = zr_channel_id z"
  by (auto simp: observe_zone_record_def ok_simps Let_def split: observation_kind.splits option.splits if_splits)

lemma touch_zone_record_channel [simp]: "zr_channel_id (touch_zone_record z b t x ctx) = zr_channel_id z"
  by (simp add: touch_zone_record_def)

lemma observe_zone_zones:
  assumes "observe_zone w b i target obs ctx = Ok w'" "keyed_map zr_channel_id (wk_zones w)"
  shows "\<exists>z. zr_channel_id z = ob_channel_id obs \<and> wk_zones w' = bt_insert (ob_channel_id obs) z (wk_zones w)"
proof -
  obtain kind use root x where k: "observation_evidence (ob_kind obs) = (kind, use, root, x)" by (metis prod_cases4)
  let ?id = "evidence_id_of (ob_transaction_hash obs) (ob_operation_index obs) kind"
  define z0 where "z0 = (case bt_get (wk_zones w) (ob_channel_id obs) of
    Some z \<Rightarrow> z | None \<Rightarrow> new_zone_record obs b i target ?id ctx)"
  obtain z l c where z: "observe_zone_record (touch_zone_record z0 b target x ctx) b (ob_kind obs) l c = Ok z"
    and w': "w' = w\<lparr>wk_zones := bt_insert (ob_channel_id obs) z (wk_zones w)\<rparr>"
    using assms(1) unfolding observe_zone_def k Let_def prod.case z0_def[symmetric] and_then_Ok result.inject by blast
  have "zr_channel_id z0 = ob_channel_id obs"
    using keyed_get[OF assms(2)] by (auto simp: z0_def new_zone_record_def split: option.splits)
  then show ?thesis using observe_zone_record_channel[OF z] by (auto simp: w')
qed

lemma channel_references_iff: "e \<in> set (channel_references w c) \<longleftrightarrow> e \<in> evidence_values w \<and> ev_channel_id e = c"
  by auto

lemma ingest_observation_zones:
  assumes "ingest_observation w b i target obs ctx = Ok w'" "zones_hold T w"
  shows "zones_hold (insert (ob_channel_id obs) T) w'"
proof -
  let ?c = "ob_channel_id obs"
  note h = zones_holdD[OF assms(2)]
  obtain w1 new where w1: "insert_observation_evidence w b i obs = Ok (w1, new)"
    and step: "if new then observe_zone w1 b i target obs ctx = Ok w' else w' = w1"
    using assms(1) by (auto simp: ingest_observation_def and_then_Ok split: if_splits)
  note e = insert_observation_evidence_Ok[OF w1 h(2)] and k = insert_observation_evidence_keeps[OF w1 h(2,3)]
  have same: "wk_evidence w' = wk_evidence w1" "wk_latest_primary w' = wk_latest_primary w1"
    "wk_latest_configuration w' = wk_latest_configuration w1"
    using step observe_zone_Ok[of w1 b i target obs ctx w'] by (auto split: if_splits)
  have z: "keyed_map zr_channel_id (wk_zones w')" "\<And>c. c \<noteq> ?c \<Longrightarrow> bt_get (wk_zones w') c = bt_get (wk_zones w) c"
    "bt_get (wk_zones w') ?c \<noteq> None"
  proof -
    have kz: "keyed_map zr_channel_id (wk_zones w1)" using h(1) e(4) by simp
    consider (old) "\<not> new" "wk_zones w' = wk_zones w"
      | (fresh) z where "zr_channel_id z = ?c" "wk_zones w' = bt_insert ?c z (wk_zones w)"
      using step e(4) observe_zone_zones[OF _ kz, of b i target obs ctx w'] by (auto split: if_splits)
    then show "keyed_map zr_channel_id (wk_zones w')" "\<And>c. c \<noteq> ?c \<Longrightarrow> bt_get (wk_zones w') c = bt_get (wk_zones w) c"
      "bt_get (wk_zones w') ?c \<noteq> None"
      using h(1) keyed_insert[OF h(1)] bt_get_insert[OF keyed_mapD(1)[OF h(1)]] k(3) h(4)
      by (cases; metis fun_upd_apply option.distinct(1))+
  qed
  show ?thesis unfolding zones_hold_def
  proof (intro conjI ballI allI impI)
    show "keyed_map zr_channel_id (wk_zones w')" by (rule z(1))
    show "keyed_map ev_evidence_id (wk_evidence w')" using e(1) by (simp add: same)
    show "indexes_exact w'" using k(1) by (simp add: indexes_exact_def same)
    fix q
    assume "q \<in> evidence_values w'"
    then have "q \<in> evidence_values w \<or> ev_channel_id q = ?c"
      using e(2) observation_references_channel by (auto simp: same)
    then show "bt_get (wk_zones w') (ev_channel_id q) \<noteq> None" using z(2,3) h(4) by metis
  next
    fix c
    assume "c \<notin> insert ?c T"
    then show "zone_exact w' c" using z(2) h(5) k(2) by (simp add: zone_exact_def same)
  qed
qed

lemma recompute_zone_record_zones:
  assumes "recompute_zone_record target ctx w c = Ok w'" "zones_hold T w"
  shows "zones_hold (T - {c}) w'"
proof -
  note h = zones_holdD[OF assms(2)]
  obtain z z0 where z: "w' = w\<lparr>wk_zones := bt_insert c z (wk_zones w)\<rparr>" "bt_get (wk_zones w) c = Some z0"
    "zone_summary (channel_references w c) z" "zr_channel_id z = zr_channel_id z0"
    using recompute_zone_record_Ok[OF assms(1)] by blast
  have key: "zr_channel_id z = c" using keyed_get[OF h(1) z(2)] z(4) by simp
  have get: "bt_get (wk_zones w') d = (if d = c then Some z else bt_get (wk_zones w) d)" for d
    by (simp add: z(1) bt_get_insert[OF keyed_mapD(1)[OF h(1)]])
  show ?thesis unfolding zones_hold_def
  proof (intro conjI ballI allI impI)
    show "keyed_map zr_channel_id (wk_zones w')" using keyed_insert[OF h(1) key] by (simp add: z(1))
    show "keyed_map ev_evidence_id (wk_evidence w')" "indexes_exact w'" using h(2,3) by (simp_all add: z(1) indexes_exact_def)
    show "bt_get (wk_zones w') (ev_channel_id e) \<noteq> None" if "e \<in> evidence_values w'" for e
      using that h(4)[of e] by (simp add: get) (simp add: z(1))
    show "zone_exact w' d" if "d \<notin> T - {c}" for d
      using that h(5)[of d] z(3) unfolding zone_exact_def get by (cases "d = c") (simp_all add: z(1))
  qed
qed

lemma recompute_zone_records_zones:
  assumes "recompute_zone_records w cs target ctx = Ok w'" "zones_hold T w"
  shows "zones_hold (T - set cs) w'"
  using assms unfolding recompute_zone_records_def
proof (induction cs arbitrary: w T)
  case (Cons c cs)
  then obtain w1 where w1: "recompute_zone_record target ctx w c = Ok w1"
    "fold_result (recompute_zone_record target ctx) w1 cs = Ok w'" by (auto simp: and_then_Ok)
  have "zones_hold (T - {c} - set cs) w'"
    by (rule Cons.IH[OF w1(2) recompute_zone_record_zones[OF w1(1) Cons.prems(2)]])
  then show ?case unfolding list.set Diff_insert2[of T c "set cs"] .
qed simp

lemma ingest_block_zones:
  assumes "ingest_block ext i target ctx (w, touched) b = Ok (w', touched')" "zones_hold (set touched) w"
  shows "zones_hold (set touched') w'"
proof -
  obtain os where "fold_result (ingest_one (lb_checkpoint b) i target ctx) (w, touched) os = Ok (w', touched')"
    using assms(1) unfolding ingest_block_alt and_then_Ok by blast
  then have "case (w', touched') of (w, touched) \<Rightarrow> zones_hold (set touched) w"
    by (rule fold_result_invariant)
      (use assms(2) ingest_observation_zones in \<open>auto simp: ingest_one_def and_then_Ok\<close>)
  then show ?thesis by simp
qed

lemma ingest_blocks_zones:
  assumes "ingest_blocks ext w bs i ctx = Ok w'" "zones_hold {} w"
  shows "zones_hold {} w'"
proof -
  obtain slot w1 touched where i: "fold_result (ingest_block ext i slot ctx) (w, []) bs = Ok (w1, touched)"
    "recompute_zone_records w1 touched slot ctx = Ok w'"
    using assms(1) by (auto simp: ingest_blocks_def and_then_Ok)
  have "case (w1, touched) of (w, touched) \<Rightarrow> zones_hold (set touched) w"
    using i(1) by (rule fold_result_invariant) (use assms(2) ingest_block_zones in auto)
  then have "zones_hold (set touched - set touched) w'" by (intro recompute_zone_records_zones[OF i(2)]) simp
  then show ?thesis by simp
qed

section \<open>Reassignment of a segment\<close>

definition reassign_reference :: "string \<Rightarrow> string \<Rightarrow> evidence_reference \<Rightarrow> evidence_reference" where
  "reassign_reference old new e =
     (if ev_coverage_segment_id e = old then e\<lparr>ev_coverage_segment_id := new\<rparr> else e)"

lemma reassign_reference_simps [simp]:
  "ev_evidence_id (reassign_reference old new e) = ev_evidence_id e"
  "ev_channel_id (reassign_reference old new e) = ev_channel_id e"
  "ev_evidence_kind (reassign_reference old new e) = ev_evidence_kind e"
  "evidence_order (reassign_reference old new e) = evidence_order e"
  by (simp_all add: reassign_reference_def evidence_order_def)

lemma keyed_map_values:
  assumes "keyed_map key m" "\<And>r. key (f r) = key r"
  shows "keyed_map key (bt_map_values f m)"
  using assms by (auto simp: keyed_map_def bt_map_values_def comp_def case_prod_unfold)

lemma latest_index_map:
  assumes "latest_index P S m"
    and "\<And>r. P (f r) = P r" "\<And>r. ev_channel_id (f r) = ev_channel_id r" "\<And>r. ev_evidence_id (f r) = ev_evidence_id r"
    "\<And>r. evidence_order (f r) = evidence_order r"
  shows "latest_index P (f ` S) m"
proof (rule latest_indexI[OF latest_index_sorted[OF assms(1)]])
  show "ev_channel_id r \<noteq> c" if "bt_get m c = None" "r \<in> f ` S" "P r" for c r
    using that latest_index_None[OF assms(1)] assms(2,3) by (metis imageE)
  fix c i
  assume "bt_get m c = Some i"
  then obtain r where "r \<in> S" "P r" "ev_channel_id r = c" "ev_evidence_id r = i"
    "\<And>q. q \<in> S \<Longrightarrow> P q \<Longrightarrow> ev_channel_id q = c \<Longrightarrow> evidence_order q \<le> evidence_order r"
    using latest_index_Some[OF assms(1)] by metis
  then show "\<exists>r \<in> f ` S. P r \<and> ev_channel_id r = c \<and> ev_evidence_id r = i
       \<and> (\<forall>q \<in> f ` S. P q \<and> ev_channel_id q = c \<longrightarrow> evidence_order q \<le> evidence_order r)"
    by (intro bexI[of _ "f r"]) (auto simp: assms(2-5))
qed

lemma set_foldl_channels:
  "set (foldl (\<lambda>cs e. if P e then bset_insert (f e) cs else cs) cs es) = set cs \<union> f ` {e \<in> set es. P e}"
  by (induction es arbitrary: cs) auto

lemma max_by_key_mem: "max_by_key f xs = Some x \<Longrightarrow> x \<in> set xs"
proof -
  have "foldl (\<lambda>m y. if f m \<le> f y then y else m) a ys \<in> insert a (set ys)" for a ys
    by (induction ys arbitrary: a) auto
  then show "max_by_key f xs = Some x \<Longrightarrow> x \<in> set xs"
    by (auto simp: max_by_key_def split: list.splits)
qed

definition reassign_zone :: "string \<Rightarrow> string \<Rightarrow> engine_context \<Rightarrow> zone_record \<Rightarrow> zone_record" where
  "reassign_zone old new ctx z =
     (if sp_coverage_segment_id (zr_snapshot_provenance z) = old
      then z\<lparr>zr_snapshot_provenance := (zr_snapshot_provenance z)
               \<lparr>sp_coverage_segment_id := new, sp_source_revision := cx_source_revision ctx\<rparr>,
             zr_updated_at_unix := cx_updated_at_unix ctx\<rparr>
      else z)"

definition reassigned :: "working_catalog \<Rightarrow> string \<Rightarrow> string \<Rightarrow> engine_context \<Rightarrow> working_catalog" where
  "reassigned w old new ctx = w\<lparr>wk_evidence := bt_map_values (reassign_reference old new) (wk_evidence w),
     wk_zones := bt_map_values (reassign_zone old new ctx) (wk_zones w)\<rparr>"

lemma reassign_segment_Ok:
  assumes "reassign_segment w old new ctx = Ok w'"
  shows "\<exists>cs slot. set cs = ev_channel_id ` {e \<in> evidence_values w. ev_coverage_segment_id e = old}
    \<and> recompute_zone_records (reassigned w old new ctx) cs slot ctx = Ok w'"
  using assms unfolding reassign_segment_def Let_def and_then_Ok reassigned_def reassign_reference_def[abs_def]
    reassign_zone_def[abs_def]
  by (elim exE conjE) (intro exI conjI, rule trans[OF set_foldl_channels], auto)

lemma reassigned_zones:
  assumes "zones_hold {} w"
  shows "zones_hold (ev_channel_id ` {e \<in> evidence_values w. ev_coverage_segment_id e = old}) (reassigned w old new ctx)"
proof -
  note h = zones_holdD[OF assms]
  let ?f = "reassign_reference old new"
  have vals: "evidence_values (reassigned w old new ctx) = ?f ` evidence_values w" by (simp add: reassigned_def)
  have refs: "channel_references (reassigned w old new ctx) c = map ?f (channel_references w c)" for c
    by (simp add: reassigned_def filter_map comp_def)
  show ?thesis unfolding zones_hold_def
  proof (intro conjI ballI allI impI)
    show "keyed_map zr_channel_id (wk_zones (reassigned w old new ctx))"
      using keyed_map_values[OF h(1), of "reassign_zone old new ctx"] by (simp add: reassigned_def reassign_zone_def)
    show "keyed_map ev_evidence_id (wk_evidence (reassigned w old new ctx))"
      using keyed_map_values[OF h(2), of ?f] by (simp add: reassigned_def)
    show "indexes_exact (reassigned w old new ctx)"
      using h(3) latest_index_map[where f = ?f] unfolding indexes_exact_def vals by (simp add: reassigned_def)
    show "bt_get (wk_zones (reassigned w old new ctx)) (ev_channel_id e) \<noteq> None"
      if "e \<in> evidence_values (reassigned w old new ctx)" for e
      using that h(4) unfolding vals by (auto simp: reassigned_def bt_get_map_values)
  next
    fix c
    assume c: "c \<notin> ev_channel_id ` {e \<in> evidence_values w. ev_coverage_segment_id e = old}"
    have kept: "?f e = e" "ev_coverage_segment_id e \<noteq> old" if "e \<in> set (channel_references w c)" for e
      using that c by (auto simp: reassign_reference_def)
    have same: "map ?f (channel_references w c) = channel_references w c" using kept(1) by (rule map_idI)
    show "zone_exact (reassigned w old new ctx) c" unfolding zone_exact_def refs same
    proof (intro allI impI)
      fix z
      assume "bt_get (wk_zones (reassigned w old new ctx)) c = Some z"
      then obtain z0 where z0: "bt_get (wk_zones w) c = Some z0" "z = reassign_zone old new ctx z0"
        by (auto simp: reassigned_def bt_get_map_values)
      have s: "zone_summary (channel_references w c) z0" using h(5)[of c] z0(1) by (simp add: zone_exact_def)
      then obtain latest where "max_by_key evidence_order (channel_references w c) = Some latest"
        "sp_coverage_segment_id (zr_snapshot_provenance z0) = ev_coverage_segment_id latest"
        unfolding zone_summary_def by blast
      then have "sp_coverage_segment_id (zr_snapshot_provenance z0) \<noteq> old"
        using kept(2)[OF max_by_key_mem] by simp
      then show "zone_summary (channel_references w c) z" using s z0(2) by (simp add: reassign_zone_def)
    qed
  qed
qed

lemma reassign_segment_zones:
  assumes "reassign_segment w old new ctx = Ok w'" "zones_hold {} w"
  shows "zones_hold {} w'" "evidence_values w' = reassign_reference old new ` evidence_values w" "same_coverage w w'"
proof -
  obtain cs slot where cs: "set cs = ev_channel_id ` {e \<in> evidence_values w. ev_coverage_segment_id e = old}"
    "recompute_zone_records (reassigned w old new ctx) cs slot ctx = Ok w'"
    using reassign_segment_Ok[OF assms(1)] by blast
  have "zones_hold (set cs) (reassigned w old new ctx)" unfolding cs(1) by (rule reassigned_zones[OF assms(2)])
  then have "zones_hold (set cs - set cs) w'" by (rule recompute_zone_records_zones[OF cs(2)])
  then show "zones_hold {} w'" by simp
  note r = recompute_zone_records_Ok[OF cs(2)]
  show "evidence_values w' = reassign_reference old new ` evidence_values w" using r by (simp add: reassigned_def)
  show "same_coverage w w'" using r by (simp add: reassigned_def same_coverage_def)
qed

section \<open>The properties\<close>

lemma zones_hold_indexes:
  assumes "zones_hold T w"
  shows "latest_evidence_ids (wk_evidence w) = (wk_latest_primary w, wk_latest_configuration w)"
proof -
  obtain p c where pc: "latest_evidence_ids (wk_evidence w) = (p, c)" by force
  note i = latest_evidence_ids_index[OF zones_holdD(2)[OF assms] pc]
  have "p = wk_latest_primary w" "c = wk_latest_configuration w"
    using i zones_holdD(3)[OF assms] latest_index_unique unfolding indexes_exact_def by blast+
  with pc show ?thesis by simp
qed

text \<open>
  C26: Every Zone record summarises exactly the references of its channel: the latest reference in
  evidence order and its segment, the number of references of each kind, the first and the last slot.
  Ingesting blocks keeps this for every channel, also where a reference was known already and for
  channels the blocks do not touch.
\<close>

theorem ingestion_keeps_zone_summaries:
  assumes "zones_hold {} w" "ingest_blocks ext w bs i ctx = Ok w'"
  shows "zones_hold {} w' \<and> (\<forall>c z. bt_get (wk_zones w') c = Some z
    \<longrightarrow> zr_channel_id z = c \<and> zone_summary (channel_references w' c) z)"
proof -
  have h: "zones_hold {} w'" by (rule ingest_blocks_zones[OF assms(2,1)])
  then show ?thesis using zones_holdD(5)[OF h] keyed_get[OF zones_holdD(1)[OF h]] by (auto simp: zone_exact_def)
qed

text \<open>
  C27: The two latest-evidence indexes, which ingestion updates one reference at a time, equal the
  indexes recomputed from all references of the working catalog.
\<close>

theorem incremental_indexes_exact:
  assumes "zones_hold {} w" "ingest_blocks ext w bs i ctx = Ok w'"
  shows "latest_evidence_ids (wk_evidence w') = (wk_latest_primary w', wk_latest_configuration w')"
  by (rule zones_hold_indexes[OF ingest_blocks_zones[OF assms(2,1)]])

text \<open>
  C28: Moving the references of one segment to another keeps the summaries and the indexes, and
  changes nothing of a reference but its segment.
\<close>

theorem reassignment_keeps_zone_summaries:
  assumes "zones_hold {} w" "reassign_segment w old new ctx = Ok w'"
  shows "zones_hold {} w' \<and> set (bt_values (wk_evidence w'))
    = (\<lambda>e. if ev_coverage_segment_id e = old then e\<lparr>ev_coverage_segment_id := new\<rparr> else e) ` set (bt_values (wk_evidence w))"
  using reassign_segment_zones[OF assms(2,1)] by (simp add: reassign_reference_def)

subsection \<open>A concrete ingestion\<close>

definition sample_externals :: "nat externals" where
  "sample_externals = \<lparr>x_as_u64 = (\<lambda>n. Some (of_nat n)), x_number_text = (\<lambda>_. ''1''), x_json_to_vec = (\<lambda>_. None),
     x_hex_decode = (\<lambda>_. None), x_hex_encode = map (\<lambda>b. char_of (unat b)), x_sha256 = (\<lambda>bs. bs),
     x_sequencer_block = (\<lambda>_. None)\<rparr>"

definition channel_block :: "u64 \<Rightarrow> char \<Rightarrow> char \<Rightarrow> char \<Rightarrow> nat l1_block" where
  "channel_block slot i p channel = \<lparr>lb_checkpoint = sample_checkpoint slot i p,
     lb_payload = JObject [(''transactions'', JArray [JObject [(''mantle_tx'', JObject
       [(''hash'', JString (sample_id i)), (''ops'', JArray [JObject [(''opcode'', JNumber 16), (''payload'', JObject
         [(''channel'', JString (sample_id channel)), (''keys'', JArray [JString ''key'']),
          (''withdraw_threshold'', JNumber 1)])]])])]])]\<rparr>"

definition sample_context :: engine_context where
  "sample_context = \<lparr>cx_source_revision = 1, cx_updated_at_unix = 9, cx_repair_block_limit = 8\<rparr>"

definition sample_working :: working_catalog where
  "sample_working = \<lparr>wk_frontier = None, wk_traversal = Some \<lparr>tr_target_lib = Some \<lparr>br_slot = 9,
       br_block_id = sample_id (CHR ''9'')\<rparr>, tr_ingestion_cursor = None\<rparr>, wk_zones = [], wk_evidence = [],
     wk_latest_primary = [], wk_latest_configuration = [], wk_segments = [], wk_gaps = []\<rparr>"

lemma sample_working_holds: "zones_hold {} sample_working"
  by (simp add: zones_hold_def sample_working_def keyed_map_def indexes_exact_def latest_index_empty zone_exact_def)

definition sample_blocks :: "nat l1_block list" where
  "sample_blocks = [channel_block 1 (CHR ''1'') (CHR ''0'') (CHR ''a''),
     channel_block 2 (CHR ''2'') (CHR ''1'') (CHR ''a'')]"

lemma sample_ingestion:
  "is_ok (and_then (ingest_blocks sample_externals sample_working sample_blocks ''segment_0'' sample_context)
     (\<lambda>w. reassign_segment w ''segment_0'' ''segment_1'' sample_context))"
  by code_simp

lemma sample_ingestion_obtains:
  obtains w w' where "ingest_blocks sample_externals sample_working sample_blocks ''segment_0'' sample_context = Ok w"
    "reassign_segment w ''segment_0'' ''segment_1'' sample_context = Ok w'"
  using sample_ingestion by (auto simp: is_ok_iff and_then_Ok)

theorem ingestion_keeps_zone_summaries_witness:
  "\<exists>w. ingest_blocks sample_externals sample_working sample_blocks ''segment_0'' sample_context = Ok w
     \<and> zones_hold {} sample_working \<and> zones_hold {} w"
  using ingestion_keeps_zone_summaries[OF sample_working_holds] sample_working_holds sample_ingestion_obtains by metis

theorem incremental_indexes_exact_witness:
  "\<exists>w. ingest_blocks sample_externals sample_working sample_blocks ''segment_0'' sample_context = Ok w
     \<and> latest_evidence_ids (wk_evidence w) = (wk_latest_primary w, wk_latest_configuration w)"
  using incremental_indexes_exact[OF sample_working_holds] sample_ingestion_obtains by metis

theorem reassignment_keeps_zone_summaries_witness:
  "\<exists>w w'. zones_hold {} w \<and> reassign_segment w ''segment_0'' ''segment_1'' sample_context = Ok w' \<and> zones_hold {} w'"
proof -
  obtain w w' where w: "ingest_blocks sample_externals sample_working sample_blocks ''segment_0'' sample_context = Ok w"
    "reassign_segment w ''segment_0'' ''segment_1'' sample_context = Ok w'" by (rule sample_ingestion_obtains)
  have h: "zones_hold {} w" by (rule ingest_blocks_zones[OF w(1) sample_working_holds])
  then show ?thesis using reassignment_keeps_zone_summaries[OF h w(2)] w(2) by blast
qed

end
