(* ===== verification/Coverage_Runs.thy ===== *)
theory Coverage_Runs
  imports Catalog_Zones Catalog_Database
begin

text \<open>
  The abstract view of a catalog's coverage: a list of runs of blocks. Each run is a chain of L1 blocks
  linked by parent identifiers, stored as one coverage segment; consecutive runs are separated by
  one coverage gap; the evidence of the catalog is exactly the evidence of the blocks of the runs.
  \<open>covers\<close> relates such a list to a working catalog. This theory holds the relation and the lemmas on
  runs and gaps that the steps of the engine need.

  \<open>U\<close> is the set of blocks that the L1 source serves, as a partial function from block identifiers: an
  identifier names at most one block, as a block hash does.
\<close>

section \<open>Runs\<close>

type_synonym 'n run = "string \<times> 'n l1_block list"

definition floor_of :: "'n l1_block list \<Rightarrow> block_checkpoint" where
  "floor_of bs = lb_checkpoint (hd bs)"

definition top_of :: "'n l1_block list \<Rightarrow> block_checkpoint" where
  "top_of bs = lb_checkpoint (last bs)"

definition top_reference :: "'n l1_block list \<Rightarrow> block_reference" where
  "top_reference bs = block_reference_of (top_of bs)"

definition in_universe :: "(string \<Rightarrow> 'n l1_block option) \<Rightarrow> 'n l1_block \<Rightarrow> bool" where
  "in_universe U b \<longleftrightarrow> U (cp_block_id (lb_checkpoint b)) = Some b"

definition good_run :: "(string \<Rightarrow> 'n l1_block option) \<Rightarrow> 'n l1_block list \<Rightarrow> bool" where
  "good_run U bs \<longleftrightarrow> bs \<noteq> [] \<and> linked (map lb_checkpoint bs) \<and> (\<forall>b \<in> set bs. in_universe U b)"

definition run_segment :: "block_reference option \<Rightarrow> 'n run \<Rightarrow> coverage_segment" where
  "run_segment t r = \<lparr>sg_segment_id = fst r, sg_floor = floor_of (snd r), sg_frontier = top_reference (snd r),
     sg_reaches_target_lib = (Some (top_reference (snd r)) = t)\<rparr>"

definition run_evidence :: "'n externals \<Rightarrow> 'n run list \<Rightarrow> evidence_reference set" where
  "run_evidence ext rs = (\<Union>r \<in> set rs. \<Union>b \<in> set (snd r). set (block_references ext (fst r) b))"

lemma run_segment_simps [simp]:
  "sg_segment_id (run_segment t r) = fst r" "sg_floor (run_segment t r) = floor_of (snd r)"
  "sg_frontier (run_segment t r) = top_reference (snd r)"
  "sg_reaches_target_lib (run_segment t r) = (Some (top_reference (snd r)) = t)"
  by (simp_all add: run_segment_def)

lemma floor_of_append [simp]: "bs \<noteq> [] \<Longrightarrow> floor_of (bs @ cs) = floor_of bs"
  by (simp add: floor_of_def)

lemma top_of_append [simp]: "cs \<noteq> [] \<Longrightarrow> top_of (bs @ cs) = top_of cs"
  by (simp add: top_of_def)

lemma top_reference_append [simp]: "cs \<noteq> [] \<Longrightarrow> top_reference (bs @ cs) = top_reference cs"
  by (simp add: top_reference_def)

lemma good_runD:
  assumes "good_run U bs"
  shows "bs \<noteq> []" "linked (map lb_checkpoint bs)" "b \<in> set bs \<Longrightarrow> in_universe U b"
  using assms by (simp_all add: good_run_def)

lemma good_run_append:
  assumes "good_run U bs" "good_run U cs" "links (top_of bs) (floor_of cs)"
  shows "good_run U (bs @ cs)"
  using assms by (auto simp: good_run_def linked_append floor_of_def top_of_def last_map hd_map)

lemma good_run_slots:
  assumes "good_run U bs" "b \<in> set bs"
  shows "cp_slot (floor_of bs) \<le> cp_slot (lb_checkpoint b)" "cp_slot (lb_checkpoint b) \<le> cp_slot (top_of bs)"
  using linked_slots[OF good_runD(2)[OF assms(1)], of "lb_checkpoint b"] assms good_runD(1)[OF assms(1)]
  by (auto simp: floor_of_def top_of_def last_map hd_map)

lemma good_run_floor_top: "good_run U bs \<Longrightarrow> cp_slot (floor_of bs) \<le> cp_slot (top_of bs)"
  using good_run_slots[of U bs "hd bs"] good_runD(1)[of U bs] by (simp add: floor_of_def)

lemma universe_inj:
  "in_universe U b \<Longrightarrow> in_universe U c \<Longrightarrow> cp_block_id (lb_checkpoint b) = cp_block_id (lb_checkpoint c) \<Longrightarrow> b = c"
  by (simp add: in_universe_def)

section \<open>Gaps between runs\<close>

definition joins :: "'n run \<Rightarrow> 'n run \<Rightarrow> coverage_gap \<Rightarrow> bool" where
  "joins r q g \<longleftrightarrow> gp_lower_segment_id g = fst r \<and> gp_lower_checkpoint g = top_reference (snd r)
     \<and> gp_upper_segment_id g = fst q \<and> gp_upper_block g = block_reference_of (floor_of (snd q))
     \<and> gp_required_parent_id g = cp_parent_id (floor_of (snd q))
     \<and> cp_slot (top_of (snd r)) < cp_slot (floor_of (snd q))"

text \<open>A gap keeps the identifier of the boundary it was opened at.\<close>

definition gap_named :: "'n externals \<Rightarrow> (string \<Rightarrow> 'n l1_block option) \<Rightarrow> coverage_gap \<Rightarrow> bool" where
  "gap_named ext U g \<longleftrightarrow>
     (\<exists>b. in_universe U b \<and> gp_gap_id g = gap_id_for_boundary ext (gp_lower_checkpoint g) (lb_checkpoint b))"

fun joined :: "'n run list \<Rightarrow> coverage_gap list \<Rightarrow> bool" where
  "joined (r # q # rs) (g # gs) = (joins r q g \<and> joined (q # rs) gs)"
| "joined (r # q # rs) [] = False"
| "joined [r] gs = (gs = [])"
| "joined [] gs = (gs = [])"

lemma joined_Cons:
  "joined (r # rs) gs \<longleftrightarrow> (if rs = [] then gs = []
     else \<exists>g gs'. gs = g # gs' \<and> joins r (hd rs) g \<and> joined rs gs')"
  by (cases rs; cases gs) auto

lemma joined_split:
  "joined (xs @ r # ys) gs \<longleftrightarrow> (\<exists>gs1 gs2. gs = gs1 @ gs2 \<and> joined (xs @ [r]) gs1 \<and> joined (r # ys) gs2)"
proof (induction xs arbitrary: gs)
  case (Cons x xs)
  have ne: "xs @ r # ys \<noteq> []" "xs @ [r] \<noteq> []" "hd (xs @ r # ys) = hd (xs @ [r])" by (cases xs; simp)+
  show ?case
  proof
    assume "joined ((x # xs) @ r # ys) gs"
    then obtain g gs' where g: "gs = g # gs'" "joins x (hd (xs @ [r])) g" "joined (xs @ r # ys) gs'"
      using ne by (auto simp: joined_Cons[of x])
    then obtain gs1 gs2 where "gs' = gs1 @ gs2" "joined (xs @ [r]) gs1" "joined (r # ys) gs2"
      using Cons.IH by blast
    with g ne have "gs = (g # gs1) @ gs2" "joined ((x # xs) @ [r]) (g # gs1)" "joined (r # ys) gs2"
      by (auto simp: joined_Cons[of x])
    then show "\<exists>gs1 gs2. gs = gs1 @ gs2 \<and> joined ((x # xs) @ [r]) gs1 \<and> joined (r # ys) gs2" by blast
  next
    assume "\<exists>gs1 gs2. gs = gs1 @ gs2 \<and> joined ((x # xs) @ [r]) gs1 \<and> joined (r # ys) gs2"
    then obtain gs1 gs2 where g: "gs = gs1 @ gs2" "joined (x # (xs @ [r])) gs1" "joined (r # ys) gs2" by auto
    then obtain h gs1' where h: "gs1 = h # gs1'" "joins x (hd (xs @ [r])) h" "joined (xs @ [r]) gs1'"
      using ne(2) by (auto simp: joined_Cons[of x])
    then have "joined (xs @ r # ys) (gs1' @ gs2)" using Cons.IH g(3) by blast
    then show "joined ((x # xs) @ r # ys) gs" using h ne g(1) by (auto simp: joined_Cons[of x])
  qed
qed (auto simp: joined_Cons)

lemma joined_length: "joined rs gs \<Longrightarrow> length gs = length rs - 1"
  by (induction rs gs rule: joined.induct) auto

lemma joined_Nil_iff: "joined rs gs \<Longrightarrow> gs = [] \<longleftrightarrow> length rs \<le> 1"
  using joined_length[of rs gs] by (cases gs) auto

lemma joins_floor: "joins r q g \<Longrightarrow> fst q' = fst q \<Longrightarrow> floor_of (snd q') = floor_of (snd q) \<Longrightarrow> joins r q' g"
  by (auto simp: joins_def)

lemma joins_top:
  "joins r q g \<Longrightarrow> fst r' = fst r \<Longrightarrow> top_of (snd r') = top_of (snd r) \<Longrightarrow> joins r' q g"
  by (auto simp: joins_def top_reference_def)

lemma joined_last:
  assumes "joined (rs @ [r]) gs" "fst q = fst r" "floor_of (snd q) = floor_of (snd r)"
  shows "joined (rs @ [q]) gs"
  using assms(1)
proof (induction rs arbitrary: gs)
  case (Cons x rs)
  have hd: "rs \<noteq> [] \<Longrightarrow> hd (rs @ [q]) = hd (rs @ [r])" by simp
  show ?case using Cons joins_floor[where r = x, OF _ assms(2,3)] hd by (cases "rs = []") (auto simp: joined_Cons)
qed simp

lemma joined_hd:
  assumes "joined (r # rs) gs" "fst q = fst r" "top_of (snd q) = top_of (snd r)"
  shows "joined (q # rs) gs"
  using assms(1) joins_top[where q = "hd rs", OF _ assms(2,3)] by (auto simp: joined_Cons)

lemma joined_snoc:
  assumes "joined (rs @ [r]) gs" "joins r q g"
  shows "joined (rs @ [r, q]) (gs @ [g])"
proof -
  have "joined [r, q] [g]" using assms(2) by simp
  then show ?thesis unfolding joined_split[of rs r "[q]"] using assms(1) by blast
qed

lemma joined_ids:
  assumes "joined rs gs" "g \<in> set gs"
  shows "gp_lower_segment_id g \<in> fst ` set rs" "gp_upper_segment_id g \<in> fst ` set (tl rs)"
proof -
  have "gp_lower_segment_id g \<in> fst ` set rs \<and> gp_upper_segment_id g \<in> fst ` set (tl rs)"
    using assms
  proof (induction rs gs rule: joined.induct)
    case (1 r q rs h gs)
    show ?case
    proof (cases "g = h")
      case True
      then show ?thesis using 1 by (auto simp: joins_def)
    next
      case False
      then have "gp_lower_segment_id g \<in> fst ` set (q # rs)" "gp_upper_segment_id g \<in> fst ` set rs"
        using 1 by auto
      then show ?thesis by auto
    qed
  qed auto
  then show "gp_lower_segment_id g \<in> fst ` set rs" "gp_upper_segment_id g \<in> fst ` set (tl rs)" by blast+
qed

text \<open>Every gap joins two neighbours.\<close>

lemma joined_at:
  assumes "joined rs gs" "g \<in> set gs"
  obtains xs r q ys gs1 gs2 where "rs = xs @ r # q # ys" "gs = gs1 @ g # gs2" "joins r q g"
    "joined (xs @ [r]) gs1" "joined (q # ys) gs2"
proof -
  have "\<exists>xs r q ys gs1 gs2. rs = xs @ r # q # ys \<and> gs = gs1 @ g # gs2 \<and> joins r q g
    \<and> joined (xs @ [r]) gs1 \<and> joined (q # ys) gs2"
    using assms
  proof (induction rs gs rule: joined.induct)
    case (1 r q rs h gs)
    show ?case
    proof (cases "g = h")
      case True
      then have "r # q # rs = [] @ r # q # rs \<and> h # gs = [] @ g # gs \<and> joins r q g
        \<and> joined ([] @ [r]) [] \<and> joined (q # rs) gs" using 1(2) by simp
      then show ?thesis by blast
    next
      case False
      then obtain xs a b ys gs1 gs2 where *: "q # rs = xs @ a # b # ys" "gs = gs1 @ g # gs2" "joins a b g"
        "joined (xs @ [a]) gs1" "joined (b # ys) gs2" using 1 by auto
      have "hd (xs @ [a]) = q" using *(1) by (cases xs) auto
      then have "joined ((r # xs) @ [a]) (h # gs1)" using 1(2) *(4) by (auto simp: joined_Cons[of r])
      moreover have "r # q # rs = (r # xs) @ a # b # ys" "h # gs = (h # gs1) @ g # gs2" using *(1,2) by simp_all
      ultimately show ?thesis using *(3,5) by blast
    qed
  qed auto
  then show ?thesis using that by blast
qed

section \<open>Runs are ordered by slot\<close>

abbreviation good_runs :: "(string \<Rightarrow> 'n l1_block option) \<Rightarrow> 'n run list \<Rightarrow> bool" where
  "good_runs U rs \<equiv> \<forall>r \<in> set rs. good_run U (snd r)"

definition below :: "'n run \<Rightarrow> 'n run \<Rightarrow> bool" where
  "below r q \<longleftrightarrow> cp_slot (top_of (snd r)) < cp_slot (floor_of (snd q))"

lemma joined_sorted: "joined rs gs \<Longrightarrow> good_runs U rs \<Longrightarrow> sorted_wrt below rs"
proof (induction rs gs rule: joined.induct)
  case (1 r q rs g gs)
  have s: "sorted_wrt below (q # rs)" using 1 by simp
  have rq: "below r q" using 1(2) by (simp add: joins_def below_def)
  have "cp_slot (floor_of (snd q)) \<le> cp_slot (top_of (snd q))" using 1(3) good_run_floor_top by auto
  then have "below r p" if "p \<in> set rs" for p
    using that s rq by (auto simp: below_def)
  then show ?case using s rq by simp
qed simp_all

lemma runs_at_slot:
  assumes "sorted_wrt below rs" "good_runs U rs" "r \<in> set rs" "q \<in> set rs" "b \<in> set (snd r)" "c \<in> set (snd q)"
    and "cp_slot (lb_checkpoint b) = cp_slot (lb_checkpoint c)"
  shows "r = q"
proof -
  have apart: "\<not> below x y" if "x \<in> set rs" "y \<in> set rs" "d \<in> set (snd x)" "e \<in> set (snd y)"
    "cp_slot (lb_checkpoint d) = cp_slot (lb_checkpoint e)" for x y d e
    using good_run_slots(2)[of U "snd x" d] good_run_slots(1)[of U "snd y" e] assms(2) that by (auto simp: below_def)
  obtain i j where ij: "i < length rs" "j < length rs" "r = rs ! i" "q = rs ! j"
    using assms(3,4) by (metis in_set_conv_nth)
  have "i = j"
  proof (rule ccontr)
    assume "i \<noteq> j"
    then consider "i < j" | "j < i" by linarith
    then have "below r q \<or> below q r"
      using assms(1) ij by cases (simp_all add: sorted_wrt_iff_nth_less)
    then show False using apart[OF assms(3-7)] apart[OF assms(4,3,6,5) assms(7)[symmetric]] by blast
  qed
  then show ?thesis using ij by simp
qed

lemma top_of_mem: "good_run U bs \<Longrightarrow> \<exists>b \<in> set bs. lb_checkpoint b = top_of bs"
  using good_runD(1) last_in_set by (auto simp: top_of_def)

lemma floor_of_mem: "good_run U bs \<Longrightarrow> \<exists>b \<in> set bs. lb_checkpoint b = floor_of bs"
  using good_runD(1) hd_in_set by (auto simp: floor_of_def)

lemma runs_same_id:
  assumes "sorted_wrt below rs" "good_runs U rs" "r \<in> set rs" "q \<in> set rs" "b \<in> set (snd r)" "c \<in> set (snd q)"
    and "cp_block_id (lb_checkpoint b) = cp_block_id (lb_checkpoint c)"
  shows "r = q"
proof -
  have "in_universe U b" "in_universe U c" using good_runD(3) assms by auto
  then have "b = c" using universe_inj assms(7) by blast
  then show ?thesis using runs_at_slot[OF assms(1-6)] by simp
qed

lemma runs_same_top:
  assumes "sorted_wrt below rs" "good_runs U rs" "r \<in> set rs" "q \<in> set rs"
    and "cp_block_id (top_of (snd r)) = cp_block_id (top_of (snd q))"
  shows "r = q"
proof -
  obtain b c where "b \<in> set (snd r)" "lb_checkpoint b = top_of (snd r)" "c \<in> set (snd q)" "lb_checkpoint c = top_of (snd q)"
    using top_of_mem assms(2-4) by metis
  then show ?thesis using runs_same_id[OF assms(1-4)] assms(5) by metis
qed

lemma runs_same_floor_slot:
  assumes "sorted_wrt below rs" "good_runs U rs" "r \<in> set rs" "q \<in> set rs"
    and "cp_slot (floor_of (snd r)) = cp_slot (floor_of (snd q))"
  shows "r = q"
proof -
  obtain b c where "b \<in> set (snd r)" "lb_checkpoint b = floor_of (snd r)" "c \<in> set (snd q)" "lb_checkpoint c = floor_of (snd q)"
    using floor_of_mem assms(2-4) by metis
  then show ?thesis using runs_at_slot[OF assms(1-4)] assms(5) by metis
qed

section \<open>The evidence of runs\<close>

lemma run_evidence_simps [simp]:
  "run_evidence ext [] = {}"
  "run_evidence ext (r # rs) = (\<Union>b \<in> set (snd r). set (block_references ext (fst r) b)) \<union> run_evidence ext rs"
  "run_evidence ext (rs @ qs) = run_evidence ext rs \<union> run_evidence ext qs"
  by (auto simp: run_evidence_def)

lemma block_references_segment: "e \<in> set (block_references ext i b) \<Longrightarrow> ev_coverage_segment_id e = i"
  by (auto simp: block_references_def observation_references_def split: prod.splits if_splits)

lemma reassign_make: "reassign_reference i j (make_evidence_reference obs b i k u) = make_evidence_reference obs b j k u"
  by (simp add: reassign_reference_def make_evidence_reference_def)

lemma reassign_block_references:
  "reassign_reference i j ` set (block_references ext i b) = set (block_references ext j b)"
proof -
  have "map (reassign_reference i j) (observation_references c i obs) = observation_references c j obs" for c obs
    by (auto simp: observation_references_def reassign_make split: prod.splits)
  then have "map (reassign_reference i j) (block_references ext i b) = block_references ext j b"
    by (simp add: block_references_def map_concat comp_def)
  then show ?thesis by (metis set_map)
qed

lemma reassign_run:
  "reassign_reference i j ` (\<Union>b \<in> B. set (block_references ext k b))
    = (\<Union>b \<in> B. set (block_references ext (if k = i then j else k) b))"
proof (cases "k = i")
  case True
  then show ?thesis by (simp add: image_UN reassign_block_references)
next
  case False
  then have "reassign_reference i j e = e" if "e \<in> set (block_references ext k b)" for e b
    using block_references_segment[OF that] by (simp add: reassign_reference_def)
  with False show ?thesis by (simp add: image_UN)
qed

lemma reassign_others:
  assumes "i \<notin> fst ` set rs"
  shows "reassign_reference i j ` run_evidence ext rs = run_evidence ext rs"
proof -
  have "reassign_reference i j e = e" if "e \<in> run_evidence ext rs" for e
    using that assms block_references_segment by (fastforce simp: run_evidence_def reassign_reference_def)
  then show ?thesis by simp
qed

end
