(* ===== verification/Catalog_Coverage.thy ===== *)
theory Catalog_Coverage
  imports Coverage_Runs
begin

text \<open>
  The refinement between the runs of blocks and the catalog, step by step: catch-up to a new
  target, a connected page, a disconnected segment, the repair of the prefix, the expansion and the
  merge of a gap. Each lemma says which change of the runs a reduction and its commit implement.
\<close>

section \<open>The relation\<close>

definition target_of :: "working_catalog \<Rightarrow> block_reference option" where
  "target_of w = Option.bind (wk_traversal w) tr_target_lib"

text \<open>The frontier describes the first run: its top, its floor, and whether it starts at slot zero.\<close>

definition frontier_ok :: "'n run list \<Rightarrow> frontier option \<Rightarrow> bool" where
  "frontier_ok rs f \<longleftrightarrow> (case rs of
     [] \<Rightarrow> (\<forall>x. f = Some x \<longrightarrow> fr_prefix_status x = PrefixUnknown)
   | r # _ \<Rightarrow> (\<exists>x. f = Some x \<and> fr_checkpoint x = Some (top_of (snd r))
       \<and> fr_coverage_floor x = Some (cp_slot (floor_of (snd r)))
       \<and> fr_prefix_status x = (if cp_slot (floor_of (snd r)) = 0 then PrefixComplete else PrefixUnavailable)))"

definition status_ok :: "'n run list \<Rightarrow> coverage_gap list \<Rightarrow> working_catalog \<Rightarrow> bool" where
  "status_ok rs gs w \<longleftrightarrow> (\<forall>x. wk_frontier w = Some x \<longrightarrow> fr_coverage_status x
     = coverage_rule (\<exists>r \<in> set rs. Some (top_reference (snd r)) = target_of w) (gs = []) x)"

definition covers ::
  "'n externals \<Rightarrow> (string \<Rightarrow> 'n l1_block option) \<Rightarrow> 'n run list \<Rightarrow> coverage_gap list \<Rightarrow> working_catalog \<Rightarrow> bool" where
  "covers ext U rs gs w \<longleftrightarrow>
     good_runs U rs \<and> distinct (map fst rs) \<and> joined rs gs \<and> distinct (map gp_gap_id gs)
     \<and> keyed_map sg_segment_id (wk_segments w)
     \<and> set (bt_values (wk_segments w)) = run_segment (target_of w) ` set rs
     \<and> keyed_map gp_gap_id (wk_gaps w) \<and> set (bt_values (wk_gaps w)) = set gs
     \<and> ingestion_cursor (wk_traversal w) = (if rs = [] then None else Some (top_reference (snd (last rs))))
     \<and> (rs \<noteq> [] \<longrightarrow> target_of w \<noteq> None) \<and> frontier_ok rs (wk_frontier w)
     \<and> evidence_values w = run_evidence ext rs \<and> zones_hold {} w
     \<and> (\<forall>g \<in> set gs. gap_named ext U g)"

lemma coversD:
  assumes "covers ext U rs gs w"
  shows "good_runs U rs" "distinct (map fst rs)" "joined rs gs" "distinct (map gp_gap_id gs)"
    "keyed_map sg_segment_id (wk_segments w)" "set (bt_values (wk_segments w)) = run_segment (target_of w) ` set rs"
    "keyed_map gp_gap_id (wk_gaps w)" "set (bt_values (wk_gaps w)) = set gs"
    "ingestion_cursor (wk_traversal w) = (if rs = [] then None else Some (top_reference (snd (last rs))))"
    "rs \<noteq> [] \<Longrightarrow> target_of w \<noteq> None" "frontier_ok rs (wk_frontier w)"
    "evidence_values w = run_evidence ext rs" "zones_hold {} w" "\<forall>g \<in> set gs. gap_named ext U g"
  using assms unfolding covers_def by blast+

lemma coversI:
  assumes "good_runs U rs" "distinct (map fst rs)" "joined rs gs" "distinct (map gp_gap_id gs)"
    "keyed_map sg_segment_id (wk_segments w)" "set (bt_values (wk_segments w)) = run_segment (target_of w) ` set rs"
    "keyed_map gp_gap_id (wk_gaps w)" "set (bt_values (wk_gaps w)) = set gs"
    "ingestion_cursor (wk_traversal w) = (if rs = [] then None else Some (top_reference (snd (last rs))))"
    "rs \<noteq> [] \<Longrightarrow> target_of w \<noteq> None" "frontier_ok rs (wk_frontier w)"
    "evidence_values w = run_evidence ext rs" "zones_hold {} w" "\<forall>g \<in> set gs. gap_named ext U g"
  shows "covers ext U rs gs w"
  unfolding covers_def using assms by (intro conjI impI) assumption+

lemma covers_sorted: "covers ext U rs gs w \<Longrightarrow> sorted_wrt below rs"
  by (rule joined_sorted[OF coversD(3) coversD(1)])

lemma covers_no_gaps: "covers ext U rs gs w \<Longrightarrow> wk_gaps w = [] \<longleftrightarrow> gs = []"
  using coversD(8)[of ext U rs gs w] by (cases "wk_gaps w") (auto simp: bt_values_def)

section \<open>Commits\<close>

text \<open>What a commit does to the held snapshot.\<close>

definition commit_snapshot :: "catalog_snapshot \<Rightarrow> catalog_batch \<Rightarrow> catalog_snapshot catalog_result" where
  "commit_snapshot s b =
     and_then (validate_batch b) (\<lambda>_.
     and_then (next_metadata (cs_metadata s) (cb_updated_at_unix b)) (\<lambda>md.
     apply_batch_to_snapshot s md b))"

lemma commit_batch_commit_snapshot:
  assumes "consistent cd st s" "commit_batch_from_snapshot cd st s b = Ok (st', s')"
  shows "commit_snapshot s b = Ok s'"
proof -
  have "read_snapshot cd (st_database st) = Ok s" using assms(1) by (simp add: consistent_def snapshot_def)
  then show ?thesis
    using assms(2) read_current_metadata_Ok
    by (auto simp: commit_batch_from_snapshot_def commit_batch_with_snapshot_hook_def commit_snapshot_def
        write_batch_def and_then_Ok split: if_splits)
qed

lemma keyed_records_by_key: "keyed_map key (records_by_key key rs)"
proof -
  have "keyed_map key m \<Longrightarrow> keyed_map key (foldl (\<lambda>m r. bt_insert (key r) r m) m rs)" for m
    by (induction rs arbitrary: m) (simp_all add: keyed_map_insert)
  from this[of "[]"] show ?thesis by (simp add: records_by_key_def keyed_map_def)
qed

lemma records_by_key_values: "keyed_map key m \<Longrightarrow> records_by_key key (bt_values m) = m"
  using records_by_key_sorted[OF key_sorted_values[OF keyed_mapD]] keyed_entries_values[OF keyed_mapD(2)] by metis

lemma bt_values_records: "key_sorted key rs \<Longrightarrow> bt_values (records_by_key key rs) = rs"
  by (simp add: records_by_key_sorted bt_values_def comp_def)

lemma into_batch_applied:
  assumes srt: "sorted_snapshot s" and z: "zones_hold {} w"
    and k: "keyed_map sg_segment_id (wk_segments w)" "keyed_map gp_gap_id (wk_gaps w)"
    and b: "into_batch w s ctx = Ok (Some b)" and s': "apply_batch_records_to s md b = Ok s'"
  shows "from_snapshot s' = w" "sorted_snapshot s'"
proof -
  note srt' = sorted_snapshotD[OF srt] and kz = zones_holdD(1)[OF z] and ke = zones_holdD(2)[OF z]
  obtain uz dz ue de us ds ug dg where d: "record_diff zr_channel_id (cs_zones s) (wk_zones w) = (uz, dz)"
    "record_diff ev_evidence_id (cs_evidence s) (wk_evidence w) = (ue, de)"
    "record_diff sg_segment_id (cs_segments s) (wk_segments w) = (us, ds)"
    "record_diff gp_gap_id (cs_gaps s) (wk_gaps w) = (ug, dg)" by (meson surj_pair)
  have b': "cb_upsert_zones b = uz" "cb_delete_zone_ids b = dz" "cb_upsert_evidence b = ue" "cb_delete_evidence_ids b = de"
    "cb_upsert_segments b = us" "cb_delete_segment_ids b = ds" "cb_upsert_gaps b = ug" "cb_delete_gap_ids b = dg"
    "cb_frontier b = wk_frontier w" "cb_traversal b = wk_traversal w"
    using b unfolding into_batch_def d Let_def prod.case by (auto split: if_splits)
  note diff = record_diff_apply[where e = bad_index]
  have vals: "cs_zones s' = bt_values (wk_zones w)" "cs_evidence s' = bt_values (wk_evidence w)"
    "cs_segments s' = bt_values (wk_segments w)" "cs_gaps s' = bt_values (wk_gaps w)"
    "cs_frontier s' = wk_frontier w" "cs_traversal s' = wk_traversal w"
    using s' diff[OF srt'(1) keyed_mapD[OF kz] d(1)] diff[OF srt'(2) keyed_mapD[OF ke] d(2)]
      diff[OF srt'(3) keyed_mapD[OF k(1)] d(3)] diff[OF srt'(4) keyed_mapD[OF k(2)] d(4)]
    unfolding apply_batch_records_to_Ok b' by simp_all
  show "sorted_snapshot s'"
    unfolding sorted_snapshot_def vals using kz ke k
    by (intro conjI key_sorted_values) (simp_all add: keyed_map_def)
  show "from_snapshot s' = w"
    unfolding from_snapshot_def vals records_by_key_values[OF ke] records_by_key_values[OF kz]
      records_by_key_values[OF k(1)] records_by_key_values[OF k(2)] Let_def zones_hold_indexes[OF z] by simp
qed

lemma commit_snapshot_records:
  "commit_snapshot s b = Ok s' \<Longrightarrow> \<exists>md. apply_batch_records_to s md b = Ok s'"
  by (auto simp: commit_snapshot_def apply_batch_to_snapshot_def and_then_Ok split: if_splits)

text \<open>A snapshot is covered when its working catalog is, with a sound status.\<close>

definition covered :: "'n externals \<Rightarrow> (string \<Rightarrow> 'n l1_block option) \<Rightarrow> 'n run list \<Rightarrow> coverage_gap list
    \<Rightarrow> catalog_snapshot \<Rightarrow> bool" where
  "covered ext U rs gs s \<longleftrightarrow> sorted_snapshot s \<and> covers ext U rs gs (from_snapshot s) \<and> status_ok rs gs (from_snapshot s)"

lemma covered_commit:
  assumes "sorted_snapshot s" "covers ext U rs gs w" "status_ok rs gs w"
    "into_batch w s ctx = Ok (Some b)" "commit_snapshot s b = Ok s'"
  shows "covered ext U rs gs s'"
proof -
  obtain md where md: "apply_batch_records_to s md b = Ok s'" using commit_snapshot_records[OF assms(5)] by blast
  note r = into_batch_applied[OF assms(1) coversD(13)[OF assms(2)] coversD(5)[OF assms(2)] coversD(7)[OF assms(2)] assms(4) md]
  show ?thesis unfolding covered_def r(1) using r(2) assms(2,3) by simp
qed

section \<open>The coverage status\<close>

lemma recompute_coverage_covers:
  assumes c: "covers ext U rs gs w" and w': "recompute_coverage w = Ok w'"
  shows "covers ext U rs gs w'" "status_ok rs gs w'"
proof -
  obtain t f where t: "target_of w = Some t" and f: "wk_frontier w = Some f"
    and eq: "w' = w\<lparr>wk_frontier := Some (f\<lparr>fr_observed_lib := Some t, fr_coverage_status :=
      coverage_rule (list_ex (\<lambda>g. sg_reaches_target_lib g \<and> sg_frontier g = t) (bt_values (wk_segments w)))
        (wk_gaps w = []) (f\<lparr>fr_observed_lib := Some t\<rparr>)\<rparr>)\<rparr>"
    using w' by (auto simp: recompute_coverage_def current_target_in_working_def target_of_def ok_simps Let_def)
  have tw: "target_of w' = target_of w" by (simp add: eq target_of_def)
  have reach: "list_ex (\<lambda>g. sg_reaches_target_lib g \<and> sg_frontier g = t) (bt_values (wk_segments w))
      \<longleftrightarrow> (\<exists>r \<in> set rs. Some (top_reference (snd r)) = target_of w)"
    unfolding list_ex_iff coversD(6)[OF c] by (auto simp: t)
  have z: "zones_hold {} w'"
    using coversD(13)[OF c] by (simp add: eq zones_hold_def indexes_exact_def zone_exact_def)
  have fr: "frontier_ok rs (wk_frontier w')"
    using coversD(11)[OF c] by (auto simp: frontier_ok_def eq f split: list.splits)
  show "covers ext U rs gs w'"
    by (rule coversI[OF coversD(1-4)[OF c]])
      (use coversD(5-10,12,14)[OF c] tw fr z in \<open>simp_all add: eq\<close>)
  show "status_ok rs gs w'"
    unfolding status_ok_def tw by (simp add: eq reach covers_no_gaps[OF c] coverage_rule_def)
qed

lemma finish_batch_Ok:
  assumes "finish_batch w s ctx e = Ok b"
  obtains w' where "recompute_coverage w = Ok w'" "into_batch w' s ctx = Ok (Some b)"
  using assms by (auto simp: finish_batch_def ok_simps)

lemma finish_batch_covered:
  assumes "sorted_snapshot s" "covers ext U rs gs w" "finish_batch w s ctx e = Ok b" "commit_snapshot s b = Ok s'"
  shows "covered ext U rs gs s'"
proof -
  obtain w' where w': "recompute_coverage w = Ok w'" "into_batch w' s ctx = Ok (Some b)"
    by (rule finish_batch_Ok[OF assms(3)])
  show ?thesis by (rule covered_commit[OF assms(1) recompute_coverage_covers[OF assms(2) w'(1)] w'(2) assms(4)])
qed

end
