(* ===== verification/Coverage_Pages.thy ===== *)
theory Coverage_Pages
  imports Catalog_Coverage
begin

text \<open>
  The reductions of pages: the catch-up to a new target, the connected page that extends the last run,
  and the disconnected page that opens a new run behind a gap.
\<close>

section \<open>Catch-up\<close>

lemma apply_snapshot_records_map:
  assumes srt: "key_sorted key rs" and key: "\<And>r. key (f r) = key r"
  shows "apply_snapshot_records e key rs (map f (filter P rs)) [] = Ok (map (\<lambda>r. if P r then f r else r) rs)"
    and "key_sorted key (map (\<lambda>r. if P r then f r else r) rs)"
proof -
  let ?us = "map f (filter P rs)" and ?h = "\<lambda>r. if P r then f r else r"
  have kh: "key (?h r) = key r" for r by (simp add: key)
  have h: "key_sorted key (map ?h rs)" using srt by (simp add: comp_def kh)
  then show "key_sorted key (map (\<lambda>r. if P r then f r else r) rs)" .
  have us: "key_sorted key ?us" using strictly_sorted_map_filter[OF srt, of P] by (simp add: comp_def key)
  then have "distinct (map key ?us)" using strictly_sorted_iff by blast
  from apply_snapshot_records_sorted[OF srt this, of e "[]"] obtain rs' where
    rs': "apply_snapshot_records e key rs ?us [] = Ok rs'" "key_sorted key rs'"
    and look: "\<And>k. find_record key rs' k = (case map_of (keyed_entries key ?us) k of Some r \<Rightarrow> Some r
         | None \<Rightarrow> find_record key rs k)" by auto
  have inj: "q = r" if "q \<in> set rs" "r \<in> set rs" "key q = key r" for q r
    using srt that by (auto simp: strictly_sorted_iff distinct_map inj_on_def)
  have "rs' = map ?h rs"
  proof (rule vec_eqI[OF rs'(2) h])
    fix k
    show "find_record key rs' k = find_record key (map ?h rs) k"
    proof (cases "\<exists>r \<in> set rs. key r = k")
      case False
      then have "k \<notin> key ` set ?us" "k \<notin> key ` set rs" "k \<notin> key ` set (map ?h rs)" by (auto simp: key)
      then show ?thesis
        unfolding look find_record_sorted[OF srt] find_record_sorted[OF h] map_of_keyed_entries_None[symmetric] by simp
    next
      case True
      then obtain r where r: "r \<in> set rs" "key r = k" by blast
      have right: "find_record key (map ?h rs) k = Some (?h r)"
        unfolding find_record_sorted[OF h] map_of_keyed_entries[OF h] using r kh by auto
      have "map_of (keyed_entries key ?us) k = (if P r then Some (f r) else None)"
      proof (cases "P r")
        case True
        then have "map_of (keyed_entries key ?us) k = Some (f r)"
          unfolding map_of_keyed_entries[OF us] using r by (auto simp: key)
        then show ?thesis using True by (simp only: if_True)
      next
        case False
        then have "key q \<noteq> k" if "q \<in> set rs" "P q" for q using that r inj by metis
        then have "k \<notin> key ` set ?us" by (fastforce simp: key)
        then show ?thesis using False unfolding map_of_keyed_entries_None[symmetric] by (simp only: if_False)
      qed
      moreover have "find_record key rs k = Some r"
        unfolding find_record_sorted[OF srt] map_of_keyed_entries[OF srt] using r by simp
      ultimately show ?thesis unfolding look right by simp
    qed
  qed
  with rs'(1) show "apply_snapshot_records e key rs ?us [] = Ok (map ?h rs)" by simp
qed

lemma records_by_key_map:
  assumes "key_sorted key rs" "\<And>r. key (f r) = key r"
  shows "records_by_key key (map f rs) = bt_map_values f (records_by_key key rs)"
proof -
  have "key_sorted key (map f rs)" using assms by (simp add: comp_def)
  then show ?thesis using assms by (simp add: records_by_key_sorted bt_map_values_def comp_def)
qed

lemma zones_hold_map:
  assumes "zones_hold T w" "wk_evidence w' = wk_evidence w" "wk_latest_primary w' = wk_latest_primary w"
    "wk_latest_configuration w' = wk_latest_configuration w" "wk_zones w' = bt_map_values f (wk_zones w)"
    and "\<And>z. zr_channel_id (f z) = zr_channel_id z" "\<And>es z. zone_summary es z \<Longrightarrow> zone_summary es (f z)"
  shows "zones_hold T w'"
  unfolding zones_hold_def assms(2,5)
proof (intro conjI)
  note h = zones_holdD[OF assms(1)]
  show "keyed_map zr_channel_id (bt_map_values f (wk_zones w))" by (rule keyed_map_values[OF h(1) assms(6)])
  show "keyed_map ev_evidence_id (wk_evidence w)" by (rule h(2))
  show "indexes_exact w'" using h(3) by (simp add: indexes_exact_def assms(2-4))
  show "\<forall>e \<in> evidence_values w. bt_get (bt_map_values f (wk_zones w)) (ev_channel_id e) \<noteq> None"
    using h(4) by (simp add: bt_get_map_values)
  show "\<forall>c. c \<notin> T \<longrightarrow> zone_exact w' c"
    using h(5) assms(7) by (auto simp: zone_exact_def assms(2,5) bt_get_map_values)
qed

lemma from_snapshot_simps:
  "wk_frontier (from_snapshot s) = cs_frontier s" "wk_traversal (from_snapshot s) = cs_traversal s"
  "wk_zones (from_snapshot s) = records_by_key zr_channel_id (cs_zones s)"
  "wk_evidence (from_snapshot s) = records_by_key ev_evidence_id (cs_evidence s)"
  "wk_segments (from_snapshot s) = records_by_key sg_segment_id (cs_segments s)"
  "wk_gaps (from_snapshot s) = records_by_key gp_gap_id (cs_gaps s)"
  "wk_latest_primary (from_snapshot s) = fst (latest_evidence_ids (records_by_key ev_evidence_id (cs_evidence s)))"
  "wk_latest_configuration (from_snapshot s) = snd (latest_evidence_ids (records_by_key ev_evidence_id (cs_evidence s)))"
  by (simp_all add: from_snapshot_def Let_def case_prod_unfold)

lemma coveredD:
  assumes "covered ext U rs gs s"
  shows "sorted_snapshot s" "covers ext U rs gs (from_snapshot s)" "status_ok rs gs (from_snapshot s)"
    "set (cs_segments s) = run_segment (target_of (from_snapshot s)) ` set rs" "set (cs_gaps s) = set gs"
    "cs_gaps s = [] \<longleftrightarrow> gs = []" "cs_segments s = [] \<longleftrightarrow> rs = []"
proof -
  show c: "sorted_snapshot s" "covers ext U rs gs (from_snapshot s)" "status_ok rs gs (from_snapshot s)"
    using assms by (simp_all add: covered_def)
  show g: "set (cs_segments s) = run_segment (target_of (from_snapshot s)) ` set rs" "set (cs_gaps s) = set gs"
    using coversD(6,8)[OF c(2)] sorted_snapshotD[OF c(1)] by (simp_all add: from_snapshot_simps bt_values_records)
  show "cs_gaps s = [] \<longleftrightarrow> gs = []" "cs_segments s = [] \<longleftrightarrow> rs = []"
    using g(2) arg_cong[OF g(1), of "\<lambda>x. x = {}"] by (auto simp: set_empty[symmetric] simp del: set_empty)
qed

definition retarget_zone :: "block_reference \<Rightarrow> engine_context \<Rightarrow> zone_record \<Rightarrow> zone_record" where
  "retarget_zone t ctx z = z\<lparr>zr_l1_channel := (zr_l1_channel z)\<lparr>lc_lib_slot := Some (br_slot t)\<rparr>,
     zr_updated_at_unix := cx_updated_at_unix ctx\<rparr>"

lemma retarget_zone_simps [simp]:
  "zr_channel_id (retarget_zone t ctx z) = zr_channel_id z"
  "zone_summary es (retarget_zone t ctx z) = zone_summary es z"
  by (simp_all add: retarget_zone_def zone_summary_def)

definition retarget_segment :: "block_reference \<Rightarrow> coverage_segment \<Rightarrow> coverage_segment" where
  "retarget_segment t g = g\<lparr>sg_reaches_target_lib := (sg_frontier g = t)\<rparr>"

lemma retarget_segment_id: "sg_segment_id (retarget_segment t g) = sg_segment_id g"
  by (simp add: retarget_segment_def)

lemma catch_up_batch:
  assumes "prepare_catalog_catch_up_with_resume s t ctx resumed = Ok (Some b)"
  defines "f \<equiv> (unwrap_or (cs_frontier s) default_frontier)\<lparr>fr_observed_lib := Some t\<rparr>"
  shows "b = \<lparr>cb_expected_catalog_revision = cm_catalog_revision (cs_metadata s),
    cb_updated_at_unix = cx_updated_at_unix ctx,
    cb_upsert_zones = map (retarget_zone t ctx)
      (filter (\<lambda>z. lc_lib_slot (zr_l1_channel z) \<noteq> Some (br_slot t)) (cs_zones s)), cb_delete_zone_ids = [],
    cb_upsert_evidence = [], cb_delete_evidence_ids = [],
    cb_upsert_segments = map (retarget_segment t)
      (filter (\<lambda>g. sg_reaches_target_lib g \<noteq> (sg_frontier g = t)) (cs_segments s)), cb_delete_segment_ids = [],
    cb_upsert_gaps = [], cb_delete_gap_ids = [],
    cb_frontier = Some (f\<lparr>fr_coverage_status :=
      coverage_rule (list_ex (\<lambda>g. sg_frontier g = t) (cs_segments s)) (cs_gaps s = []) f\<rparr>),
    cb_traversal = Some \<lparr>tr_target_lib = Some t, tr_ingestion_cursor = ingestion_cursor (cs_traversal s)\<rparr>\<rparr>"
proof -
  have pick: "(if p then Ok None else Ok (Some x)) = Ok (Some y) \<Longrightarrow> y = x" for p and x y :: catalog_batch
    by (simp split: if_splits)
  show ?thesis
    using assms(1) unfolding prepare_catalog_catch_up_with_resume_def and_then_Ok Let_def retarget_zone_def[abs_def] retarget_segment_def[abs_def] f_def
    by (elim exE conjE) (rule pick)
qed

lemma catch_up_covered:
  assumes c: "covered ext U rs gs s" and b: "prepare_catalog_catch_up_with_resume s t ctx resumed = Ok (Some b)"
    and s': "commit_snapshot s b = Ok s'"
  shows "covered ext U rs gs s'" "target_of (from_snapshot s') = Some t"
proof -
  note d = coveredD[OF c] and srt = sorted_snapshotD[OF coveredD(1)[OF c]]
  obtain md where md: "apply_batch_records_to s md b = Ok s'" using commit_snapshot_records[OF s'] by blast
  let ?f = "(unwrap_or (cs_frontier s) default_frontier)\<lparr>fr_observed_lib := Some t\<rparr>"
  let ?f' = "?f\<lparr>fr_coverage_status := coverage_rule (list_ex (\<lambda>g. sg_frontier g = t) (cs_segments s)) (cs_gaps s = []) ?f\<rparr>"
  let ?seg = "\<lambda>g. if sg_reaches_target_lib g \<noteq> (sg_frontier g = t)
    then retarget_segment t g else g"
  let ?zone = "\<lambda>z. if lc_lib_slot (zr_l1_channel z) \<noteq> Some (br_slot t) then retarget_zone t ctx z else z"
  have b': "cb_upsert_zones b = map (retarget_zone t ctx)
        (filter (\<lambda>z. lc_lib_slot (zr_l1_channel z) \<noteq> Some (br_slot t)) (cs_zones s))" "cb_delete_zone_ids b = []"
    "cb_upsert_evidence b = []" "cb_delete_evidence_ids b = []"
    "cb_upsert_segments b = map (retarget_segment t)
        (filter (\<lambda>g. sg_reaches_target_lib g \<noteq> (sg_frontier g = t)) (cs_segments s))" "cb_delete_segment_ids b = []"
    "cb_upsert_gaps b = []" "cb_delete_gap_ids b = []" "cb_frontier b = Some ?f'"
    "cb_traversal b = Some \<lparr>tr_target_lib = Some t, tr_ingestion_cursor = ingestion_cursor (cs_traversal s)\<rparr>"
    unfolding catch_up_batch[OF b] by simp_all
  have zone_key: "zr_channel_id (retarget_zone t ctx z) = zr_channel_id z" for z by simp
  have vals: "cs_zones s' = map ?zone (cs_zones s)" "cs_evidence s' = cs_evidence s"
    "cs_segments s' = map ?seg (cs_segments s)" "cs_gaps s' = cs_gaps s" "cs_frontier s' = Some ?f'"
    "cs_traversal s' = Some \<lparr>tr_target_lib = Some t, tr_ingestion_cursor = ingestion_cursor (cs_traversal s)\<rparr>"
  proof -
    have p: "apply_snapshot_records bad_index zr_channel_id (cs_zones s) (cb_upsert_zones b) (cb_delete_zone_ids b) = Ok (cs_zones s')"
      "apply_snapshot_records bad_index ev_evidence_id (cs_evidence s) (cb_upsert_evidence b) (cb_delete_evidence_ids b) = Ok (cs_evidence s')"
      "apply_snapshot_records bad_index sg_segment_id (cs_segments s) (cb_upsert_segments b) (cb_delete_segment_ids b) = Ok (cs_segments s')"
      "apply_snapshot_records bad_index gp_gap_id (cs_gaps s) (cb_upsert_gaps b) (cb_delete_gap_ids b) = Ok (cs_gaps s')"
      "cs_frontier s' = cb_frontier b" "cs_traversal s' = cb_traversal b"
      using md by (simp_all add: apply_batch_records_to_Ok)
    show "cs_zones s' = map ?zone (cs_zones s)"
      using p(1) by (simp only: b'(1,2) apply_snapshot_records_map(1)[OF srt(1) zone_key] result.inject)
    show "cs_segments s' = map ?seg (cs_segments s)"
      using p(3) by (simp only: b'(5,6) apply_snapshot_records_map(1)[OF srt(3) retarget_segment_id[of t]] result.inject)
    show "cs_evidence s' = cs_evidence s" "cs_gaps s' = cs_gaps s"
      using p(2,4) unfolding b'(3,4,7,8) by (simp_all add: apply_snapshot_records_def)
  qed (use md in \<open>simp_all add: apply_batch_records_to_Ok b'\<close>)
  show tgt: "target_of (from_snapshot s') = Some t" by (simp add: target_of_def from_snapshot_simps vals)
  have sorted: "sorted_snapshot s'"
    unfolding sorted_snapshot_def vals
    by (intro conjI apply_snapshot_records_map(2)[OF srt(1) zone_key]
        apply_snapshot_records_map(2)[OF srt(3) retarget_segment_id[of t]] srt(2,4))
  have seg: "?seg (run_segment x r) = run_segment (Some t) r" for x r by (simp add: run_segment_def retarget_segment_def)
  have reach: "list_ex (\<lambda>g. sg_frontier g = t) (cs_segments s) \<longleftrightarrow> (\<exists>r \<in> set rs. Some (top_reference (snd r)) = Some t)"
    unfolding list_ex_iff d(4) by auto
  have "covers ext U rs gs (from_snapshot s')"
  proof (rule coversI[OF coversD(1-4)[OF d(2)]])
    show "set (bt_values (wk_segments (from_snapshot s'))) = run_segment (target_of (from_snapshot s')) ` set rs"
      using sorted_snapshotD(3)[OF sorted] unfolding tgt from_snapshot_simps vals
      by (simp only: bt_values_records set_map d(4) image_image seg)
    show "zones_hold {} (from_snapshot s')"
      by (rule zones_hold_map[OF coversD(13)[OF d(2)], where f = ?zone])
        (simp_all add: from_snapshot_simps vals records_by_key_map[OF srt(1)])
    show "frontier_ok rs (wk_frontier (from_snapshot s'))"
      using coversD(11)[OF d(2)]
      by (cases rs; cases "cs_frontier s") (auto simp: frontier_ok_def from_snapshot_simps vals default_frontier_def)
  qed (use coversD[OF d(2)] in \<open>simp_all add: from_snapshot_simps vals keyed_records_by_key target_of_def\<close>)
  moreover have "status_ok rs gs (from_snapshot s')"
    unfolding status_ok_def tgt by (simp add: from_snapshot_simps vals reach d(6) coverage_rule_def)
  ultimately show "covered ext U rs gs s'" using sorted by (simp add: covered_def)
qed

section \<open>Segments of runs\<close>

lemma covers_segment:
  assumes "covers ext U rs gs w" "r \<in> set rs"
  shows "bt_get (wk_segments w) (fst r) = Some (run_segment (target_of w) r)"
proof -
  have "run_segment (target_of w) r \<in> set (bt_values (wk_segments w))"
    unfolding coversD(6)[OF assms(1)] using assms(2) by blast
  then show ?thesis unfolding keyed_values[OF coversD(5)[OF assms(1)]] by simp
qed

lemma covers_get_segment:
  assumes "covers ext U rs gs w" "bt_get (wk_segments w) i = Some g"
  obtains r where "r \<in> set rs" "fst r = i" "g = run_segment (target_of w) r"
proof -
  have "sg_segment_id g = i" by (rule keyed_get[OF coversD(5)[OF assms(1)] assms(2)])
  then have "g \<in> set (bt_values (wk_segments w))"
    unfolding keyed_values[OF coversD(5)[OF assms(1)]] using assms(2) by simp
  then obtain r where "r \<in> set rs" "g = run_segment (target_of w) r"
    unfolding coversD(6)[OF assms(1)] by blast
  moreover from this have "fst r = i" using \<open>sg_segment_id g = i\<close> by simp
  ultimately show ?thesis using that by blast
qed

lemma same_id_run:
  "distinct (map fst rs) \<Longrightarrow> r \<in> set rs \<Longrightarrow> q \<in> set rs \<Longrightarrow> fst r = fst q \<Longrightarrow> r = q"
  by (auto simp: distinct_map inj_on_def)

lemma Collect_image: "{y \<in> f ` A. P y} = f ` {x \<in> A. P (f x)}"
  by blast

lemma others_by_key:
  assumes "distinct (map key (xs @ r # ys))"
  shows "{x \<in> set (xs @ r # ys). key x \<noteq> key r} = set (xs @ ys)"
proof -
  have "key r \<notin> key ` set (xs @ ys)" using assms by auto
  then have "key x \<noteq> key r" if "x \<in> set (xs @ ys)" for x using imageI[OF that, of key] by metis
  then show ?thesis by auto
qed

lemma replace_segment:
  assumes "keyed_map sg_segment_id m" "set (bt_values m) = run_segment t ` set (xs @ r # ys)"
    "distinct (map fst (xs @ r # ys))" "fst q = fst r"
  shows "set (bt_values (bt_insert (fst r) (run_segment t q) m)) = run_segment t ` set (xs @ q # ys)"
proof -
  have "set (bt_values (bt_insert (sg_segment_id (run_segment t q)) (run_segment t q) m))
      = insert (run_segment t q) {g \<in> run_segment t ` set (xs @ r # ys). sg_segment_id g \<noteq> fst r}"
    unfolding keyed_values_insert[OF assms(1)] assms(2) by (simp add: assms(4))
  also have "{g \<in> run_segment t ` set (xs @ r # ys). sg_segment_id g \<noteq> fst r}
      = run_segment t ` {x \<in> set (xs @ r # ys). fst x \<noteq> fst r}" by (simp only: Collect_image run_segment_simps)
  also have "{x \<in> set (xs @ r # ys). fst x \<noteq> fst r} = set (xs @ ys)" by (rule others_by_key[OF assms(3)])
  finally show ?thesis by (simp add: assms(4))
qed

lemma active_segment_unique:
  assumes i: "active_segment_id_in_working w cursor = Ok i" and "h \<in> set (bt_values (wk_segments w))" "sg_frontier h = cursor"
  shows "i = sg_segment_id h"
proof -
  obtain g where g: "filter (\<lambda>g. sg_frontier g = cursor) (bt_values (wk_segments w)) = [g]" "i = sg_segment_id g"
    using i by (auto simp: active_segment_id_in_working_def split: list.splits)
  have "h \<in> set (filter (\<lambda>g. sg_frontier g = cursor) (bt_values (wk_segments w)))" using assms(2,3) by simp
  then have "h = g" unfolding g(1) by simp
  then show ?thesis using g(2) by simp
qed

lemma active_segment_last:
  assumes c: "covers ext U rs gs w" and cur: "ingestion_cursor (wk_traversal w) = Some cursor"
    and i: "active_segment_id_in_working w cursor = Ok i"
  shows "rs \<noteq> []" "cursor = top_reference (snd (last rs))" "i = fst (last rs)"
proof -
  show ne: "rs \<noteq> []" and top: "cursor = top_reference (snd (last rs))"
    using coversD(9)[OF c] cur by (auto split: if_splits)
  have "run_segment (target_of w) (last rs) \<in> set (bt_values (wk_segments w))" using ne by (simp add: coversD(6)[OF c])
  from active_segment_unique[OF i this] show "i = fst (last rs)" by (simp add: top)
qed

section \<open>Connected pages\<close>

definition extend_last :: "'n run list \<Rightarrow> 'n l1_block list \<Rightarrow> 'n run list" where
  "extend_last rs bs = (if rs = [] then [(segment_id_for_floor (floor_of bs), bs)]
     else butlast rs @ [(fst (last rs), snd (last rs) @ bs)])"

lemma set_connected_frontier_simps [simp]:
  "wk_segments (set_connected_frontier_checkpoint w c) = wk_segments w"
  "wk_gaps (set_connected_frontier_checkpoint w c) = wk_gaps w"
  "wk_traversal (set_connected_frontier_checkpoint w c) = wk_traversal w"
  "wk_evidence (set_connected_frontier_checkpoint w c) = wk_evidence w"
  "wk_zones (set_connected_frontier_checkpoint w c) = wk_zones w"
  "target_of (set_connected_frontier_checkpoint w c) = target_of w"
  by (simp_all add: set_connected_frontier_checkpoint_def target_of_def)

text \<open>Zone records depend on the Zones, the evidence and the indexes alone.\<close>

definition same_records :: "working_catalog \<Rightarrow> working_catalog \<Rightarrow> bool" where
  "same_records w w' \<longleftrightarrow> wk_zones w' = wk_zones w \<and> wk_evidence w' = wk_evidence w
     \<and> wk_latest_primary w' = wk_latest_primary w \<and> wk_latest_configuration w' = wk_latest_configuration w"

lemma zones_hold_same: "same_records w w' \<Longrightarrow> zones_hold T w' \<longleftrightarrow> zones_hold T w"
  by (simp add: same_records_def zones_hold_def indexes_exact_def zone_exact_def)

lemma same_records_connected [simp]: "same_records w (set_connected_frontier_checkpoint w' c) \<longleftrightarrow> same_records w w'"
  by (simp add: same_records_def set_connected_frontier_checkpoint_def)

lemma update_segment_Ok:
  "update_segment w i e f = Ok w' \<longleftrightarrow> (\<exists>g. bt_get (wk_segments w) i = Some g
     \<and> w' = w\<lparr>wk_segments := bt_insert i (f g) (wk_segments w)\<rparr>)"
  by (auto simp: update_segment_def ok_simps)

lemma set_ingestion_cursor_Ok:
  "set_ingestion_cursor w c = Ok w' \<longleftrightarrow> (\<exists>t. wk_traversal w = Some t
     \<and> w' = w\<lparr>wk_traversal := Some (t\<lparr>tr_ingestion_cursor := Some c\<rparr>)\<rparr>)"
  by (auto simp: set_ingestion_cursor_def ok_simps)

lemma update_frontier_Ok:
  "update_frontier w e f = Ok w' \<longleftrightarrow> (\<exists>x. wk_frontier w = Some x \<and> w' = w\<lparr>wk_frontier := Some (f x)\<rparr>)"
  by (auto simp: update_frontier_def ok_simps)

lemma advance_last:
  assumes z: "zones_hold {} w" and ev: "evidence_values w = run_evidence ext (ps @ [(i, cs)])"
    and seg: "keyed_map sg_segment_id (wk_segments w)" "bt_get (wk_segments w) i = Some g"
      "{g \<in> set (bt_values (wk_segments w)). sg_segment_id g \<noteq> i} = run_segment (Some t) ` set ps"
      "sg_floor g = floor_of (cs @ bs)"
    and t: "target_of w = Some t" and bs: "bs \<noteq> []"
    and runs: "good_runs U (ps @ [(i, cs @ bs)])" "distinct (map fst (ps @ [(i, cs @ bs)]))" "joined (ps @ [(i, cs @ bs)]) gs"
      "distinct (map gp_gap_id gs)" "keyed_map gp_gap_id (wk_gaps w)" "set (bt_values (wk_gaps w)) = set gs" "\<forall>g \<in> set gs. gap_named ext U g"
    and fr: "frontier_ok (ps @ [(i, cs @ bs)])
      (wk_frontier (if wk_gaps w = [] then set_connected_frontier_checkpoint w (top_of bs) else w))"
    and w1: "ingest_blocks ext w bs i ctx = Ok w1"
    and w2: "update_segment w1 i e (\<lambda>g. g\<lparr>sg_frontier := top_reference bs,
      sg_reaches_target_lib := (top_reference bs = t)\<rparr>) = Ok w2"
    and w3: "set_ingestion_cursor w2 (top_reference bs) = Ok w3"
  shows "covers ext U (ps @ [(i, cs @ bs)]) gs (if wk_gaps w3 = [] then set_connected_frontier_checkpoint w3 (top_of bs) else w3)"
    (is "covers _ _ ?rs _ ?w")
proof -
  note ke = zones_holdD(2)[OF z] and i1 = ingest_blocks_evidence[OF w1 zones_holdD(2)[OF z]]
  have same: "wk_segments w1 = wk_segments w" "wk_gaps w1 = wk_gaps w" "wk_frontier w1 = wk_frontier w"
    "wk_traversal w1 = wk_traversal w" using i1(3) by (simp_all add: same_coverage_def)
  let ?g = "run_segment (Some t) (i, cs @ bs)"
  have id: "sg_segment_id g = i" by (rule keyed_get[OF seg(1,2)])
  have "g\<lparr>sg_frontier := top_reference bs, sg_reaches_target_lib := (top_reference bs = t)\<rparr> = ?g"
    using seg(4) id bs by (cases g)(simp add: run_segment_def)
  then have w2': "w2 = w1\<lparr>wk_segments := bt_insert i ?g (wk_segments w)\<rparr>"
    using w2 seg(2) by (auto simp: update_segment_Ok same)
  obtain tr where tr: "wk_traversal w = Some tr" "w3 = w2\<lparr>wk_traversal := Some (tr\<lparr>tr_ingestion_cursor := Some (top_reference bs)\<rparr>)\<rparr>"
    using w3 by (auto simp: set_ingestion_cursor_Ok w2' same)
  have "same_records w1 w3" by (simp add: same_records_def tr w2')
  then have rec: "same_records w1 ?w" by simp
  have tgt: "target_of ?w = Some t" using t by (simp add: target_of_def tr w2')
  have segs: "wk_segments ?w = bt_insert i ?g (wk_segments w)" "wk_gaps ?w = wk_gaps w" by (simp_all add: tr w2' same)
  show ?thesis
  proof (rule coversI[OF runs(1-4)])
    show "keyed_map sg_segment_id (wk_segments ?w)" unfolding segs by (rule keyed_insert[OF seg(1)]) simp
    have "set (bt_values (bt_insert (sg_segment_id ?g) ?g (wk_segments w))) = insert ?g (run_segment (Some t) ` set ps)"
      unfolding keyed_values_insert[OF seg(1)] seg(3)[symmetric] by simp
    then show "set (bt_values (wk_segments ?w)) = run_segment (target_of ?w) ` set ?rs" unfolding segs tgt by simp
    show "keyed_map gp_gap_id (wk_gaps ?w)" "set (bt_values (wk_gaps ?w)) = set gs" unfolding segs by (fact runs)+
    show "zones_hold {} ?w" unfolding zones_hold_same[OF rec] by (rule ingest_blocks_zones[OF w1 z])
    have "evidence_values ?w = evidence_values w1" using rec by (simp add: same_records_def)
    then show "evidence_values ?w = run_evidence ext ?rs" unfolding i1(2) ev by simp blast
    show "ingestion_cursor (wk_traversal ?w) = (if ?rs = [] then None else Some (top_reference (snd (last ?rs))))"
      using bs by (simp add: tr)
    show "frontier_ok ?rs (wk_frontier ?w)" 
      using fr by (cases "wk_gaps w = []") (simp_all add: tr w2' same set_connected_frontier_checkpoint_def)
  qed (use runs(7) in \<open>simp_all add: tgt\<close>)
qed

lemma frontier_ok_extend:
  assumes "frontier_ok (rs0 @ [r]) (wk_frontier w)" "good_run U (snd r)" "bs \<noteq> []" "rs0 = [] \<longleftrightarrow> wk_gaps w = []"
  shows "frontier_ok (rs0 @ [(fst r, snd r @ bs)])
    (wk_frontier (if wk_gaps w = [] then set_connected_frontier_checkpoint w (top_of bs) else w))"
  using assms good_runD(1)[OF assms(2)]
  by (cases rs0) (auto simp: frontier_ok_def set_connected_frontier_checkpoint_def)

lemma apply_connected_covered:
  assumes c: "covered ext U rs gs s" and bs: "good_run U (map le_block events)"
    and connected: "if rs = [] then cp_slot (floor_of (map le_block events)) = 0
      else links (top_of (snd (last rs))) (floor_of (map le_block events))"
    and b: "apply_connected_events ext s events ctx = Ok b" and s': "commit_snapshot s b = Ok s'"
  shows "covered ext U (extend_last rs (map le_block events)) gs s'"
proof -
  let ?bs = "map le_block events" and ?w = "from_snapshot s"
  note d = coveredD[OF c] and cv = coversD[OF coveredD(2)[OF c]]
  have ne: "events \<noteq> []" "?bs \<noteq> []" using good_runD(1)[OF bs] by auto
  have ends: "event_checkpoint (hd events) = floor_of ?bs" "event_checkpoint (last events) = top_of ?bs"
    using ne by (simp_all add: floor_of_def top_of_def hd_map last_map)
  obtain t w i w1 w2 w3 where t: "target_of ?w = Some t"
    and w: "case ingestion_cursor (wk_traversal ?w) of Some c \<Rightarrow> active_segment_id_in_working ?w c = Ok i \<and> w = ?w
      | None \<Rightarrow> open_initial_segment ?w (floor_of ?bs) = Ok (w, i)"
    and w1: "ingest_blocks ext w ?bs i ctx = Ok w1"
    and w2: "update_segment w1 i (InvalidState (InPage (ActiveSegmentMissing i))) (\<lambda>g. g\<lparr>sg_frontier := top_reference ?bs,
      sg_reaches_target_lib := (top_reference ?bs = t)\<rparr>) = Ok w2"
    and w3: "set_ingestion_cursor w2 (top_reference ?bs) = Ok w3"
    and fin: "finish_batch (if wk_gaps w3 = [] then set_connected_frontier_checkpoint w3 (top_of ?bs) else w3) s ctx
      (InvalidState (InPage PageNoChange)) = Ok b"
    using b ne unfolding apply_connected_events_def ends Let_def top_reference_def[symmetric]
    by (auto simp: and_then_Ok current_target_def target_of_def from_snapshot_simps ok_simps split: option.splits)
  have "covers ext U (extend_last rs ?bs) gs (if wk_gaps w3 = [] then set_connected_frontier_checkpoint w3 (top_of ?bs) else w3)"
  proof (cases "rs = []")
    case True
    have gs: "gs = []" using cv(3) True by simp
    have nil: "wk_segments ?w = []" "wk_gaps ?w = []" "evidence_values ?w = {}"
      using True gs d(6,7) cv(12) by (simp_all add: from_snapshot_simps records_by_key_def)
    have cur: "ingestion_cursor (wk_traversal ?w) = None" using cv(9) True by simp
    have i: "i = segment_id_for_floor (floor_of ?bs)" and w': "\<exists>f. wk_frontier ?w = Some f
      \<and> w = ?w\<lparr>wk_segments := [(i, \<lparr>sg_segment_id = i, sg_floor = floor_of ?bs,
        sg_frontier = block_reference_of (floor_of ?bs), sg_reaches_target_lib = False\<rparr>)],
        wk_frontier := Some (f\<lparr>fr_coverage_floor := Some 0, fr_prefix_status := PrefixComplete\<rparr>)\<rparr>"
      using w by (auto simp: cur open_initial_segment_def Let_def nil and_then_Ok update_frontier_Ok split: if_splits)
    then obtain f where f: "wk_frontier ?w = Some f"
      "w = ?w\<lparr>wk_segments := [(i, \<lparr>sg_segment_id = i, sg_floor = floor_of ?bs,
        sg_frontier = block_reference_of (floor_of ?bs), sg_reaches_target_lib = False\<rparr>)],
        wk_frontier := Some (f\<lparr>fr_coverage_floor := Some 0, fr_prefix_status := PrefixComplete\<rparr>)\<rparr>" by blast
    have z: "zones_hold {} w" using cv(13) by (subst zones_hold_same[of ?w]) (simp_all add: same_records_def f(2))
    show ?thesis
      unfolding extend_last_def True i[symmetric]
    proof (simp only: simp_thms if_True, rule advance_last[where ps = "[]" and cs = "[]" and t = t,
        unfolded append_Nil, OF z _ _ _ _ _ _ ne(2) _ _ _ _ _ _ _ _ w1 w2 w3])
      show "bt_get (wk_segments w) i = Some \<lparr>sg_segment_id = i, sg_floor = floor_of ?bs,
        sg_frontier = block_reference_of (floor_of ?bs), sg_reaches_target_lib = False\<rparr>"
        by (simp add: f(2) bt_get_def)
      show "frontier_ok [(i, ?bs)] (wk_frontier (if wk_gaps w = [] then set_connected_frontier_checkpoint w (top_of ?bs) else w))"
        using connected True by (simp add: f(2) nil frontier_ok_def set_connected_frontier_checkpoint_def)
    qed (use bs t nil in \<open>simp_all add: f(2) gs target_of_def keyed_map_def bt_values_def\<close>)
  next
    case False
    then obtain rs0 r where rs: "rs = rs0 @ [r]" by (cases rs rule: rev_cases) auto
    obtain cursor where cur: "ingestion_cursor (wk_traversal ?w) = Some cursor" using cv(9) False by auto
    have i: "active_segment_id_in_working ?w cursor = Ok i" "w = ?w" using w by (simp_all add: cur)
    have i': "i = fst r" using active_segment_last(3)[OF d(2) cur i(1)] by (simp add: rs)
    have g: "bt_get (wk_segments ?w) i = Some (run_segment (Some t) r)"
      using covers_segment[OF d(2), of r] by (simp add: i' rs t)
    have good: "good_run U (snd r @ ?bs)" using cv(1) connected bs False by (intro good_run_append) (simp_all add: rs)
    have ne_r: "snd r \<noteq> []" using cv(1) good_runD(1) by (auto simp: rs)
    have gaps: "rs0 = [] \<longleftrightarrow> wk_gaps ?w = []"
      using joined_Nil_iff[OF cv(3)] covers_no_gaps[OF d(2)] by (simp add: rs) 
    have others: "{g \<in> set (bt_values (wk_segments ?w)). sg_segment_id g \<noteq> i} = run_segment (Some t) ` set rs0"
      unfolding cv(6) t i' Collect_image run_segment_simps
      using others_by_key[of fst rs0 r "[]"] cv(2) by (simp add: rs)
    have fro: "frontier_ok (rs0 @ [(fst r, snd r @ ?bs)])
      (wk_frontier (if wk_gaps ?w = [] then set_connected_frontier_checkpoint ?w (top_of ?bs) else ?w))"
      by (rule frontier_ok_extend[where U = U, OF _ _ ne(2) gaps]) (use cv(1,11) in \<open>simp_all add: rs\<close>)
    have "covers ext U (rs0 @ [(i, snd r @ ?bs)]) gs
        (if wk_gaps w3 = [] then set_connected_frontier_checkpoint w3 (top_of ?bs) else w3)"
    proof (rule advance_last[OF cv(13) _ cv(5) g others _ t ne(2) _ _ _ cv(4) cv(7) cv(8) cv(14) _ w1[unfolded i(2)] w2 w3])
      show "good_runs U (rs0 @ [(i, snd r @ ?bs)])" using cv(1) good by (auto simp: rs)
      show "joined (rs0 @ [(i, snd r @ ?bs)]) gs"
        by (rule joined_last[where r = r]) (use cv(3) ne_r in \<open>simp_all add: rs i'\<close>)
    qed (use cv(2,12) fro ne_r in \<open>simp_all add: rs i'\<close>)
    then show ?thesis using False by (simp add: extend_last_def rs i')
  qed
  then show ?thesis by (rule finish_batch_covered[OF d(1) _ fin s'])
qed

text \<open>A page that commits directly: the longest connected prefix of its events is appended.\<close>

lemma page_commit_covered:
  assumes c: "covered ext U rs gs s" and ev: "\<forall>e \<in> set events. in_universe U (le_block e)"
    and red: "reduce_catalog_page ext s events ctx = Ok (Commit b remaining)" and s': "commit_snapshot s b = Ok s'"
  shows "\<exists>accepted. events = accepted @ remaining \<and> accepted \<noteq> []
    \<and> covered ext U (extend_last rs (map le_block accepted)) gs s'"
proof -
  note d = coveredD[OF c] and cv = coversD[OF coveredD(2)[OF c]]
  have cur: "ingestion_cursor (cs_traversal s) = (if rs = [] then None else Some (top_reference (snd (last rs))))"
    using cv(9) by (simp add: from_snapshot_simps)
  obtain accepted where ne: "events \<noteq> []" and sp: "split_connected_events events = Ok (accepted, remaining)"
    and ap: "apply_connected_events ext s accepted ctx = Ok b"
    and first: "case ingestion_cursor (cs_traversal s) of
        Some cursor \<Rightarrow> br_slot cursor < cp_slot (event_checkpoint (hd events))
          \<and> cp_parent_id (event_checkpoint (hd events)) = br_block_id cursor
      | None \<Rightarrow> cp_slot (event_checkpoint (hd events)) = 0"
    using red by (auto simp: reduce_catalog_page_def and_then_Ok Let_def split: if_splits option.splits)
  note a = split_connected_events_Ok[OF sp]
  have fl: "floor_of (map le_block accepted) = event_checkpoint (hd events)"
    using a(1,2) by (simp add: floor_of_def hd_map)
  have good: "good_run U (map le_block accepted)"
    using a ev by (auto simp: good_run_def comp_def)
  have "covered ext U (extend_last rs (map le_block accepted)) gs s'"
  proof (rule apply_connected_covered[OF c good _ ap s'])
    show "if rs = [] then cp_slot (floor_of (map le_block accepted)) = 0
      else links (top_of (snd (last rs))) (floor_of (map le_block accepted))"
      using first unfolding cur fl by (auto simp: links_def top_reference_def block_reference_of_def)
  qed
  then show ?thesis using a(1,2) by blast
qed

lemma page_request:
  assumes "reduce_catalog_page ext s events ctx = Ok (RepairRequired r pending)"
  shows "pending = events" "events \<noteq> []" "rq_lower_checkpoint r = ingestion_cursor (cs_traversal s)"
    "rq_upper_checkpoint r = event_checkpoint (hd events)"
    "ingestion_cursor (cs_traversal s) = None \<Longrightarrow> cp_slot (rq_upper_checkpoint r) \<noteq> 0"
  using assms by (auto simp: reduce_catalog_page_def make_repair_request_def and_then_Ok Let_def split: if_splits option.splits)

section \<open>Disconnected pages\<close>

lemma add_run:
  assumes z: "zones_hold {} w" "same_records w w0" and ev: "evidence_values w = run_evidence ext rs"
    and seg: "keyed_map sg_segment_id (wk_segments w)" "set (bt_values (wk_segments w)) = run_segment (Some t) ` set rs"
      "bt_get (wk_segments w) i = None" "wk_segments w0 = bt_insert i (run_segment (Some t) (i, bs)) (wk_segments w)"
    and t: "target_of w0 = Some t"
    and runs: "good_runs U (rs @ [(i, bs)])" "distinct (map fst rs)" "joined (rs @ [(i, bs)]) gs"
      "distinct (map gp_gap_id gs)" "keyed_map gp_gap_id (wk_gaps w0)" "set (bt_values (wk_gaps w0)) = set gs"
      "\<forall>g \<in> set gs. gap_named ext U g"
    and fr: "frontier_ok (rs @ [(i, bs)]) (wk_frontier w0)"
    and w1: "ingest_blocks ext w0 bs i ctx = Ok w1" and w2: "set_ingestion_cursor w1 (top_reference bs) = Ok w2"
  shows "covers ext U (rs @ [(i, bs)]) gs w2"
proof -
  have z0: "zones_hold {} w0" using z zones_hold_same by blast
  note i1 = ingest_blocks_evidence[OF w1 zones_holdD(2)[OF z0]]
  have same: "wk_segments w1 = wk_segments w0" "wk_gaps w1 = wk_gaps w0" "wk_frontier w1 = wk_frontier w0"
    "wk_traversal w1 = wk_traversal w0" using i1(3) by (simp_all add: same_coverage_def)
  obtain tr where tr: "wk_traversal w0 = Some tr" "w2 = w1\<lparr>wk_traversal := Some (tr\<lparr>tr_ingestion_cursor := Some (top_reference bs)\<rparr>)\<rparr>"
    using w2 by (auto simp: set_ingestion_cursor_Ok same)
  have tgt: "target_of w2 = Some t" using t by (simp add: target_of_def tr)
  have fresh: "i \<notin> fst ` set rs"
  proof
    assume "i \<in> fst ` set rs"
    then obtain r where "r \<in> set rs" "i = fst r" by blast
    then have "run_segment (Some t) r \<in> set (bt_values (wk_segments w))" unfolding seg(2) by blast
    then show False unfolding keyed_values[OF seg(1)] using seg(3) \<open>i = fst r\<close> by simp
  qed
  have new: "sg_segment_id (run_segment (Some t) (i, bs)) = i" by simp
  show ?thesis
  proof (rule coversI[OF runs(1) _ runs(3,4)])
    show "distinct (map fst (rs @ [(i, bs)]))" using runs(2) fresh by simp
    show "keyed_map sg_segment_id (wk_segments w2)" using keyed_insert[OF seg(1) new] by (simp add: tr same seg(4))
    have "set (bt_values (wk_segments w0)) = insert (run_segment (Some t) (i, bs)) (run_segment (Some t) ` set rs)"
      using keyed_values_fresh[OF seg(1), of "run_segment (Some t) (i, bs)"] seg(2,3) by (simp add: seg(4))
    then show "set (bt_values (wk_segments w2)) = run_segment (target_of w2) ` set (rs @ [(i, bs)])"
      unfolding tgt by (simp add: tr same)
    have "same_records w1 w2" by (simp add: same_records_def tr)
    then show "zones_hold {} w2" using zones_hold_same ingest_blocks_zones[OF w1 z0] by blast
    have "evidence_values w2 = evidence_values w1" by (simp add: tr)
    then show "evidence_values w2 = run_evidence ext (rs @ [(i, bs)])"
      unfolding i1(2) using ev z(2) by (simp add: same_records_def)
  qed (use runs fr tgt in \<open>simp_all add: tr same\<close>)
qed

text \<open>
  The identifier of a gap is a digest of the two blocks around it. \<open>gap_ids_differ\<close> asks that gaps above
  different blocks have different identifiers, which holds unless the digest collides.
\<close>

definition gap_ids_differ :: "'n externals \<Rightarrow> (string \<Rightarrow> 'n l1_block option) \<Rightarrow> bool" where
  "gap_ids_differ ext U \<longleftrightarrow> (\<forall>b c u v. in_universe U b \<and> in_universe U c \<and> in_universe U u \<and> in_universe U v
     \<and> gap_id_for_boundary ext (block_reference_of (lb_checkpoint b)) (lb_checkpoint u)
       = gap_id_for_boundary ext (block_reference_of (lb_checkpoint c)) (lb_checkpoint v)
     \<longrightarrow> cp_block_id (lb_checkpoint b) = cp_block_id (lb_checkpoint c))"

lemma joined_lower:
  "joined rs gs \<Longrightarrow> g \<in> set gs \<Longrightarrow> \<exists>r \<in> set (butlast rs). gp_lower_checkpoint g = top_reference (snd r)"
  by (induction rs gs rule: joined.induct) (auto simp: joins_def)

lemma new_gap_id:
  assumes c: "covers ext U rs gs w" and ne: "rs \<noteq> []" and ids: "gap_ids_differ ext U" and u: "in_universe U u" and g: "g \<in> set gs"
  shows "gp_gap_id g \<noteq> gap_id_for_boundary ext (top_reference (snd (last rs))) (lb_checkpoint u)"
proof
  assume eq: "gp_gap_id g = gap_id_for_boundary ext (top_reference (snd (last rs))) (lb_checkpoint u)"
  obtain r where r: "r \<in> set (butlast rs)" "gp_lower_checkpoint g = top_reference (snd r)"
    using joined_lower[OF coversD(3)[OF c] g] by blast
  have rs: "rs = butlast rs @ [last rs]" using ne by simp
  then have mem: "r \<in> set rs" "last rs \<in> set rs" using r(1) ne by (auto intro: in_set_butlastD)
  obtain v where v: "in_universe U v" "gp_gap_id g = gap_id_for_boundary ext (top_reference (snd r)) (lb_checkpoint v)"
    using coversD(14)[OF c] g r(2) by (auto simp: gap_named_def)
  obtain a b where ab: "in_universe U a" "lb_checkpoint a = top_of (snd r)" "in_universe U b" "lb_checkpoint b = top_of (snd (last rs))"
    using coversD(1)[OF c] mem top_of_mem good_runD(3) by metis
  have "cp_block_id (top_of (snd r)) = cp_block_id (top_of (snd (last rs)))"
    using ids[unfolded gap_ids_differ_def, rule_format, of a b v u] ab v u eq by (simp add: top_reference_def)
  then have "r = last rs" by (rule runs_same_top[OF covers_sorted[OF c] coversD(1)[OF c] mem])
  moreover have "distinct (butlast rs @ [last rs])" using coversD(2)[OF c] rs by (metis distinct_map)
  ultimately show False using r(1) by simp
qed

lemma set_keyed_gap:
  assumes "keyed_map gp_gap_id m" "set (bt_values m) = set gs" "\<forall>g \<in> set gs. gp_gap_id g \<noteq> gp_gap_id h"
  shows "set (bt_values (bt_insert (gp_gap_id h) h m)) = set (gs @ [h])"
proof -
  have "bt_get m (gp_gap_id h) = None"
  proof (rule ccontr)
    assume "bt_get m (gp_gap_id h) \<noteq> None"
    then obtain g where g: "bt_get m (gp_gap_id h) = Some g" by blast
    then have "gp_gap_id g = gp_gap_id h" by (rule keyed_get[OF assms(1)])
    moreover from this g have "g \<in> set (bt_values m)" unfolding keyed_values[OF assms(1)] by simp
    ultimately show False using assms(2,3) by auto
  qed
  then show ?thesis using keyed_values_fresh[OF assms(1), of h] assms(2) by simp
qed

lemma open_disconnected_covered:
  assumes c: "covered ext U rs gs s" and ev: "\<forall>e \<in> set events. in_universe U (le_block e)" and ids: "gap_ids_differ ext U"
    and above: "if rs = [] then cp_slot (event_checkpoint (hd events)) \<noteq> 0
      else cp_slot (top_of (snd (last rs))) < cp_slot (event_checkpoint (hd events))"
    and red: "open_disconnected_segment ext s events missing reason ctx = Ok (Commit b remaining)"
    and s': "commit_snapshot s b = Ok s'"
  shows "\<exists>accepted gs'. events = accepted @ remaining \<and> accepted \<noteq> []
    \<and> covered ext U (rs @ [(segment_id_for_floor (event_checkpoint (hd events)), map le_block accepted)]) gs' s'"
proof -
  let ?w = "from_snapshot s" and ?first = "event_checkpoint (hd events)"
  let ?i = "segment_id_for_floor ?first"
  note d = coveredD[OF c] and cv = coversD[OF coveredD(2)[OF c]]
  obtain accepted t w0 w1 w2 where sp: "split_connected_events events = Ok (accepted, remaining)"
    and t: "target_of ?w = Some t" and parent: "cp_parent_id (event_checkpoint (hd accepted)) = missing"
    and none: "bt_get (wk_segments ?w) (segment_id_for_floor (event_checkpoint (hd accepted))) = None"
    and w0: "open_gap_or_prefix ext s (?w\<lparr>wk_segments := bt_insert (segment_id_for_floor (event_checkpoint (hd accepted)))
        \<lparr>sg_segment_id = segment_id_for_floor (event_checkpoint (hd accepted)), sg_floor = event_checkpoint (hd accepted),
         sg_frontier = block_reference_of (event_checkpoint (last accepted)),
         sg_reaches_target_lib = (block_reference_of (event_checkpoint (last accepted)) = t)\<rparr> (wk_segments ?w)\<rparr>)
      (event_checkpoint (hd accepted)) (event_checkpoint (last accepted))
      (segment_id_for_floor (event_checkpoint (hd accepted))) missing reason ctx = Ok w0"
    and w1: "ingest_blocks ext w0 (map le_block accepted) (segment_id_for_floor (event_checkpoint (hd accepted))) ctx = Ok w1"
    and w2: "set_ingestion_cursor w1 (block_reference_of (event_checkpoint (last accepted))) = Ok w2"
    and fin: "finish_batch w2 s ctx (InvalidState (InGap DisconnectedNoChange)) = Ok b"
    using red by (auto simp: open_disconnected_segment_def and_then_Ok Let_def current_target_def target_of_def
        from_snapshot_simps(2) ok_simps split: if_splits)
  note a = split_connected_events_Ok[OF sp]
  let ?bs = "map le_block accepted"
  have hd: "hd accepted = hd events" using a(1,2) by simp
  have ends: "floor_of ?bs = ?first" "top_of ?bs = event_checkpoint (last accepted)"
    using a(2) by (simp_all add: floor_of_def top_of_def hd_map last_map hd)
  have good: "good_run U ?bs" using a ev by (auto simp: good_run_def comp_def)
  let ?w' = "?w\<lparr>wk_segments := bt_insert ?i (run_segment (Some t) (?i, ?bs)) (wk_segments ?w)\<rparr>"
  have w0': "open_gap_or_prefix ext s ?w' ?first (top_of ?bs) ?i missing reason ctx = Ok w0"
    using w0 by (simp add: hd run_segment_def ends top_reference_def)
  have w2': "set_ingestion_cursor w1 (top_reference ?bs) = Ok w2" using w2 by (simp add: top_reference_def ends)
  have segs: "set (bt_values (wk_segments ?w)) = run_segment (Some t) ` set rs" using cv(6) t by simp
  have runs: "good_runs U (rs @ [(?i, ?bs)])" using cv(1) good by auto
  note add = add_run[OF cv(13) _ cv(12) cv(5) segs none[unfolded hd] _ _ runs cv(2) _ _ _ _ _ _ w1[unfolded hd] w2']
  have "\<exists>gs'. covers ext U (rs @ [(?i, ?bs)]) gs' w2"
  proof (cases "rs = []")
    case True
    have gs: "gs = []" "wk_gaps ?w = []" using cv(3) True d(6) by (simp_all add: from_snapshot_simps records_by_key_def)
    have "ingestion_cursor (cs_traversal s) = None" using cv(9) True by (simp add: from_snapshot_simps)
    then obtain f where f: "w0 = ?w'\<lparr>wk_frontier := Some (f\<lparr>fr_coverage_floor := Some (cp_slot ?first), fr_prefix_status := PrefixUnavailable,
        fr_scanned_through_slot := Some (cp_slot (top_of ?bs)), fr_checkpoint := Some (top_of ?bs)\<rparr>)\<rparr>"
      using w0' by (auto simp: open_gap_or_prefix_def ok_simps update_frontier_Ok set_connected_frontier_checkpoint_def split: if_splits)
    have "covers ext U (rs @ [(?i, ?bs)]) [] w2"
      by (rule add) (use above True t gs in \<open>simp_all add: f same_records_def target_of_def frontier_ok_def ends keyed_map_def\<close>)
    then show ?thesis by blast
  next
    case False
    then have cur: "ingestion_cursor (cs_traversal s) = Some (top_reference (snd (last rs)))"
      using cv(9) by (simp add: from_snapshot_simps)
    have pair: "butlast rs @ [last rs, q] = rs @ [q]" for q
      using arg_cong[OF append_butlast_last_id[OF False], of "\<lambda>xs. xs @ [q]"] by simp
    obtain g where g: "w0 = ?w'\<lparr>wk_gaps := bt_insert (gp_gap_id g) g (wk_gaps ?w)\<rparr>"
      and jn: "joins (last rs) (?i, ?bs) g" and gid: "gp_gap_id g = gap_id_for_boundary ext (top_reference (snd (last rs))) ?first"
      and low: "gp_lower_checkpoint g = top_reference (snd (last rs))"
    proof -
      let ?g = "\<lambda>j. \<lparr>gp_gap_id = gap_id_for_boundary ext (top_reference (snd (last rs))) ?first, gp_lower_segment_id = j,
           gp_lower_checkpoint = top_reference (snd (last rs)), gp_upper_segment_id = ?i,
           gp_upper_block = block_reference_of ?first, gp_required_parent_id = missing,
           gp_reason = reason, gp_status = GapPending, gp_attempts = 1, gp_first_seen_at_unix = cx_updated_at_unix ctx,
           gp_last_attempt_at_unix = Some (cx_updated_at_unix ctx)\<rparr>"
      obtain j where j: "active_segment_id_in_working ?w' (top_reference (snd (last rs))) = Ok j"
        and eq: "w0 = ?w'\<lparr>wk_gaps := bt_insert (gp_gap_id (?g j)) (?g j) (wk_gaps ?w)\<rparr>"
        using w0' by (auto simp: open_gap_or_prefix_def cur ok_simps Let_def)
      have "run_segment (Some t) (last rs) \<in> set (bt_values (wk_segments ?w'))"
        using keyed_values_fresh[OF cv(5), of "run_segment (Some t) (?i, ?bs)"] none[unfolded hd] segs False by simp
      from active_segment_unique[OF j this] have "j = fst (last rs)" by simp
      with eq show ?thesis using above False parent
        by (intro that[of "?g j"]) (simp_all add: joins_def ends hd)
    qed
    have mem: "hd events \<in> set events" using a(1,2) by simp
    have nm: "\<forall>h \<in> set (gs @ [g]). gap_named ext U h" using cv(14) ev mem gid low by (auto simp: gap_named_def)
    have fresh: "\<forall>h \<in> set gs. gp_gap_id h \<noteq> gp_gap_id g"
      using new_gap_id[OF d(2) False ids, of "le_block (hd events)"] ev mem gid by auto
    have "covers ext U (rs @ [(?i, ?bs)]) (gs @ [g]) w2"
    proof (rule add)
      show "joined (rs @ [(?i, ?bs)]) (gs @ [g])"
        using joined_snoc[of "butlast rs" "last rs" gs, OF _ jn] cv(3) pair False by simp
      show "distinct (map gp_gap_id (gs @ [g]))" using cv(4) fresh by auto
      show "set (bt_values (wk_gaps w0)) = set (gs @ [g])" using set_keyed_gap[OF cv(7,8) fresh] by (simp add: g)
      show "frontier_ok (rs @ [(?i, ?bs)]) (wk_frontier w0)"
        using cv(11) False by (cases rs) (simp_all add: g frontier_ok_def)
    qed (use nm t keyed_map_insert[OF cv(7), of g] in \<open>simp_all add: g same_records_def target_of_def\<close>)
    then show ?thesis by blast
  qed
  then obtain gs' where "covers ext U (rs @ [(?i, ?bs)]) gs' w2" by blast
  then have "covered ext U (rs @ [(?i, ?bs)]) gs' s'" by (rule finish_batch_covered[OF d(1) _ fin s'])
  then show ?thesis using a(1,2) by blast
qed

lemma unresolved_above:
  assumes "validate_unresolved_repair r recovered missing upper = Ok ()"
  defines "first \<equiv> if recovered = [] then upper else lb_checkpoint (hd recovered)"
  shows "upper = rq_upper_checkpoint r" "rq_lower_checkpoint r = Some lower \<Longrightarrow> br_slot lower < cp_slot first"
    "rq_lower_checkpoint r = None \<Longrightarrow> cp_slot upper \<noteq> 0 \<Longrightarrow> cp_slot first \<noteq> 0"
  using assms(1) unfolding first_def validate_unresolved_repair_def
  by (auto simp: ok_simps validate_repair_request_Ok Let_def is_some_and_def split: if_splits)

lemma prepend_blocks:
  "hd (prepend_recovered_events recovered pending chain) = (if recovered = [] then hd pending
     else \<lparr>le_block = hd recovered, le_snapshot = chain\<rparr>)"
  "map le_block (prepend_recovered_events recovered pending chain) = recovered @ map le_block pending"
  by (cases recovered) (simp_all add: prepend_recovered_events_def comp_def)

lemma prepend_universe:
  assumes "\<forall>b \<in> set recovered. in_universe U b" "\<forall>e \<in> set pending. in_universe U (le_block e)"
  shows "\<forall>e \<in> set (prepend_recovered_events recovered pending chain). in_universe U (le_block e)"
  using assms by (auto simp: prepend_recovered_events_def)

lemma repair_commit_covered:
  assumes c: "covered ext U rs gs s"
    and ev: "\<forall>b \<in> set (recovered_blocks outcome). in_universe U b" "\<forall>e \<in> set pending. in_universe U (le_block e)"
    and red: "reduce_catalog_repair ext s r pending outcome ctx = Ok (Commit b remaining)" and s': "commit_snapshot s b = Ok s'"
  shows "\<exists>bs. bs \<noteq> [] \<and> recovered_blocks outcome @ map le_block pending = bs @ map le_block remaining
    \<and> covered ext U (extend_last rs bs) gs s'"
proof -
  obtain recovered chain where o: "outcome = Connected recovered"
    and page: "reduce_catalog_page ext s (prepend_recovered_events recovered pending chain) ctx = Ok (Commit b remaining)"
    using red by (auto simp: reduce_catalog_repair_def ok_simps split: if_splits repair_outcome.splits)
  have u: "\<forall>e \<in> set (prepend_recovered_events recovered pending chain). in_universe U (le_block e)"
    by (rule prepend_universe) (use ev in \<open>simp_all add: o recovered_blocks_def\<close>)
  obtain accepted where a: "prepend_recovered_events recovered pending chain = accepted @ remaining" "accepted \<noteq> []"
    "covered ext U (extend_last rs (map le_block accepted)) gs s'"
    using page_commit_covered[OF c u page s'] by blast
  have "recovered_blocks outcome @ map le_block pending = map le_block accepted @ map le_block remaining"
    using arg_cong[OF a(1), of "map le_block"] by (simp add: prepend_blocks o recovered_blocks_def)
  then show ?thesis using a(2,3) by (intro exI[of _ "map le_block accepted"]) simp
qed

lemma gap_commit_covered:
  assumes c: "covered ext U rs gs s" and ids: "gap_ids_differ ext U"
    and ev: "\<forall>b \<in> set (recovered_blocks outcome). in_universe U b" "\<forall>e \<in> set pending. in_universe U (le_block e)"
    and lower: "rq_lower_checkpoint r = ingestion_cursor (cs_traversal s)"
      "ingestion_cursor (cs_traversal s) = None \<Longrightarrow> cp_slot (rq_upper_checkpoint r) \<noteq> 0"
    and red: "confirm_catalog_repair_gap ext s r pending outcome confirmation ctx = Ok (Commit b remaining)"
    and s': "commit_snapshot s b = Ok s'"
  shows "\<exists>bs gs'. bs \<noteq> [] \<and> recovered_blocks outcome @ map le_block pending = bs @ map le_block remaining
    \<and> covered ext U (rs @ [(segment_id_for_floor (floor_of bs), bs)]) gs' s'"
proof -
  obtain recovered missing reason chain where o: "outcome = Unresolved recovered missing reason"
    and valid: "validate_unresolved_repair r recovered missing (event_checkpoint (hd pending)) = Ok ()"
    and op: "open_disconnected_segment ext s (prepend_recovered_events recovered pending chain) missing reason ctx = Ok (Commit b remaining)"
    using red by (auto simp: confirm_catalog_repair_gap_def ok_simps split: if_splits repair_outcome.splits)
  let ?events = "prepend_recovered_events recovered pending chain"
  have u: "\<forall>e \<in> set ?events. in_universe U (le_block e)"
    by (rule prepend_universe) (use ev in \<open>simp_all add: o recovered_blocks_def\<close>)
  have cur: "ingestion_cursor (cs_traversal s) = (if rs = [] then None else Some (top_reference (snd (last rs))))"
    using coversD(9)[OF coveredD(2)[OF c]] by (simp add: from_snapshot_simps)
  note ab = unresolved_above[OF valid]
  have first: "event_checkpoint (hd ?events) = (if recovered = [] then event_checkpoint (hd pending) else lb_checkpoint (hd recovered))"
    by (simp add: prepend_blocks)
  have above: "if rs = [] then cp_slot (event_checkpoint (hd ?events)) \<noteq> 0
      else cp_slot (top_of (snd (last rs))) < cp_slot (event_checkpoint (hd ?events))"
    using ab(2,3) lower ab(1) unfolding first cur by (simp add: top_reference_def block_reference_of_def split: if_splits)
  obtain accepted gs' where a: "?events = accepted @ remaining" "accepted \<noteq> []"
    "covered ext U (rs @ [(segment_id_for_floor (event_checkpoint (hd ?events)), map le_block accepted)]) gs' s'"
    using open_disconnected_covered[OF c u ids above op s'] by blast
  have eq: "recovered_blocks outcome @ map le_block pending = map le_block accepted @ map le_block remaining"
    using arg_cong[OF a(1), of "map le_block"] by (simp add: prepend_blocks o recovered_blocks_def)
  have "floor_of (map le_block accepted) = event_checkpoint (hd ?events)" using a(1,2) by (simp add: floor_of_def hd_map)
  then show ?thesis using a(2,3) eq by (intro exI[of _ "map le_block accepted"] exI[of _ gs']) simp
qed

end
