(* ===== verification/Coverage_Repairs.thy ===== *)
theory Coverage_Repairs
  imports Coverage_Pages
begin

text \<open>
  The background repairs: the extension of an unavailable prefix, the expansion of a gap's upper run by
  recovered blocks, and the merge of the two runs around a gap that recovered blocks connect.
\<close>

section \<open>Recovered blocks\<close>

lemma connected_links:
  assumes "validate_connected_repair r bs = Ok ()"
  shows "rq_lower_checkpoint r = Some lower \<Longrightarrow> if bs = []
      then cp_parent_id (rq_upper_checkpoint r) = br_block_id lower \<and> br_slot lower < cp_slot (rq_upper_checkpoint r)
      else cp_parent_id (floor_of bs) = br_block_id lower \<and> br_slot lower < cp_slot (floor_of bs)"
    "bs \<noteq> [] \<Longrightarrow> linked (map lb_checkpoint bs) \<and> links (top_of bs) (rq_upper_checkpoint r)"
    "rq_lower_checkpoint r = None \<Longrightarrow> bs \<noteq> [] \<and> cp_slot (floor_of bs) = 0"
  using assms unfolding validate_connected_repair_def floor_of_def top_of_def
  by (auto simp: ok_simps validate_repair_request_Ok Let_def is_some_and_def links_def split: if_splits option.splits)

lemma unresolved_links:
  assumes "validate_unresolved_repair r bs missing (rq_upper_checkpoint r) = Ok ()" "bs \<noteq> []"
  shows "linked (map lb_checkpoint bs)" "links (top_of bs) (rq_upper_checkpoint r)" "cp_parent_id (floor_of bs) = missing"
    "rq_lower_checkpoint r = Some lower \<Longrightarrow> br_slot lower < cp_slot (floor_of bs)"
    "rq_lower_checkpoint r = None \<Longrightarrow> cp_slot (floor_of bs) \<noteq> 0"
  using assms unfolding validate_unresolved_repair_def floor_of_def top_of_def
  by (auto simp: ok_simps validate_repair_request_Ok Let_def is_some_and_def links_def split: if_splits option.splits)

section \<open>Blocks below a run\<close>

lemma joined_middle:
  assumes "joined (xs @ r # ys) gs" "fst q = fst r" "floor_of (snd q) = floor_of (snd r)" "top_of (snd q) = top_of (snd r)"
  shows "joined (xs @ q # ys) gs"
  using assms joined_split joined_last[OF _ assms(2,3)] joined_hd[OF _ assms(2,4)] by metis

lemma prepend_run:
  assumes c: "covers ext U (xs @ r # ys) gs w" and rec: "recovered \<noteq> []" "linked (map lb_checkpoint recovered)"
      "\<forall>b \<in> set recovered. in_universe U b" "links (top_of recovered) (floor_of (snd r))"
    and w1: "ingest_blocks ext w recovered (fst r) ctx = Ok w1" "same_records w1 w2"
    and seg: "wk_segments w2 = bt_insert (fst r) (run_segment (target_of w) (fst r, recovered @ snd r)) (wk_segments w)"
    and tr: "wk_traversal w2 = wk_traversal w"
    and gs': "keyed_map gp_gap_id (wk_gaps w2)" "set (bt_values (wk_gaps w2)) = set gs'" "distinct (map gp_gap_id gs')"
      "joined (xs @ (fst r, recovered @ snd r) # ys) gs'" "\<forall>g \<in> set gs'. gap_named ext U g"
    and fr: "frontier_ok (xs @ (fst r, recovered @ snd r) # ys) (wk_frontier w2)"
  shows "covers ext U (xs @ (fst r, recovered @ snd r) # ys) gs' w2"
proof -
  let ?q = "(fst r, recovered @ snd r)"
  note cv = coversD[OF c]
  have tgt: "target_of w2 = target_of w" by (simp add: target_of_def tr)
  have r: "good_run U (snd r)" using cv(1) by simp
  have good: "good_run U recovered" using rec by (simp add: good_run_def)
  note i1 = ingest_blocks_evidence[OF w1(1) zones_holdD(2)[OF cv(13)]]
  show ?thesis
  proof (rule coversI[OF _ _ gs'(4,3)])
    show "good_runs U (xs @ ?q # ys)" using cv(1) good_run_append[OF good r rec(4)] by auto
    show "distinct (map fst (xs @ ?q # ys))" using cv(2) by simp
    show "keyed_map sg_segment_id (wk_segments w2)" unfolding seg by (rule keyed_insert[OF cv(5)]) simp
    show "set (bt_values (wk_segments w2)) = run_segment (target_of w2) ` set (xs @ ?q # ys)"
      unfolding seg tgt by (rule replace_segment[OF cv(5,6,2)]) simp
    show "zones_hold {} w2" unfolding zones_hold_same[OF w1(2)] by (rule ingest_blocks_zones[OF w1(1) cv(13)])
    have "evidence_values w2 = evidence_values w1" using w1(2) by (simp add: same_records_def)
    then show "evidence_values w2 = run_evidence ext (xs @ ?q # ys)" unfolding i1(2) cv(12) by auto
    show "ingestion_cursor (wk_traversal w2)
        = (if xs @ ?q # ys = [] then None else Some (top_reference (snd (last (xs @ ?q # ys)))))"
      using cv(9) good_runD(1)[OF r] by (simp add: tr)
  qed (use gs' fr cv(10) tgt in simp_all)
qed

section \<open>The prefix\<close>

lemma find_Some: "find P xs = Some x \<Longrightarrow> x \<in> set xs \<and> P x"
  by (auto simp: find_Some_iff)

lemma prefix_request_first:
  assumes c: "covered ext U rs gs s" and r: "catalog_prefix_repair_request s ctx = Ok r"
  shows "\<exists>q ys. rs = q # ys \<and> rq_upper_checkpoint r = floor_of (snd q)" "rq_lower_checkpoint r = None"
    "\<exists>f. cs_frontier s = Some f \<and> fr_prefix_status f = PrefixUnavailable"
proof -
  note d = coveredD[OF c] and cv = coversD[OF coveredD(2)[OF c]]
  obtain f slot g where f: "cs_frontier s = Some f" "fr_prefix_status f = PrefixUnavailable" "fr_coverage_floor f = Some slot"
    and g: "find (\<lambda>g. cp_slot (sg_floor g) = slot) (cs_segments s) = Some g"
    and r': "rq_upper_checkpoint r = sg_floor g" "rq_lower_checkpoint r = None"
    using r by (auto simp: catalog_prefix_repair_request_def ok_simps split: if_splits)
  show "rq_lower_checkpoint r = None" "\<exists>f. cs_frontier s = Some f \<and> fr_prefix_status f = PrefixUnavailable"
    using r' f by simp_all
  obtain q ys where rs: "rs = q # ys" "slot = cp_slot (floor_of (snd q))"
    using cv(11) f by (cases rs) (auto simp: frontier_ok_def from_snapshot_simps)
  obtain p where p: "p \<in> set rs" "g = run_segment (target_of (from_snapshot s)) p" "cp_slot (sg_floor g) = slot"
    using find_Some[OF g] unfolding d(4) by blast
  have "p = q" by (rule runs_same_floor_slot[OF covers_sorted[OF d(2)] cv(1) p(1)]) (use p rs in simp_all)
  then show "\<exists>q ys. rs = q # ys \<and> rq_upper_checkpoint r = floor_of (snd q)" using rs(1) r'(1) p(2) by simp
qed

lemma prefix_repair_covered:
  assumes c: "covered ext U rs gs s" and u: "\<forall>b \<in> set (recovered_blocks outcome). in_universe U b"
    and red: "reduce_catalog_prefix_repair ext s outcome confirmation ctx = Ok (Some b)" and s': "commit_snapshot s b = Ok s'"
  shows "\<exists>q ys. rs = q # ys \<and> recovered_blocks outcome \<noteq> []
    \<and> covered ext U ((fst q, recovered_blocks outcome @ snd q) # ys) gs s'"
proof -
  let ?w = "from_snapshot s" and ?bs = "recovered_blocks outcome"
  note d = coveredD[OF c] and cv = coversD[OF coveredD(2)[OF c]]
  obtain r i e upd w w' where r: "catalog_prefix_repair_request s ctx = Ok r" and valid: "outcome_check r outcome = Ok ()"
    and i: "\<exists>g. find (\<lambda>g. sg_floor g = rq_upper_checkpoint r) (bt_values (wk_segments ?w)) = Some g \<and> sg_segment_id g = i"
    and w: "extend_prefix ext ?w ?bs i e ctx upd = Ok w"
    and upd: "upd = (case outcome of Connected _ \<Rightarrow> (\<lambda>_ f. f\<lparr>fr_coverage_floor := Some 0, fr_prefix_status := PrefixComplete\<rparr>)
      | Unresolved _ _ _ \<Rightarrow> (\<lambda>oldest f. f\<lparr>fr_coverage_floor := Some (cp_slot oldest)\<rparr>))"
    and w': "recompute_coverage w = Ok w'" "into_batch w' s ctx = Ok (Some b)"
    using red unfolding reduce_catalog_prefix_repair_def outcome_check_def recovered_blocks_def
    by (cases outcome) (auto simp: ok_simps Let_def split: if_splits)
  obtain q ys where rs: "rs = q # ys" and up: "rq_upper_checkpoint r = floor_of (snd q)" and low: "rq_lower_checkpoint r = None"
    using prefix_request_first[OF c r] by blast
  obtain f where f: "cs_frontier s = Some f" "fr_prefix_status f = PrefixUnavailable" using prefix_request_first(3)[OF c r] by blast
  have ne: "?bs \<noteq> []" using w by (auto simp: extend_prefix_def)
  have "linked (map lb_checkpoint ?bs) \<and> links (top_of ?bs) (floor_of (snd q))
      \<and> (case outcome of Connected _ \<Rightarrow> cp_slot (floor_of ?bs) = 0 | Unresolved _ _ _ \<Rightarrow> cp_slot (floor_of ?bs) \<noteq> 0)"
    using valid ne connected_links[of r ?bs] unresolved_links[of r ?bs] low up
    by (cases outcome) (simp_all add: outcome_check_def recovered_blocks_def)
  then have rec: "linked (map lb_checkpoint ?bs)" "links (top_of ?bs) (floor_of (snd q))"
    "case outcome of Connected _ \<Rightarrow> cp_slot (floor_of ?bs) = 0 | Unresolved _ _ _ \<Rightarrow> cp_slot (floor_of ?bs) \<noteq> 0" by blast+
  have i': "i = fst q"
  proof -
    obtain g where fg: "find (\<lambda>g. sg_floor g = rq_upper_checkpoint r) (bt_values (wk_segments ?w)) = Some g" "sg_segment_id g = i"
      using i by blast
    have g: "g \<in> set (bt_values (wk_segments ?w))" "sg_floor g = floor_of (snd q)" using find_Some[OF fg(1)] up by simp_all
    obtain p where p: "p \<in> set rs" "g = run_segment (target_of ?w) p" using g(1) unfolding cv(6) by blast
    have "p = q" by (rule runs_same_floor_slot[OF covers_sorted[OF d(2)] cv(1) p(1)]) (use p rs g in simp_all)
    then show ?thesis using p fg(2) by simp
  qed
  obtain w1 where w1: "ingest_blocks ext ?w ?bs (fst q) ctx = Ok w1"
    and weq: "w = w1\<lparr>wk_segments := bt_insert (fst q) (run_segment (target_of ?w) (fst q, ?bs @ snd q)) (wk_segments ?w),
      wk_frontier := Some (upd (floor_of ?bs) f)\<rparr>" and same: "same_coverage ?w w1"
  proof -
    obtain w1 w2 where w1: "ingest_blocks ext ?w ?bs i ctx = Ok w1"
      "update_segment w1 i (InvalidState (InGap PrefixSegmentMissing)) (\<lambda>g. g\<lparr>sg_floor := floor_of ?bs\<rparr>) = Ok w2"
      "update_frontier w2 (InvalidState (InPage FrontierMissing)) (upd (floor_of ?bs)) = Ok w"
      using w by (auto simp: extend_prefix_def floor_of_def ok_simps Let_def split: if_splits)
    have sc: "same_coverage ?w w1" by (rule ingest_blocks_evidence(3)[OF w1(1) zones_holdD(2)[OF cv(13)]])
    have "bt_get (wk_segments ?w) i = Some (run_segment (target_of ?w) q)"
      using covers_segment[OF d(2), of q] by (simp add: i' rs)
    then show ?thesis using that[of w1] w1 sc good_runD(1)[of U "snd q"] cv(1) ne f(1)
      by (auto simp: i' rs update_segment_Ok update_frontier_Ok same_coverage_def run_segment_def from_snapshot_simps)
  qed
  have "covers ext U ([] @ (fst q, ?bs @ snd q) # ys) gs w"
  proof (rule prepend_run[where xs = "[]", OF _ ne rec(1) u rec(2) w1])
    show "covers ext U ([] @ q # ys) gs ?w" using d(2) by (simp add: rs)
    show "same_records w1 w" by (simp add: same_records_def weq)
    show "joined ([] @ (fst q, ?bs @ snd q) # ys) gs"
      using joined_hd[of q ys gs] cv(3) good_runD(1)[of U "snd q"] cv(1) by (simp add: rs)
    show "frontier_ok ([] @ (fst q, ?bs @ snd q) # ys) (wk_frontier w)"
      using cv(11) f rec(3) ne good_runD(1)[of U "snd q"] cv(1)
      by (cases outcome) (auto simp: rs frontier_ok_def from_snapshot_simps weq upd)
  qed (use same cv in \<open>simp_all add: weq same_coverage_def\<close>)
  then have "covered ext U ((fst q, ?bs @ snd q) # ys) gs s'"
    using covered_commit[OF d(1) recompute_coverage_covers[OF _ w'(1)] w'(2) s'] by simp
  then show ?thesis using rs ne by blast
qed

section \<open>Expanding a gap\<close>

lemma replace_gap:
  assumes "keyed_map gp_gap_id m" "set (bt_values m) = set (gs1 @ g # gs2)" "distinct (map gp_gap_id (gs1 @ g # gs2))"
    "gp_gap_id h = gp_gap_id g"
  shows "set (bt_values (bt_insert (gp_gap_id h) h m)) = set (gs1 @ h # gs2)"
proof -
  have "{x \<in> set (gs1 @ g # gs2). gp_gap_id x \<noteq> gp_gap_id g} = set (gs1 @ gs2)" by (rule others_by_key[OF assms(3)])
  then show ?thesis using keyed_values_insert[OF assms(1), of h] unfolding assms(2,4) by simp
qed

lemma covers_gap:
  assumes "covers ext U rs gs w" "bt_get (wk_gaps w) i = Some g"
  shows "g \<in> set gs" "gp_gap_id g = i"
proof -
  show i: "gp_gap_id g = i" by (rule keyed_get[OF coversD(7)[OF assms(1)] assms(2)])
  then have "g \<in> set (bt_values (wk_gaps w))" unfolding keyed_values[OF coversD(7)[OF assms(1)]] using assms(2) by simp
  then show "g \<in> set gs" unfolding coversD(8)[OF assms(1)] .
qed

lemma joined_replace:
  assumes "joined (xs @ [r]) gs1" "joined (q # ys) gs2" "joins r q' g" "fst q' = fst q" "top_of (snd q') = top_of (snd q)"
  shows "joined (xs @ r # q' # ys) (gs1 @ g # gs2)"
proof -
  have "joined (r # q' # ys) (g # gs2)" using joined_hd[OF assms(2,4,5)] assms(3) by simp
  then show ?thesis using joined_split[of xs r "q' # ys"] assms(1) by blast
qed

lemma expand_gap_covers:
  assumes c: "covers ext U (xs @ r # q # ys) (gs1 @ g # gs2) w"
    and g: "joins r q g" "joined (xs @ [r]) gs1" "joined (q # ys) gs2" and u: "\<forall>b \<in> set recovered. in_universe U b"
    and rq: "rq_lower_checkpoint rq = Some (gp_lower_checkpoint g)" "rq_upper_checkpoint rq = floor_of (snd q)"
    and valid: "validate_unresolved_repair rq recovered missing (floor_of (snd q)) = Ok ()"
    and w': "expand_gap ext w g (run_segment (target_of w) q) recovered missing reason ctx = Ok w'"
  shows "\<exists>g'. gp_gap_id g' = gp_gap_id g \<and> covers ext U (xs @ r # (fst q, recovered @ snd q) # ys) (gs1 @ g' # gs2) w'"
proof -
  note cv = coversD[OF c]
  have qne: "snd q \<noteq> []" using cv(1) good_runD(1) by auto
  obtain n where n: "checked_add (gp_attempts g) 1 = Some n"
    using w' by (auto simp: expand_gap_def ok_simps)
  let ?g = "g\<lparr>gp_attempts := n, gp_last_attempt_at_unix := Some (cx_updated_at_unix ctx), gp_status := GapBackoff, gp_reason := reason\<rparr>"
  have ids: "distinct (map gp_gap_id (gs1 @ h # gs2))" if "gp_gap_id h = gp_gap_id g" for h using cv(4) that by simp
  have named: "\<forall>x \<in> set (gs1 @ h # gs2). gap_named ext U x"
    if "gp_gap_id h = gp_gap_id g" "gp_lower_checkpoint h = gp_lower_checkpoint g" for h
    using cv(14) that by (auto simp: gap_named_def)
  show ?thesis
  proof (cases "recovered = []")
    case True
    then have w'': "w' = w\<lparr>wk_gaps := bt_insert (gp_gap_id ?g) ?g (wk_gaps w)\<rparr>"
      using w' n by (auto simp: expand_gap_def Let_def ok_simps)
    have rec: "same_records w w'" "target_of w' = target_of w" by (simp_all add: same_records_def w'' target_of_def)
    have j: "joined (xs @ r # q # ys) (gs1 @ ?g # gs2)"
      by (rule joined_replace[OF g(2,3)]) (use g(1) in \<open>simp_all add: joins_def\<close>)
    have "covers ext U (xs @ r # q # ys) (gs1 @ ?g # gs2) w'"
    proof (rule coversI[OF cv(1,2) j ids])
      show "keyed_map gp_gap_id (wk_gaps w')" "set (bt_values (wk_gaps w')) = set (gs1 @ ?g # gs2)"
        using keyed_map_insert[OF cv(7), of ?g] replace_gap[OF cv(7,8,4), of ?g] by (simp_all add: w'')
      show "zones_hold {} w'" using zones_hold_same[OF rec(1)] cv(13) by blast
    qed (use cv(5,6,9-12) named[of ?g] in \<open>simp_all add: w'' target_of_def\<close>)
    then show ?thesis using True by (intro exI[of _ ?g]) simp
  next
    case False
    let ?h = "?g\<lparr>gp_upper_block := block_reference_of (floor_of recovered), gp_required_parent_id := missing\<rparr>"
    obtain w1 where w1: "ingest_blocks ext w recovered (fst q) ctx = Ok w1"
      and w'': "w' = w1\<lparr>wk_segments := bt_insert (fst q) (run_segment (target_of w) (fst q, recovered @ snd q)) (wk_segments w),
        wk_gaps := bt_insert (gp_gap_id ?h) ?h (wk_gaps w)\<rparr>" and same: "same_coverage w w1"
    proof -
      obtain w1 where w1: "ingest_blocks ext w recovered (fst q) ctx = Ok w1"
        "w' = w1\<lparr>wk_segments := bt_insert (fst q) ((run_segment (target_of w) q)\<lparr>sg_floor := floor_of recovered\<rparr>) (wk_segments w1),
          wk_gaps := bt_insert (gp_gap_id ?h) ?h (wk_gaps w1)\<rparr>"
        using w' n False by (auto simp: expand_gap_def Let_def floor_of_def ok_simps)
      have "same_coverage w w1" by (rule ingest_blocks_evidence(3)[OF w1(1) zones_holdD(2)[OF cv(13)]])
      then show ?thesis using that[OF w1(1)] w1(2) False qne by (simp add: same_coverage_def run_segment_def)
    qed
    note v = unresolved_links[OF valid[folded rq(2)] False]
    have j: "joins r (fst q, recovered @ snd q) ?h"
      using g(1) v(3) v(4)[OF rq(1)] False by (simp add: joins_def top_reference_def block_reference_of_def)
    have jd: "joined (xs @ r # (fst q, recovered @ snd q) # ys) (gs1 @ ?h # gs2)"
      by (rule joined_replace[OF g(2,3) j]) (use qne in simp_all)
    have "covers ext U ((xs @ [r]) @ (fst q, recovered @ snd q) # ys) (gs1 @ ?h # gs2) w'"
    proof (rule prepend_run[OF _ False v(1) u _ w1])
      show "covers ext U ((xs @ [r]) @ q # ys) (gs1 @ g # gs2) w" using c by simp
      show "links (top_of recovered) (floor_of (snd q))" using v(2) rq(2) by simp
      show "same_records w1 w'" by (simp add: same_records_def w'')
      show "keyed_map gp_gap_id (wk_gaps w')" "set (bt_values (wk_gaps w')) = set (gs1 @ ?h # gs2)"
        using keyed_map_insert[OF cv(7), of ?h] replace_gap[OF cv(7,8,4), of ?h] by (simp_all add: w'')
      show "frontier_ok ((xs @ [r]) @ (fst q, recovered @ snd q) # ys) (wk_frontier w')"
        using cv(11) same by (cases xs) (simp_all add: frontier_ok_def w'' same_coverage_def)
    qed (use jd ids[of ?h] named[of ?h] same in \<open>simp_all add: w'' same_coverage_def\<close>)
    then show ?thesis by (intro exI[of _ ?h]) simp
  qed
qed

section \<open>Merging two runs\<close>

lemma keyed_remove:
  assumes "keyed_map key m"
  shows "keyed_map key (bt_remove k m)" "set (bt_values (bt_remove k m)) = {x \<in> set (bt_values m). key x \<noteq> k}"
proof -
  show "keyed_map key (bt_remove k m)"
    using assms bt_remove_sorted[OF keyed_mapD(1)[OF assms]] by (auto simp: keyed_map_def bt_remove_def)
  show "set (bt_values (bt_remove k m)) = {x \<in> set (bt_values m). key x \<noteq> k}"
    using keyed_mapD(2)[OF assms] by (force simp: bt_remove_def bt_values_def)
qed

lemma redirect_gap_simps [simp]:
  "gp_gap_id (redirect_gap i j g) = gp_gap_id g" "gp_lower_checkpoint (redirect_gap i j g) = gp_lower_checkpoint g"
  by (simp_all add: redirect_gap_def Let_def)

lemma redirect_gap_other: "gp_lower_segment_id g \<noteq> i \<Longrightarrow> gp_upper_segment_id g \<noteq> i \<Longrightarrow> redirect_gap i j g = g"
  by (simp add: redirect_gap_def)

lemma redirect_gap_unused:
  assumes "joined rs gs" "i \<notin> fst ` set rs"
  shows "map (redirect_gap i j) gs = gs"
proof (rule map_idI)
  fix g
  assume g: "g \<in> set gs"
  have "gp_lower_segment_id g \<noteq> i" using joined_ids(1)[OF assms(1) g] assms(2) by auto
  moreover have "gp_upper_segment_id g \<noteq> i"
    using joined_ids(2)[OF assms(1) g] assms(2) by (cases rs) auto
  ultimately show "redirect_gap i j g = g" by (rule redirect_gap_other)
qed

lemma redirect_joined:
  assumes j: "joined (q # ys) gs" and q: "fst q \<notin> fst ` set ys" and n: "top_of (snd n) = top_of (snd q)"
  shows "joined (n # ys) (map (redirect_gap (fst q) (fst n)) gs)"
proof (cases ys)
  case Nil
  then show ?thesis using j by simp
next
  case (Cons y zs)
  then obtain g gs' where g: "gs = g # gs'" "joins q y g" "joined ys gs'" using j by (auto simp: joined_Cons[of q])
  have "joins n y (redirect_gap (fst q) (fst n) g)"
    using g(2) n q by (auto simp: joins_def redirect_gap_def Let_def Cons top_reference_def)
  then show ?thesis using g redirect_gap_unused[OF g(3) q] by (simp add: Cons)
qed

lemma merge_evidence:
  assumes "distinct (map fst (xs @ r # q # ys))"
  shows "reassign_reference (fst q) (fst r) ` run_evidence ext (xs @ r # q # ys)
    = run_evidence ext (xs @ (fst r, snd r @ snd q) # ys)"
proof -
  have "fst q \<notin> fst ` set xs" "fst q \<notin> fst ` set [r]" "fst q \<notin> fst ` set ys" using assms by auto
  note others = this[THEN reassign_others, where j = "fst r" and ext = ext]
  have "xs @ r # q # ys = xs @ [r] @ [q] @ ys" by simp
  then have "reassign_reference (fst q) (fst r) ` run_evidence ext (xs @ r # q # ys)
      = run_evidence ext xs \<union> run_evidence ext [r] \<union> reassign_reference (fst q) (fst r) ` run_evidence ext [q] \<union> run_evidence ext ys"
    by (simp only: run_evidence_simps(3) image_Un others Un_assoc)
  also have "reassign_reference (fst q) (fst r) ` run_evidence ext [q] = (\<Union>b \<in> set (snd q). set (block_references ext (fst r) b))"
    by (simp add: reassign_run)
  finally show ?thesis by auto
qed

lemma merge_links:
  assumes good: "good_run U (snd r)" "good_run U (snd q)" and u: "\<forall>b \<in> set bs. in_universe U b"
    and rq: "rq_lower_checkpoint rq = Some (top_reference (snd r))" "rq_upper_checkpoint rq = floor_of (snd q)"
    and valid: "validate_connected_repair rq bs = Ok ()"
  shows "good_run U (snd r @ bs @ snd q)"
proof (cases "bs = []")
  case True
  then have "links (top_of (snd r)) (floor_of (snd q))"
    using connected_links(1)[OF valid rq(1)] rq(2) by (simp add: links_def top_reference_def block_reference_of_def)
  then show ?thesis using good_run_append[OF good] True by simp
next
  case False
  have v: "linked (map lb_checkpoint bs)" "links (top_of bs) (floor_of (snd q))"
    using connected_links(2)[OF valid False] rq(2) by simp_all
  have bs: "good_run U bs" using False v(1) u by (simp add: good_run_def)
  have "links (top_of (snd r)) (floor_of bs)"
    using connected_links(1)[OF valid rq(1)] False by (simp add: links_def top_reference_def block_reference_of_def)
  then have "good_run U (snd r @ bs)" by (rule good_run_append[OF good(1) bs])
  moreover have "links (top_of (snd r @ bs)) (floor_of (snd q))" using v(2) False by simp
  ultimately have "good_run U ((snd r @ bs) @ snd q)" using good_run_append[of U "snd r @ bs"] good(2) by blast
  then show ?thesis by simp
qed

lemma merge_gap_covers:
  assumes c: "covers ext U (xs @ r # q # ys) (gs1 @ g # gs2) w"
    and g: "joins r q g" "joined (xs @ [r]) gs1" "joined (q # ys) gs2" and u: "\<forall>b \<in> set recovered. in_universe U b"
    and rq: "rq_lower_checkpoint rq = Some (gp_lower_checkpoint g)" "rq_upper_checkpoint rq = floor_of (snd q)"
    and valid: "validate_connected_repair rq recovered = Ok ()" and conf: "confirmed = top_of (snd q)"
    and w': "merge_gap ext w g (run_segment (target_of w) r) (run_segment (target_of w) q) recovered confirmed ctx = Ok w'"
  shows "covers ext U (xs @ (fst r, snd r @ recovered @ snd q) # ys) (gs1 @ map (redirect_gap (fst q) (fst r)) gs2) w'"
proof -
  let ?n = "(fst r, snd r @ recovered @ snd q)" and ?red = "redirect_gap (fst q) (fst r)" and ?t = "target_of w"
  note cv = coversD[OF c]
  have lo: "gp_lower_checkpoint g = top_reference (snd r)" using g(1) by (simp add: joins_def)
  have good: "good_run U (snd r)" "good_run U (snd q)" using cv(1) by auto
  have ne: "snd r \<noteq> []" "snd q \<noteq> []" using good good_runD(1) by blast+
  have gn: "good_run U (snd r @ recovered @ snd q)" by (rule merge_links[OF good u rq(1)[unfolded lo] rq(2) valid])
  obtain w1 w2 where w1: "reassign_segment w (fst q) (fst r) ctx = Ok w1" and w2: "ingest_blocks ext w1 recovered (fst r) ctx = Ok w2"
    and w3: "let w3 = w2\<lparr>wk_segments := bt_remove (fst q) (bt_insert (fst r) \<lparr>sg_segment_id = fst r,
          sg_floor = floor_of (snd r), sg_frontier = top_reference (snd q),
          sg_reaches_target_lib = (Some (top_reference (snd q)) = ?t)\<rparr> (wk_segments w2)),
        wk_gaps := bt_map_values ?red (bt_remove (gp_gap_id g) (wk_gaps w2))\<rparr>
      in w' = (if is_some_and (Option.bind (wk_frontier w3) fr_checkpoint) (\<lambda>c. cp_block_id c = br_block_id (gp_lower_checkpoint g))
               then set_connected_frontier_checkpoint w3 confirmed else w3)"
    using w' by (auto simp: merge_gap_def Let_def ok_simps)
  note r1 = reassign_segment_zones[OF w1 cv(13)]
  note i2 = ingest_blocks_evidence[OF w2 zones_holdD(2)[OF r1(1)]]
  have sc: "wk_segments w2 = wk_segments w" "wk_gaps w2 = wk_gaps w" "wk_frontier w2 = wk_frontier w" "wk_traversal w2 = wk_traversal w"
    using same_coverage_trans[OF r1(3) i2(3)] by (simp_all add: same_coverage_def)
  have seg: "\<lparr>sg_segment_id = fst r, sg_floor = floor_of (snd r), sg_frontier = top_reference (snd q),
      sg_reaches_target_lib = (Some (top_reference (snd q)) = ?t)\<rparr> = run_segment ?t ?n"
    using ne by (simp add: run_segment_def)
  let ?segs = "bt_remove (fst q) (bt_insert (fst r) (run_segment ?t ?n) (wk_segments w))"
  let ?gaps = "bt_map_values ?red (bt_remove (gp_gap_id g) (wk_gaps w))"
  let ?w3 = "w2\<lparr>wk_segments := ?segs, wk_gaps := ?gaps\<rparr>"
  have w'': "w' = (if is_some_and (Option.bind (wk_frontier w) fr_checkpoint) (\<lambda>c. cp_block_id c = cp_block_id (top_of (snd r)))
               then set_connected_frontier_checkpoint ?w3 confirmed else ?w3)"
    using w3 unfolding Let_def seg by (simp add: sc lo top_reference_def block_reference_of_def)
  have same: "wk_segments w' = ?segs" "wk_gaps w' = ?gaps" "wk_traversal w' = wk_traversal w" "same_records w2 w'"
    unfolding w'' by (simp_all add: same_records_def set_connected_frontier_checkpoint_def sc)
  have tgt: "target_of w' = ?t" by (simp add: target_of_def same)
  have fq: "fst q \<notin> fst ` set (xs @ [r])" "fst q \<notin> fst ` set ys" using cv(2) by auto
  have dn: "distinct (map fst (xs @ ?n # q # ys))" "distinct (map fst (xs @ ?n # ys))" using cv(2) by auto
  show ?thesis
  proof (rule coversI)
    show "good_runs U (xs @ ?n # ys)" using cv(1) gn by auto
    show "distinct (map fst (xs @ ?n # ys))" by (rule dn(2))
    have "joined (xs @ [?n]) gs1" by (rule joined_last[OF g(2)]) (use ne in simp_all)
    moreover have "joined (?n # ys) (map ?red gs2)"
      using redirect_joined[OF g(3) fq(2), of ?n] ne by simp
    ultimately show "joined (xs @ ?n # ys) (gs1 @ map ?red gs2)" unfolding joined_split[of xs ?n ys] by blast
    show "distinct (map gp_gap_id (gs1 @ map ?red gs2))" using cv(4) by (simp add: comp_def)
    have ki: "keyed_map sg_segment_id (bt_insert (fst r) (run_segment ?t ?n) (wk_segments w))"
      by (rule keyed_insert[OF cv(5)]) simp
    show "keyed_map sg_segment_id (wk_segments w')" unfolding same by (rule keyed_remove(1)[OF ki])
    have "set (bt_values (bt_insert (fst r) (run_segment ?t ?n) (wk_segments w))) = run_segment ?t ` set (xs @ ?n # q # ys)"
      by (rule replace_segment[OF cv(5,6,2)]) simp
    then have "set (bt_values ?segs) = run_segment ?t ` {x \<in> set (xs @ ?n # q # ys). fst x \<noteq> fst q}"
      unfolding keyed_remove(2)[OF ki] by (simp only: Collect_image run_segment_simps)
    also have "{x \<in> set (xs @ ?n # q # ys). fst x \<noteq> fst q} = set (xs @ ?n # ys)"
      using others_by_key[of fst "xs @ [?n]" q ys] dn(1) by simp
    finally show "set (bt_values (wk_segments w')) = run_segment (target_of w') ` set (xs @ ?n # ys)" unfolding same tgt .
    show "keyed_map gp_gap_id (wk_gaps w')"
      unfolding same by (rule keyed_map_values[OF keyed_remove(1)[OF cv(7)]]) simp
    have "{x \<in> set (gs1 @ g # gs2). gp_gap_id x \<noteq> gp_gap_id g} = set (gs1 @ gs2)" by (rule others_by_key[OF cv(4)])
    then have "set (bt_values ?gaps) = ?red ` set (gs1 @ gs2)" using keyed_remove(2)[OF cv(7), of "gp_gap_id g"] cv(8) by simp
    also have "\<dots> = set (map ?red gs1 @ map ?red gs2)" by (simp add: image_Un)
    finally show "set (bt_values (wk_gaps w')) = set (gs1 @ map ?red gs2)"
      unfolding same redirect_gap_unused[OF g(2) fq(1)] .
    show "zones_hold {} w'" unfolding zones_hold_same[OF same(4)] by (rule ingest_blocks_zones[OF w2 r1(1)])
    have "evidence_values w' = evidence_values w2" using same(4) by (simp add: same_records_def)
    also have "\<dots> = run_evidence ext (xs @ ?n # ys)"
      unfolding i2(2) r1(2) cv(12) merge_evidence[OF cv(2)] by auto
    finally show "evidence_values w' = run_evidence ext (xs @ ?n # ys)" .
    show "ingestion_cursor (wk_traversal w') = (if xs @ ?n # ys = [] then None else Some (top_reference (snd (last (xs @ ?n # ys)))))"
      using cv(9) ne by (simp add: same)
    show "target_of w' \<noteq> None" using cv(10) tgt by simp
    show "\<forall>x \<in> set (gs1 @ map ?red gs2). gap_named ext U x" using cv(14) by (auto simp: gap_named_def)
    show "frontier_ok (xs @ ?n # ys) (wk_frontier w')"
    proof (cases xs)
      case Nil
      then obtain f where "wk_frontier w = Some f" "fr_checkpoint f = Some (top_of (snd r))" using cv(11) by (auto simp: frontier_ok_def)
      then show ?thesis using cv(11) ne conf
        by (auto simp: Nil frontier_ok_def w'' sc set_connected_frontier_checkpoint_def)
    next
      case (Cons x zs)
      have "x \<noteq> r" using cv(2) by (auto simp: Cons)
      then have "cp_block_id (top_of (snd x)) \<noteq> cp_block_id (top_of (snd r))"
        using runs_same_top[OF covers_sorted[OF c] cv(1), of x r] by (auto simp: Cons)
      then show ?thesis using cv(11) by (auto simp: Cons frontier_ok_def w'' sc)
    qed
  qed
qed

end
