(* ===== verification/Coverage_Steps.thy ===== *)
theory Coverage_Steps
  imports Coverage_Repairs
begin

text \<open>
  The catalog as a state machine. A step is a reduction of the engine followed by the commit of its
  batch, with blocks that the L1 source serves. Each step of the catalog is a step of the runs, so the
  coverage relation holds in every reachable catalog.
\<close>

section \<open>Gap repair\<close>

definition known_checkpoint :: "(string \<Rightarrow> 'n l1_block option) \<Rightarrow> block_checkpoint \<Rightarrow> bool" where
  "known_checkpoint U c \<longleftrightarrow> (\<exists>b. in_universe U b \<and> lb_checkpoint b = c)"

lemma known_checkpoint_inj:
  "known_checkpoint U c \<Longrightarrow> known_checkpoint U d \<Longrightarrow> cp_block_id c = cp_block_id d \<Longrightarrow> c = d"
  unfolding known_checkpoint_def using universe_inj by metis

lemma known_top: "good_run U bs \<Longrightarrow> known_checkpoint U (top_of bs)"
  unfolding known_checkpoint_def using top_of_mem good_runD(3) by metis

definition gap_repaired :: "'n repair_outcome \<Rightarrow> 'n run list \<Rightarrow> 'n run list \<Rightarrow> bool" where
  "gap_repaired outcome rs rs' \<longleftrightarrow> (\<exists>xs r q ys. rs = xs @ r # q # ys \<and> rs' = (case outcome of
     Connected bs \<Rightarrow> xs @ (fst r, snd r @ bs @ snd q) # ys
   | Unresolved bs _ _ \<Rightarrow> xs @ r # (fst q, bs @ snd q) # ys))"

lemma gap_repair_covered:
  assumes c: "covered ext U rs gs s" and u: "\<forall>b \<in> set (recovered_blocks outcome). in_universe U b"
    and conf: "\<And>c. rc_upper_frontier_checkpoint confirmation = Some c \<Longrightarrow> known_checkpoint U c"
    and red: "reduce_catalog_gap_repair ext s gap_id outcome confirmation ctx = Ok b" and s': "commit_snapshot s b = Ok s'"
  shows "\<exists>rs' gs'. gap_repaired outcome rs rs' \<and> covered ext U rs' gs' s'"
proof -
  let ?w = "from_snapshot s"
  note d = coveredD[OF c] and cv = coversD[OF coveredD(2)[OF c]]
  obtain gap lower upper w rq where gap: "bt_get (wk_gaps ?w) gap_id = Some gap"
    and lower: "bt_get (wk_segments ?w) (gp_lower_segment_id gap) = Some lower"
    and upper: "bt_get (wk_segments ?w) (gp_upper_segment_id gap) = Some upper"
    and rq: "rq_lower_checkpoint rq = Some (gp_lower_checkpoint gap)" "rq_upper_checkpoint rq = sg_floor upper"
    and w: "case outcome of
        Connected recovered \<Rightarrow> validate_connected_repair rq recovered = Ok () \<and> (\<exists>confirmed.
          rc_upper_frontier_checkpoint confirmation = Some confirmed \<and> cp_block_id confirmed = br_block_id (sg_frontier upper)
          \<and> merge_gap ext ?w gap lower upper recovered confirmed ctx = Ok w)
      | Unresolved recovered missing reason \<Rightarrow> validate_unresolved_repair rq recovered missing (sg_floor upper) = Ok ()
          \<and> expand_gap ext ?w gap upper recovered missing reason ctx = Ok w"
    and fin: "finish_batch w s ctx (InvalidState (InGap GapNoChange)) = Ok b"
  proof -
    note that' = that[of _ _ _ "\<lparr>rq_lower_checkpoint = Some (gp_lower_checkpoint g), rq_upper_checkpoint = sg_floor f,
      rq_expected_genesis_id = None, rq_max_blocks = cx_repair_block_limit ctx\<rparr>" for g f]
    show ?thesis
      using red unfolding reduce_catalog_gap_repair_def Let_def
      by (cases outcome) (auto simp: ok_simps split: if_splits intro: that')
  qed
  obtain xs r q ys gs1 gs2 where at: "rs = xs @ r # q # ys" "gs = gs1 @ gap # gs2" "joins r q gap"
    "joined (xs @ [r]) gs1" "joined (q # ys) gs2"
    by (rule joined_at[OF cv(3) covers_gap(1)[OF d(2) gap]])
  have segs: "lower = run_segment (target_of ?w) r" "upper = run_segment (target_of ?w) q"
    using lower upper covers_segment[OF d(2), of r] covers_segment[OF d(2), of q] at(3) by (simp_all add: at(1) joins_def)
  have cw: "covers ext U (xs @ r # q # ys) (gs1 @ gap # gs2) ?w" using d(2) by (simp add: at)
  have rq': "rq_upper_checkpoint rq = floor_of (snd q)" using rq(2) by (simp add: segs)
  have "\<exists>rs' gs'. gap_repaired outcome rs rs' \<and> covers ext U rs' gs' w"
  proof (cases outcome)
    case (Connected recovered)
    then obtain confirmed where m: "validate_connected_repair rq recovered = Ok ()"
      "rc_upper_frontier_checkpoint confirmation = Some confirmed" "cp_block_id confirmed = br_block_id (sg_frontier upper)"
      "merge_gap ext ?w gap lower upper recovered confirmed ctx = Ok w" using w by auto
    have "good_run U (snd q)" using cv(1) by (simp add: at)
    then have top: "confirmed = top_of (snd q)"
      by (intro known_checkpoint_inj[OF conf[OF m(2)] known_top])
        (use m(3) in \<open>simp_all add: segs top_reference_def block_reference_of_def\<close>)
    have "covers ext U (xs @ (fst r, snd r @ recovered @ snd q) # ys) (gs1 @ map (redirect_gap (fst q) (fst r)) gs2) w"
      using u by (intro merge_gap_covers[OF cw at(3-5) _ rq(1) rq' m(1) top m(4)[unfolded segs]])
        (simp add: Connected recovered_blocks_def)
    moreover have "gap_repaired outcome rs (xs @ (fst r, snd r @ recovered @ snd q) # ys)"
      unfolding gap_repaired_def by (rule exI[of _ xs], rule exI[of _ r], rule exI[of _ q], rule exI[of _ ys]) (simp add: Connected at(1))
    ultimately show ?thesis by blast
  next
    case (Unresolved recovered missing reason)
    then have m: "validate_unresolved_repair rq recovered missing (floor_of (snd q)) = Ok ()"
      "expand_gap ext ?w gap (run_segment (target_of ?w) q) recovered missing reason ctx = Ok w" using w by (simp_all add: segs)
    have "\<forall>b \<in> set recovered. in_universe U b" using u by (simp add: Unresolved recovered_blocks_def)
    from expand_gap_covers[OF cw at(3-5) this rq(1) rq' m]
    obtain g' where "covers ext U (xs @ r # (fst q, recovered @ snd q) # ys) (gs1 @ g' # gs2) w" by blast
    moreover have "gap_repaired outcome rs (xs @ r # (fst q, recovered @ snd q) # ys)"
      unfolding gap_repaired_def by (rule exI[of _ xs], rule exI[of _ r], rule exI[of _ q], rule exI[of _ ys]) (simp add: Unresolved at(1))
    ultimately show ?thesis by blast
  qed
  then show ?thesis using finish_batch_covered[OF d(1) _ fin s'] by blast
qed

section \<open>Steps\<close>

text \<open>A source serves blocks of \<open>U\<close> only.\<close>

definition serves :: "(string \<Rightarrow> 'n l1_block option) \<Rightarrow> (string \<Rightarrow> ('n l1_block option, source_error) result) \<Rightarrow> bool" where
  "serves U source \<longleftrightarrow> (\<forall>i b. source i = Ok (Some b) \<longrightarrow> in_universe U b)"

abbreviation served_events :: "(string \<Rightarrow> 'n l1_block option) \<Rightarrow> 'n l1_event list \<Rightarrow> bool" where
  "served_events U events \<equiv> \<forall>e \<in> set events. in_universe U (le_block e)"

lemma served_outcome:
  assumes "serves U source" "repair_catalog_ancestry source r = Ok outcome"
  shows "\<forall>b \<in> set (recovered_blocks outcome). in_universe U b"
proof -
  have "repair_loop source r (cp_parent_id (rq_upper_checkpoint r)) (cp_slot (rq_upper_checkpoint r)) [] [] = Ok outcome"
    using assms(2) by (auto simp: repair_catalog_ancestry_def ok_simps)
  from repair_loop_served[OF this] show ?thesis using assms(1) by (auto simp: serves_def)
qed

inductive run_step :: "'n run list \<Rightarrow> 'n run list \<Rightarrow> bool" where
  RunsKept: "run_step rs rs"
| RunExtended: "bs \<noteq> [] \<Longrightarrow> run_step rs (extend_last rs bs)"
| RunOpened: "bs \<noteq> [] \<Longrightarrow> run_step rs (rs @ [(segment_id_for_floor (floor_of bs), bs)])"
| RunDeepened: "run_step (xs @ q # ys) (xs @ (fst q, bs @ snd q) # ys)"
| RunsMerged: "run_step (xs @ r # q # ys) (xs @ (fst r, snd r @ bs @ snd q) # ys)"

text \<open>
  The steps of the catalog, composed as the worker composes them. A metadata update, such as the promotion of the
  network identity, changes no record.
\<close>

inductive catalog_step :: "'n externals \<Rightarrow> (string \<Rightarrow> 'n l1_block option) \<Rightarrow> catalog_snapshot \<Rightarrow> catalog_snapshot \<Rightarrow> bool"
  for ext U where
  CatchUp: "prepare_catalog_catch_up_with_resume s target ctx resumed = Ok (Some b) \<Longrightarrow> commit_snapshot s b = Ok s'
    \<Longrightarrow> catalog_step ext U s s'"
| Page: "served_events U events \<Longrightarrow> reduce_catalog_page ext s events ctx = Ok (Commit b remaining)
    \<Longrightarrow> commit_snapshot s b = Ok s' \<Longrightarrow> catalog_step ext U s s'"
| ConnectedRepair: "served_events U events \<Longrightarrow> serves U source
    \<Longrightarrow> reduce_catalog_page ext s events ctx = Ok (RepairRequired r pending)
    \<Longrightarrow> repair_catalog_ancestry source r = Ok outcome
    \<Longrightarrow> reduce_catalog_repair ext s r pending outcome ctx' = Ok (Commit b remaining)
    \<Longrightarrow> commit_snapshot s b = Ok s' \<Longrightarrow> catalog_step ext U s s'"
| GapConfirmed: "served_events U events \<Longrightarrow> serves U source
    \<Longrightarrow> reduce_catalog_page ext s events ctx = Ok (RepairRequired r pending)
    \<Longrightarrow> repair_catalog_ancestry source r = Ok outcome
    \<Longrightarrow> reduce_catalog_repair ext s r pending outcome ctx' = Ok (GapConfirmationRequired r' pending' outcome')
    \<Longrightarrow> confirm_catalog_repair_gap ext s r' pending' outcome' confirmation ctx'' = Ok (Commit b remaining)
    \<Longrightarrow> commit_snapshot s b = Ok s' \<Longrightarrow> catalog_step ext U s s'"
| PrefixRepair: "serves U source \<Longrightarrow> catalog_prefix_repair_request s ctx = Ok r
    \<Longrightarrow> repair_catalog_ancestry source r = Ok outcome
    \<Longrightarrow> reduce_catalog_prefix_repair ext s outcome confirmation ctx' = Ok (Some b)
    \<Longrightarrow> commit_snapshot s b = Ok s' \<Longrightarrow> catalog_step ext U s s'"
| GapRepair: "serves U source \<Longrightarrow> catalog_gap_repair_request s gap_id ctx = Ok r
    \<Longrightarrow> repair_catalog_ancestry source r = Ok outcome
    \<Longrightarrow> (\<And>c. rc_upper_frontier_checkpoint confirmation = Some c \<Longrightarrow> known_checkpoint U c)
    \<Longrightarrow> reduce_catalog_gap_repair ext s gap_id outcome confirmation ctx' = Ok b
    \<Longrightarrow> commit_snapshot s b = Ok s' \<Longrightarrow> catalog_step ext U s s'"
| Metadata: "catalog_step ext U s (s\<lparr>cs_metadata := md\<rparr>)"

lemma gap_confirmation_request:
  "reduce_catalog_repair ext s r pending outcome ctx = Ok (GapConfirmationRequired r' pending' outcome')
    \<Longrightarrow> r' = r \<and> pending' = pending \<and> outcome' = outcome"
  by (auto simp: reduce_catalog_repair_def reduce_catalog_page_def ok_simps Let_def
      split: if_splits repair_outcome.splits option.splits)

lemma catalog_step_runs:
  assumes "catalog_step ext U s s'" "gap_ids_differ ext U" "covered ext U rs gs s"
  shows "\<exists>rs' gs'. run_step rs rs' \<and> covered ext U rs' gs' s'"
  using assms(1)
proof cases
  case (CatchUp target ctx resumed b)
  then show ?thesis using catch_up_covered(1)[OF assms(3)] RunsKept by blast
next
  case (Page events ctx b remaining)
  obtain bs where "bs \<noteq> []" "covered ext U (extend_last rs bs) gs s'"
    using page_commit_covered[OF assms(3) Page] by (metis map_is_Nil_conv)
  then show ?thesis using RunExtended by blast
next
  case (ConnectedRepair events source ctx r pending outcome ctx' b remaining)
  have "served_events U pending" using page_request(1)[OF ConnectedRepair(3)] ConnectedRepair(1) by simp
  from repair_commit_covered[OF assms(3) served_outcome[OF ConnectedRepair(2,4)] this ConnectedRepair(5,6)]
  show ?thesis using RunExtended by blast
next
  case (GapConfirmed events source ctx r pending outcome ctx' r' pending' outcome' confirmation ctx'' b remaining)
  have eq: "r' = r" "pending' = pending" "outcome' = outcome" using gap_confirmation_request[OF GapConfirmed(5)] by simp_all
  have "served_events U pending" using page_request(1)[OF GapConfirmed(3)] GapConfirmed(1) by simp
  from gap_commit_covered[OF assms(3,2) served_outcome[OF GapConfirmed(2,4)] this
      page_request(3,5)[OF GapConfirmed(3)] GapConfirmed(6)[unfolded eq] GapConfirmed(7)]
  show ?thesis using RunOpened by blast
next
  case (PrefixRepair source ctx r outcome confirmation ctx' b)
  obtain q ys where "rs = q # ys" "covered ext U ((fst q, recovered_blocks outcome @ snd q) # ys) gs s'"
    using prefix_repair_covered[OF assms(3) served_outcome[OF PrefixRepair(1,3)] PrefixRepair(4,5)] by blast
  then show ?thesis using RunDeepened[of "[]" q ys "recovered_blocks outcome"] by auto
next
  case (GapRepair source gap_id ctx r outcome confirmation ctx' b)
  obtain rs' gs' where g: "gap_repaired outcome rs rs'" "covered ext U rs' gs' s'"
    using gap_repair_covered[OF assms(3) served_outcome[OF GapRepair(1,3)] GapRepair(4,5,6)] by blast
  obtain xs r q ys where rs: "rs = xs @ r # q # ys" "rs' = (case outcome of
     Connected bs \<Rightarrow> xs @ (fst r, snd r @ bs @ snd q) # ys | Unresolved bs _ _ \<Rightarrow> xs @ r # (fst q, bs @ snd q) # ys)"
    using g(1) unfolding gap_repaired_def by blast
  have "run_step rs rs'"
    using RunsMerged[of xs r q ys] RunDeepened[of "xs @ [r]" q ys] rs by (cases outcome) auto
  then show ?thesis using g(2) by blast
next
  case (Metadata md)
  have "covered ext U rs gs (s\<lparr>cs_metadata := md\<rparr>)"
    using assms(3) by (simp add: covered_def sorted_snapshot_def from_snapshot_def)
  then show ?thesis using Metadata RunsKept by blast
qed

section \<open>Reachable catalogs\<close>

definition initial_snapshot :: "catalog_metadata \<Rightarrow> catalog_snapshot" where
  "initial_snapshot md = \<lparr>cs_metadata = md, cs_frontier = None, cs_traversal = None, cs_zones = [],
     cs_evidence = [], cs_segments = [], cs_gaps = []\<rparr>"

inductive reachable :: "'n externals \<Rightarrow> (string \<Rightarrow> 'n l1_block option) \<Rightarrow> catalog_snapshot \<Rightarrow> bool" for ext U where
  Created: "reachable ext U (initial_snapshot md)"
| Stepped: "reachable ext U s \<Longrightarrow> catalog_step ext U s s' \<Longrightarrow> reachable ext U s'"

lemma initial_covered: "covered ext U [] [] (initial_snapshot md)"
proof -
  have fs: "from_snapshot (initial_snapshot md) = \<lparr>wk_frontier = None, wk_traversal = None, wk_zones = [], wk_evidence = [],
     wk_latest_primary = [], wk_latest_configuration = [], wk_segments = [], wk_gaps = []\<rparr>"
    by (simp add: from_snapshot_def initial_snapshot_def records_by_key_def latest_evidence_ids_def)
  have "zones_hold {} (from_snapshot (initial_snapshot md))"
    by (simp add: fs zones_hold_def keyed_map_def indexes_exact_def latest_index_empty zone_exact_def)
  moreover have "sorted_snapshot (initial_snapshot md)" by (simp add: sorted_snapshot_def initial_snapshot_def)
  ultimately show ?thesis by (simp add: covered_def covers_def fs status_ok_def frontier_ok_def keyed_map_def)
qed

lemma reachable_covered:
  assumes "reachable ext U s" "gap_ids_differ ext U"
  shows "\<exists>rs gs. covered ext U rs gs s"
  using assms(1)
proof induction
  case Created
  then show ?case using initial_covered by blast
next
  case (Stepped s s')
  then show ?case using catalog_step_runs[OF Stepped(2) assms(2)] by blast
qed

section \<open>What a complete catalog contains\<close>

lemma chain_unique:
  assumes "good_run U bs" "good_run U cs" "cp_slot (floor_of bs) = 0" "cp_slot (floor_of cs) = 0"
    "cp_block_id (top_of bs) = cp_block_id (top_of cs)"
  shows "bs = cs"
  using assms
proof (induction bs arbitrary: cs rule: rev_induct)
  case Nil
  then show ?case by (simp add: good_run_def)
next
  case (snoc b bs)
  obtain ds c where cs: "cs = ds @ [c]" using good_runD(1)[OF snoc.prems(2)] by (cases cs rule: rev_cases) auto
  have "b = c"
    using universe_inj[of U b c] good_runD(3)[OF snoc.prems(1), of b] good_runD(3)[OF snoc.prems(2), of c] snoc.prems(5)
    by (simp add: cs top_of_def)
  have part: "good_run U xs \<and> links (top_of xs) (lb_checkpoint x) \<and> cp_slot (floor_of xs) = 0"
    if "good_run U (xs @ [x])" "cp_slot (floor_of (xs @ [x])) = 0" "xs \<noteq> []" for xs x
    using that by (auto simp: good_run_def linked_append top_of_def last_map)
  have above: "xs \<noteq> [] \<longleftrightarrow> cp_slot (lb_checkpoint x) \<noteq> 0"
    if "good_run U (xs @ [x])" "cp_slot (floor_of (xs @ [x])) = 0" for xs x
    using part[OF that] that(2) by (cases "xs = []") (auto simp: links_def floor_of_def word_gt_0)
  show ?case
  proof (cases "bs = []")
    case True
    then have "ds = []" using above[of bs b] above[of ds c] snoc.prems(1-4) \<open>b = c\<close> by (simp add: cs)
    then show ?thesis using True \<open>b = c\<close> by (simp add: cs)
  next
    case False
    then have "ds \<noteq> []" using above[of bs b] above[of ds c] snoc.prems(1-4) \<open>b = c\<close> by (simp add: cs)
    then have "bs = ds" using part[of bs b] part[of ds c] snoc.prems(1-4) False \<open>b = c\<close> by (intro snoc.IH) (simp_all add: cs links_def)
    then show ?thesis using \<open>b = c\<close> by (simp add: cs)
  qed
qed

lemma covered_complete:
  assumes c: "covered ext U rs gs s" and f: "cs_frontier s = Some f" "fr_coverage_status f = CoverageComplete"
  shows "\<exists>r. rs = [r] \<and> cp_slot (floor_of (snd r)) = 0 \<and> target_of (from_snapshot s) = Some (top_reference (snd r))"
proof -
  note d = coveredD[OF c] and cv = coversD[OF coveredD(2)[OF c]]
  have "coverage_rule (\<exists>r \<in> set rs. Some (top_reference (snd r)) = target_of (from_snapshot s)) (gs = []) f = CoverageComplete"
    using d(3) f by (simp add: status_ok_def from_snapshot_simps)
  then have all: "\<exists>r \<in> set rs. Some (top_reference (snd r)) = target_of (from_snapshot s)" "gs = []" "fr_coverage_floor f = Some 0"
    by (auto simp: coverage_rule_def split: if_splits)
  then obtain r where "rs = [r]" using joined_Nil_iff[OF cv(3)] by (cases rs) auto
  then show ?thesis using all cv(11) f(1) by (auto simp: frontier_ok_def from_snapshot_simps)
qed

lemma covered_evidence:
  assumes "covered ext U rs gs s"
  shows "set (cs_evidence s) = run_evidence ext rs"
  using coversD(12)[OF coveredD(2)[OF assms]] sorted_snapshotD(2)[OF coveredD(1)[OF assms]]
  by (simp add: from_snapshot_simps bt_values_records)

lemma complete_chain:
  assumes "reachable ext U s" "gap_ids_differ ext U"
    "cs_frontier s = Some f" "fr_coverage_status f = CoverageComplete"
  shows "\<exists>i bs. good_run U bs \<and> cp_slot (floor_of bs) = 0 \<and> current_target s = Ok (top_reference bs)
    \<and> cs_gaps s = [] \<and> (\<exists>g. set (cs_segments s) = {g} \<and> sg_floor g = floor_of bs \<and> sg_frontier g = top_reference bs)
    \<and> set (cs_evidence s) = (\<Union>b \<in> set bs. set (block_references ext i b))"
proof -
  obtain rs gs where c: "covered ext U rs gs s" using reachable_covered[OF assms(1,2)] by blast
  note d = coveredD[OF c] and cv = coversD[OF coveredD(2)[OF c]]
  obtain r where r: "rs = [r]" "cp_slot (floor_of (snd r)) = 0" "target_of (from_snapshot s) = Some (top_reference (snd r))"
    using covered_complete[OF c assms(3,4)] by blast
  have "gs = []" using cv(3) r(1) by simp
  show ?thesis
  proof (intro exI[of _ "fst r"] exI[of _ "snd r"] conjI)
    show "current_target s = Ok (top_reference (snd r))"
      using r(3) by (simp add: current_target_def target_of_def from_snapshot_simps ok_simps)
    show "\<exists>g. set (cs_segments s) = {g} \<and> sg_floor g = floor_of (snd r) \<and> sg_frontier g = top_reference (snd r)"
      using d(4) r(1) by (intro exI[of _ "run_segment (target_of (from_snapshot s)) r"]) simp
    show "set (cs_evidence s) = (\<Union>b \<in> set (snd r). set (block_references ext (fst r) b))"
      using covered_evidence[OF c] by (simp add: r(1))
  qed (use cv(1) r d(6) \<open>gs = []\<close> in simp_all)
qed

text \<open>
  C2: When the catalog reports complete coverage, it holds one chain of L1 blocks, linked by parent
  identifiers from slot zero to the target block, it has no gap, its one segment spans that chain, and its
  evidence is exactly the evidence of the chain's blocks. This holds after any sequence of catch-ups,
  pages and repairs.
\<close>

theorem complete_coverage_is_whole_chain:
  assumes "reachable ext U s" "gap_ids_differ ext U"
    "cs_frontier s = Some f" "fr_coverage_status f = CoverageComplete"
  shows "\<exists>i bs. good_run U bs \<and> cp_slot (floor_of bs) = 0 \<and> current_target s = Ok (top_reference bs)
    \<and> cs_gaps s = [] \<and> (\<exists>g. set (cs_segments s) = {g} \<and> sg_floor g = floor_of bs \<and> sg_frontier g = top_reference bs)
    \<and> set (cs_evidence s) = (\<Union>b \<in> set bs. set (block_references ext i b))"
  by (rule complete_chain[OF assms])

end
