(* ===== verification/Coverage_Properties.thy ===== *)
theory Coverage_Properties
  imports Coverage_Steps
begin

text \<open>
  Consequences of the coverage relation: no step loses evidence or moves the ingestion cursor back, and
  two complete catalogs of the same chain agree whatever order their blocks arrived in.
\<close>

section \<open>Evidence without segments\<close>

text \<open>The segment of a reference depends on the history; everything else of it does not.\<close>

definition forget_segment :: "evidence_reference \<Rightarrow> evidence_reference" where
  "forget_segment e = e\<lparr>ev_coverage_segment_id := []\<rparr>"

lemma forget_segment_simps [simp]:
  "ev_evidence_id (forget_segment e) = ev_evidence_id e" "ev_channel_id (forget_segment e) = ev_channel_id e"
  "ev_l1_slot (forget_segment e) = ev_l1_slot e" "ev_evidence_kind (forget_segment e) = ev_evidence_kind e"
  "evidence_order (forget_segment e) = evidence_order e"
  by (simp_all add: forget_segment_def evidence_order_def)

lemma forget_make: "forget_segment (make_evidence_reference obs b i k u) = make_evidence_reference obs b [] k u"
  by (simp add: forget_segment_def make_evidence_reference_def)

lemma forget_block: "map forget_segment (block_references ext i b) = block_references ext [] b"
proof -
  have "map forget_segment (observation_references c i obs) = observation_references c [] obs" for c obs
    by (auto simp: observation_references_def forget_make split: prod.splits)
  then show ?thesis by (simp add: block_references_def map_concat comp_def)
qed

definition blocks_of :: "'n run list \<Rightarrow> 'n l1_block set" where
  "blocks_of rs = (\<Union>r \<in> set rs. set (snd r))"

lemma forget_run_evidence:
  "forget_segment ` run_evidence ext rs = (\<Union>b \<in> blocks_of rs. set (block_references ext [] b))"
proof -
  have "forget_segment ` set (block_references ext i b) = set (block_references ext [] b)" for i b
    using forget_block[of ext i b] by (metis set_map)
  then have "forget_segment ` run_evidence ext rs = (\<Union>r \<in> set rs. \<Union>b \<in> set (snd r). set (block_references ext [] b))"
    by (simp add: run_evidence_def image_UN)
  then show ?thesis unfolding blocks_of_def by blast
qed

lemma run_step_blocks: "run_step rs rs' \<Longrightarrow> blocks_of rs \<subseteq> blocks_of rs'"
proof (induction rule: run_step.induct)
  case (RunExtended bs rs)
  show ?case
  proof (cases rs rule: rev_cases)
    case (snoc rs0 r)
    then show ?thesis by (auto simp: extend_last_def blocks_of_def)
  qed (simp add: blocks_of_def)
qed (auto simp: blocks_of_def)

text \<open>
  C4: No step of the catalog loses evidence: every reference is still there after any catch-up, page,
  gap, prefix repair or gap repair, with the same identifier, block, slot, kind and use; only its segment
  can change, when two segments merge.
\<close>

theorem steps_keep_evidence:
  assumes "reachable ext U s" "gap_ids_differ ext U" "catalog_step ext U s s'" "e \<in> set (cs_evidence s)"
  shows "\<exists>e' \<in> set (cs_evidence s'). e' = e\<lparr>ev_coverage_segment_id := ev_coverage_segment_id e'\<rparr>"
proof -
  obtain rs gs where c: "covered ext U rs gs s" using reachable_covered[OF assms(1,2)] by blast
  obtain rs' gs' where c': "run_step rs rs'" "covered ext U rs' gs' s'" using catalog_step_runs[OF assms(3,2) c] by blast
  have "forget_segment ` set (cs_evidence s) \<subseteq> forget_segment ` set (cs_evidence s')"
    unfolding covered_evidence[OF c] covered_evidence[OF c'(2)] forget_run_evidence
    using run_step_blocks[OF c'(1)] by blast
  then obtain e' where "e' \<in> set (cs_evidence s')" "forget_segment e = forget_segment e'" using assms(4) by blast
  then show ?thesis by (intro bexI[of _ e']) (cases e; cases e'; simp add: forget_segment_def)
qed

section \<open>The ingestion cursor\<close>

definition cursor_slot :: "catalog_snapshot \<Rightarrow> u64 option" where
  "cursor_slot s = map_option br_slot (ingestion_cursor (cs_traversal s))"

lemma covered_cursor:
  assumes "covered ext U rs gs s"
  shows "cursor_slot s = (if rs = [] then None else Some (cp_slot (top_of (snd (last rs)))))"
  using coversD(9)[OF coveredD(2)[OF assms]]
  by (simp add: cursor_slot_def from_snapshot_simps top_reference_def block_reference_of_def)

lemma last_run_grows:
  assumes "sorted_wrt below rs" "good_runs U rs" "r \<in> set rs"
  shows "cp_slot (top_of (snd r)) \<le> cp_slot (top_of (snd (last rs)))"
proof (cases rs rule: rev_cases)
  case (snoc qs q)
  show ?thesis
  proof (cases "r = q")
    case False
    then have "below r q" using assms(1,3) by (simp add: snoc sorted_wrt_append)
    moreover have "cp_slot (floor_of (snd q)) \<le> cp_slot (top_of (snd q))" using assms(2) good_run_floor_top[of U "snd q"] by (simp add: snoc)
    ultimately show ?thesis by (simp add: below_def snoc)
  qed (simp add: snoc)
qed (use assms(3) in simp)

lemma run_step_top:
  assumes "run_step rs rs'" "rs \<noteq> []" "good_runs U rs" "good_runs U rs'" "sorted_wrt below rs'"
  shows "rs' \<noteq> [] \<and> cp_slot (top_of (snd (last rs))) \<le> cp_slot (top_of (snd (last rs')))"
proof -
  obtain b where b: "b \<in> set (snd (last rs))" "lb_checkpoint b = top_of (snd (last rs))"
    using top_of_mem assms(2,3) last_in_set by metis
  then have "b \<in> blocks_of rs" using assms(2) last_in_set by (auto simp: blocks_of_def)
  then have "b \<in> blocks_of rs'" using run_step_blocks[OF assms(1)] by blast
  then obtain r where r: "r \<in> set rs'" "b \<in> set (snd r)" by (auto simp: blocks_of_def)
  have "cp_slot (lb_checkpoint b) \<le> cp_slot (top_of (snd r))" using good_run_slots(2) assms(4) r by blast
  also have "\<dots> \<le> cp_slot (top_of (snd (last rs')))" by (rule last_run_grows[OF assms(5,4) r(1)])
  finally show ?thesis using r(1) b(2) by auto
qed

text \<open>
  C5: The ingestion cursor never moves to a lower slot and never disappears, whatever the catalog does.
\<close>

theorem cursor_never_moves_back:
  assumes "reachable ext U s" "gap_ids_differ ext U" "catalog_step ext U s s'" "cursor_slot s = Some n"
  shows "\<exists>m. cursor_slot s' = Some m \<and> n \<le> m"
proof -
  obtain rs gs where c: "covered ext U rs gs s" using reachable_covered[OF assms(1,2)] by blast
  obtain rs' gs' where c': "run_step rs rs'" "covered ext U rs' gs' s'" using catalog_step_runs[OF assms(3,2) c] by blast
  have ne: "rs \<noteq> []" "n = cp_slot (top_of (snd (last rs)))" using assms(4) covered_cursor[OF c] by (auto split: if_splits)
  have "rs' \<noteq> [] \<and> cp_slot (top_of (snd (last rs))) \<le> cp_slot (top_of (snd (last rs')))"
    by (rule run_step_top[OF c'(1) ne(1) coversD(1)[OF coveredD(2)[OF c]] coversD(1)[OF coveredD(2)[OF c'(2)]]
      covers_sorted[OF coveredD(2)[OF c'(2)]]])
  then show ?thesis using covered_cursor[OF c'(2)] ne(2) by simp
qed

section \<open>Complete catalogs agree\<close>

lemma complete_same_blocks:
  assumes "covered ext U rs gs s" "covered ext U rs' gs' s'" "current_target s = current_target s'"
    "cs_frontier s = Some f" "fr_coverage_status f = CoverageComplete"
    "cs_frontier s' = Some f'" "fr_coverage_status f' = CoverageComplete"
  shows "blocks_of rs = blocks_of rs'"
proof -
  obtain r where r: "rs = [r]" "cp_slot (floor_of (snd r)) = 0" "target_of (from_snapshot s) = Some (top_reference (snd r))"
    using covered_complete[OF assms(1,4,5)] by blast
  obtain q where q: "rs' = [q]" "cp_slot (floor_of (snd q)) = 0" "target_of (from_snapshot s') = Some (top_reference (snd q))"
    using covered_complete[OF assms(2,6,7)] by blast
  have "top_reference (snd r) = top_reference (snd q)"
    using assms(3) r(3) q(3) by (simp add: current_target_def target_of_def from_snapshot_simps ok_or_def)
  then have "snd r = snd q"
    using coversD(1)[OF coveredD(2)[OF assms(1)]] coversD(1)[OF coveredD(2)[OF assms(2)]] r q
    by (intro chain_unique[of U]) (simp_all add: top_reference_def block_reference_of_def)
  then show ?thesis by (simp add: r(1) q(1) blocks_of_def)
qed

text \<open>What a Zone record says about its channel's evidence.\<close>

definition zone_facts :: "zone_record \<Rightarrow> string \<times> string \<times> u64 \<times> u64 \<times> u64 \<times> u64 \<times> u64 \<times> u64" where
  "zone_facts z = (zr_channel_id z, zr_latest_evidence_id z, zr_first_seen_slot z, zr_last_seen_slot z, zr_evidence_count z,
     cc_channel_operations (zr_classification z), cc_recognized_l2_blocks (zr_classification z),
     cc_raw_inscriptions (zr_classification z))"

lemma max_by_key_forget: "max_by_key evidence_order (map forget_segment xs) = map_option forget_segment (max_by_key evidence_order xs)"
proof -
  have "foldl (\<lambda>m y. if evidence_order m \<le> evidence_order y then y else m) (forget_segment x) (map forget_segment ys)
      = forget_segment (foldl (\<lambda>m y. if evidence_order m \<le> evidence_order y then y else m) x ys)" for x ys
    by (induction ys arbitrary: x) simp_all
  then show ?thesis by (cases xs) (simp_all add: max_by_key_def)
qed

lemma slots_forget: "slot_min (map forget_segment xs) = slot_min xs" "slot_max (map forget_segment xs) = slot_max xs"
  by (cases xs; simp add: slot_min_def slot_max_def foldl_map)+

lemma filter_forget: "filter (\<lambda>r. P (ev_evidence_kind r)) (map forget_segment xs) = map forget_segment (filter (\<lambda>r. P (ev_evidence_kind r)) xs)"
  by (simp add: filter_map comp_def)

lemma zone_summary_forget:
  "zone_summary xs z \<Longrightarrow> \<exists>latest. max_by_key evidence_order (map forget_segment xs) = Some latest
     \<and> zone_facts z = (zr_channel_id z, ev_evidence_id latest,
         unwrap_or (slot_min (primary_references (map forget_segment xs))) (ev_l1_slot latest),
         unwrap_or (slot_max (primary_references (map forget_segment xs))) (ev_l1_slot latest),
         of_nat (length (map forget_segment xs)), of_nat (length (primary_references (map forget_segment xs))),
         of_nat (kind_count SequencerBlock (map forget_segment xs)), of_nat (kind_count RawInscription (map forget_segment xs)))"
  unfolding zone_summary_def
proof (elim exE conjE, goal_cases)
  case (1 l)
  have "of_nat n = v" if "unat v = n" for n and v :: u64 using that by auto
  note nat = this
  show ?case
    unfolding max_by_key_forget filter_forget[where P = "\<lambda>k. k \<noteq> ChannelCreated"] filter_forget[where P = "\<lambda>k. k = SequencerBlock"]
      filter_forget[where P = "\<lambda>k. k = RawInscription"] slots_forget length_map 1(1) zone_facts_def
      nat[OF 1(6)] nat[OF 1(7)] nat[OF 1(8)] nat[OF 1(9)]
    by (intro exI[of _ "forget_segment l"]) (simp add: 1(2-5))
qed

lemma key_sorted_set_eq:
  assumes "key_sorted key xs" "key_sorted key ys" "set xs = set ys"
  shows "xs = ys"
proof (rule vec_eqI[OF assms(1,2)])
  fix k
  have "find_record key xs k = Some r \<longleftrightarrow> find_record key ys k = Some r" for r
    unfolding find_record_iff[OF assms(1)] find_record_iff[OF assms(2)] assms(3) ..
  then show "find_record key xs k = find_record key ys k" by (metis option.exhaust)
qed

lemma covered_zone:
  assumes "covered ext U rs gs s"
  shows "z \<in> set (cs_zones s) \<Longrightarrow> zone_summary (filter (\<lambda>e. ev_channel_id e = zr_channel_id z) (cs_evidence s)) z"
    "e \<in> set (cs_evidence s) \<Longrightarrow> \<exists>z \<in> set (cs_zones s). zr_channel_id z = ev_channel_id e"
proof -
  note srt = sorted_snapshotD[OF coveredD(1)[OF assms]] and h = zones_holdD[OF coversD(13)[OF coveredD(2)[OF assms]]]
  have vals: "bt_values (wk_zones (from_snapshot s)) = cs_zones s" "bt_values (wk_evidence (from_snapshot s)) = cs_evidence s"
    using srt by (simp_all add: from_snapshot_simps bt_values_records)
  note kv = keyed_values[OF h(1), unfolded vals]
  show "zone_summary (filter (\<lambda>e. ev_channel_id e = zr_channel_id z) (cs_evidence s)) z" if "z \<in> set (cs_zones s)"
    using that h(5)[of "zr_channel_id z"] by (simp add: kv zone_exact_def vals)
  show "\<exists>z \<in> set (cs_zones s). zr_channel_id z = ev_channel_id e" if e: "e \<in> set (cs_evidence s)"
  proof -
    obtain z where z: "bt_get (wk_zones (from_snapshot s)) (ev_channel_id e) = Some z" using h(4)[of e] e by (auto simp: vals)
    then have "zr_channel_id z = ev_channel_id e" by (rule keyed_get[OF h(1)])
    then show ?thesis using z kv by auto
  qed
qed

lemma image_subset_by:
  assumes "\<And>x. x \<in> A \<Longrightarrow> \<exists>y \<in> B. f y = f x"
  shows "f ` A \<subseteq> f ` B"
proof (rule image_subsetI)
  fix x
  assume "x \<in> A"
  then obtain y where "y \<in> B" "f y = f x" using assms by blast
  then show "f x \<in> f ` B" by (metis imageI)
qed

lemma same_evidence_zones:
  assumes c: "covered ext U rs gs s" and c': "covered ext U rs' gs' s'"
    and ev: "map forget_segment (cs_evidence s) = map forget_segment (cs_evidence s')" and z: "z \<in> set (cs_zones s)"
  shows "\<exists>z' \<in> set (cs_zones s'). zone_facts z' = zone_facts z"
proof -
  let ?refs = "\<lambda>s. filter (\<lambda>e. ev_channel_id e = zr_channel_id z) (cs_evidence s)"
  have refs: "map forget_segment (?refs s) = map forget_segment (?refs s')"
    using arg_cong[OF ev, of "filter (\<lambda>e. ev_channel_id e = zr_channel_id z)"] by (simp add: filter_map comp_def)
  have sum: "zone_summary (?refs s) z" by (rule covered_zone(1)[OF c z])
  then obtain l where "l \<in> set (?refs s)" using max_by_key_mem by (fastforce simp: zone_summary_def)
  then have "map forget_segment (?refs s) \<noteq> []" by (auto simp: filter_empty_conv)
  then obtain e where "e \<in> set (?refs s')" unfolding refs by (cases "?refs s'") auto
  then obtain z' where z': "z' \<in> set (cs_zones s')" "zr_channel_id z' = zr_channel_id z" using covered_zone(2)[OF c'] by fastforce
  have sum': "zone_summary (?refs s') z'" using covered_zone(1)[OF c' z'(1)] z'(2) by simp
  have "zone_facts z' = zone_facts z"
    using zone_summary_forget[OF sum] zone_summary_forget[OF sum'] unfolding refs z'(2) by auto
  then show ?thesis using z'(1) by blast
qed

text \<open>
  C3: Two complete catalogs with the same target agree, whatever order the blocks arrived in and whatever
  gaps were opened, expanded and merged on the way: they hold the same references up to segment
  identifiers, in the same order, and Zone records with the same channels, latest evidence, slots and counts.
\<close>

theorem complete_catalogs_agree:
  assumes "gap_ids_differ ext U" "reachable ext U s" "reachable ext U s'" "current_target s = current_target s'"
    "cs_frontier s = Some f" "fr_coverage_status f = CoverageComplete"
    "cs_frontier s' = Some f'" "fr_coverage_status f' = CoverageComplete"
  shows "map forget_segment (cs_evidence s) = map forget_segment (cs_evidence s')
    \<and> zone_facts ` set (cs_zones s) = zone_facts ` set (cs_zones s')"
proof -
  obtain rs gs where c: "covered ext U rs gs s" using reachable_covered[OF assms(2,1)] by blast
  obtain rs' gs' where c': "covered ext U rs' gs' s'" using reachable_covered[OF assms(3,1)] by blast
  have blocks: "blocks_of rs = blocks_of rs'" by (rule complete_same_blocks[OF c c' assms(4-8)])
  have srt: "key_sorted ev_evidence_id (map forget_segment (cs_evidence t))" if "sorted_snapshot t" for t
    using sorted_snapshotD(2)[OF that] by (simp add: comp_def)
  have ev: "map forget_segment (cs_evidence s) = map forget_segment (cs_evidence s')"
    by (rule key_sorted_set_eq[OF srt[OF coveredD(1)[OF c]] srt[OF coveredD(1)[OF c']]])
      (simp add: covered_evidence[OF c] covered_evidence[OF c'] forget_run_evidence blocks)
  have "zone_facts ` set (cs_zones s) = zone_facts ` set (cs_zones s')"
    by (rule subset_antisym) (rule image_subset_by, rule same_evidence_zones[OF c c' ev], assumption,
      rule image_subset_by, rule same_evidence_zones[OF c' c ev[symmetric]])
  with ev show ?thesis by blast
qed

end
