(* ===== verification/Worker_Safety.thy ===== *)
theory Worker_Safety
  imports Catalog_Worker Coverage_Properties
begin

text \<open>
  What a run of the worker keeps, whatever the source answers and whenever the run is cancelled. \<open>worker_batch\<close> lists the
  batches the worker computes from a snapshot. The locale \<open>catalog_keeper\<close> is the contract of a property of the stored
  catalog that such batches and metadata updates keep; the operations of the worker are shown once, inside it, to keep
  every such property, on success and on every error.
\<close>

section \<open>The batches of the worker\<close>

text \<open>The blocks the source gave the run, in a page or one by one.\<close>

definition known_block :: "'n environment \<Rightarrow> 'n l1_block \<Rightarrow> bool" where
  "known_block env b \<longleftrightarrow> (\<exists>t request page. en_finalized_range env t request = Ok page \<and> b \<in> le_block ` set page)
     \<or> (\<exists>t i. en_block env t i = Ok (Some b))"

definition known_events :: "'n environment \<Rightarrow> 'n l1_event list \<Rightarrow> bool" where
  "known_events env events \<longleftrightarrow> (\<forall>e \<in> set events. known_block env (le_block e))"

definition confirms :: "catalog_snapshot \<Rightarrow> block_reference option \<Rightarrow> repair_confirmation \<Rightarrow> bool" where
  "confirms s lower c \<longleftrightarrow> rc_lower_checkpoint c = lower \<and> rc_upper_frontier_checkpoint c = latest_catalog_checkpoint s
     \<and> Option.bind (cs_traversal s) tr_target_lib = Some (rc_target_lib c)"

inductive page_batch :: "'n environment \<Rightarrow> 'n externals \<Rightarrow> catalog_snapshot \<Rightarrow> catalog_batch \<Rightarrow> bool" for env ext s where
  PageBatch: "known_events env events \<Longrightarrow> reduce_catalog_page ext s events ctx = Ok (Commit b remaining) \<Longrightarrow> page_batch env ext s b"
| RepairBatch: "known_events env events \<Longrightarrow> reduce_catalog_page ext s events ctx = Ok (RepairRequired r pending)
    \<Longrightarrow> repair_catalog_ancestry (en_block env t) r = Ok outcome
    \<Longrightarrow> reduce_catalog_repair ext s r pending outcome ctx' = Ok (Commit b remaining) \<Longrightarrow> page_batch env ext s b"
| GapBatch: "known_events env events \<Longrightarrow> reduce_catalog_page ext s events ctx = Ok (RepairRequired r pending)
    \<Longrightarrow> repair_catalog_ancestry (en_block env t) r = Ok outcome
    \<Longrightarrow> reduce_catalog_repair ext s r pending outcome ctx' = Ok (GapConfirmationRequired r' pending' outcome')
    \<Longrightarrow> confirms s (rq_lower_checkpoint r') confirmation
    \<Longrightarrow> confirm_catalog_repair_gap ext s r' pending' outcome' confirmation ctx'' = Ok (Commit b remaining)
    \<Longrightarrow> page_batch env ext s b"

inductive worker_batch :: "'n environment \<Rightarrow> 'n externals \<Rightarrow> catalog_snapshot \<Rightarrow> catalog_batch \<Rightarrow> bool" for env ext s where
  CatchUpBatch: "prepare_catalog_catch_up_with_resume s target ctx resumed = Ok (Some b) \<Longrightarrow> worker_batch env ext s b"
| PagesBatch: "page_batch env ext s b \<Longrightarrow> worker_batch env ext s b"
| PrefixBatch: "catalog_prefix_repair_request s ctx = Ok r \<Longrightarrow> repair_catalog_ancestry (en_block env t) r = Ok outcome
    \<Longrightarrow> confirms s None confirmation \<Longrightarrow> reduce_catalog_prefix_repair ext s outcome confirmation ctx' = Ok (Some b)
    \<Longrightarrow> worker_batch env ext s b"
| GapRepairBatch: "cs_gaps s = gap # gaps \<Longrightarrow> catalog_gap_repair_request s (gp_gap_id gap) ctx = Ok r
    \<Longrightarrow> repair_catalog_ancestry (en_block env t) r = Ok outcome \<Longrightarrow> confirms s (Some (gp_lower_checkpoint gap)) confirmation
    \<Longrightarrow> reduce_catalog_gap_repair ext s (gp_gap_id gap) outcome confirmation ctx' = Ok b \<Longrightarrow> worker_batch env ext s b"

text \<open>Where a page reduction of the loop came from: its value leads to batches of the worker only.\<close>

inductive reduced :: "'n environment \<Rightarrow> 'n externals \<Rightarrow> catalog_snapshot \<Rightarrow> 'n page_reduction \<Rightarrow> bool" for env ext s where
  FromPage: "known_events env events \<Longrightarrow> reduce_catalog_page ext s events ctx = Ok reduction \<Longrightarrow> reduced env ext s reduction"
| FromRepair: "known_events env events \<Longrightarrow> reduce_catalog_page ext s events ctx = Ok (RepairRequired r pending)
    \<Longrightarrow> repair_catalog_ancestry (en_block env t) r = Ok outcome
    \<Longrightarrow> reduce_catalog_repair ext s r pending outcome ctx' = Ok reduction \<Longrightarrow> reduced env ext s reduction"
| FromGap: "known_events env events \<Longrightarrow> reduce_catalog_page ext s events ctx = Ok (RepairRequired r pending)
    \<Longrightarrow> repair_catalog_ancestry (en_block env t) r = Ok outcome
    \<Longrightarrow> reduce_catalog_repair ext s r pending outcome ctx' = Ok (GapConfirmationRequired r' pending' outcome')
    \<Longrightarrow> confirms s (rq_lower_checkpoint r') confirmation
    \<Longrightarrow> confirm_catalog_repair_gap ext s r' pending' outcome' confirmation ctx'' = Ok reduction \<Longrightarrow> reduced env ext s reduction"

section \<open>The shape of a reduction\<close>

lemma page_commit_events:
  assumes "reduce_catalog_page ext s events ctx = Ok (Commit b remaining)"
  obtains accepted where "split_connected_events events = Ok (accepted, remaining)"
proof -
  have "\<exists>accepted. split_connected_events events = Ok (accepted, remaining)"
    using assms by (auto simp: reduce_catalog_page_def and_then_Ok Let_def split: if_splits option.splits)
  then show ?thesis using that by blast
qed

lemma gap_commit_events:
  assumes "confirm_catalog_repair_gap ext s r pending outcome confirmation ctx = Ok reduction"
  shows "\<exists>b remaining accepted recovered missing reason. reduction = Commit b remaining \<and> pending \<noteq> []
    \<and> outcome = Unresolved recovered missing reason
    \<and> split_connected_events (prepend_recovered_events recovered pending (le_snapshot (hd pending))) = Ok (accepted, remaining)
    \<and> validate_unresolved_repair r recovered missing (rq_upper_checkpoint r) = Ok ()
    \<and> rq_upper_checkpoint r = event_checkpoint (hd pending)"
  using assms by (auto simp: confirm_catalog_repair_gap_def open_disconnected_segment_def and_then_Ok Let_def
      split: if_splits repair_outcome.splits prod.splits)

lemma linked_take: "linked cs \<Longrightarrow> linked (take n cs)"
  by (metis append_take_drop_id linked_append)

lemma recovered_accepted:
  assumes split: "split_connected_events (prepend_recovered_events recovered pending chain) = Ok (a, rem)" and ne: "pending \<noteq> []"
    and l: "recovered \<noteq> [] \<Longrightarrow> linked (map lb_checkpoint recovered) \<and> links (top_of recovered) (event_checkpoint (hd pending))"
  shows "length rem < length pending"
proof (rule ccontr)
  let ?es = "prepend_recovered_events recovered pending chain"
  assume "\<not> length rem < length pending"
  moreover have es: "?es = a @ rem" "a \<noteq> []" using split_connected_events_Ok[OF split] by simp_all
  moreover have "length ?es = length recovered + length pending" by (simp add: prepend_recovered_events_def)
  ultimately have len: "length a \<le> length recovered" by simp
  have rem: "rem \<noteq> []" using \<open>\<not> length rem < length pending\<close> ne by (cases rem) auto
  have r: "recovered \<noteq> []" using len es(2) by auto
  let ?cs = "map lb_checkpoint recovered @ [event_checkpoint (hd pending)]"
  have linked: "linked ?cs" using l[OF r] r by (simp add: linked_append top_of_def last_map)
  have "map event_checkpoint ?es = map lb_checkpoint recovered @ map event_checkpoint pending"
    by (simp add: prepend_recovered_events_def comp_def)
  also have "\<dots> = ?cs @ map event_checkpoint (tl pending)" using ne by (cases pending) auto
  finally have m: "map event_checkpoint (a @ rem) = ?cs @ map event_checkpoint (tl pending)" using es(1) by simp
  have "map event_checkpoint (a @ [hd rem]) = take (length a + 1) (map event_checkpoint (a @ rem))"
    using rem by (cases rem) simp_all
  also have "\<dots> = take (length a + 1) ?cs" unfolding m by (subst take_append) (use len in simp)
  finally have "linked (map event_checkpoint (a @ [hd rem]))" using linked_take[OF linked] by (simp only:)
  then have "links (last (map event_checkpoint a)) (event_checkpoint (hd rem))" using es(2) by (simp add: linked_append)
  then show False using split_connected_events_Ok(4)[OF split rem] by simp
qed

text \<open>
  A repair either stores a page that ends inside the pending events, past the first of them, or asks for the
  confirmation of a gap below them.
\<close>

lemma repair_reduction:
  assumes page: "reduce_catalog_page ext s events ctx = Ok (RepairRequired r pending)"
    and red: "reduce_catalog_repair ext s r pending outcome ctx' = Ok reduction"
  shows "(\<exists>b remaining. reduction = Commit b remaining \<and> length remaining < length events
      \<and> set remaining \<subseteq> set events \<union> set (prepend_recovered_events (recovered_blocks outcome) [] (le_snapshot (hd events))))
    \<or> reduction = GapConfirmationRequired r events outcome"
proof -
  note req = page_request[OF page]
  show ?thesis
  proof (cases outcome)
    case (Connected recovered)
    let ?es = "prepend_recovered_events recovered events (le_snapshot (hd events))"
    have v: "validate_connected_repair r recovered = Ok ()" and r: "reduce_catalog_page ext s ?es ctx' = Ok reduction"
      using red req(1,2,4) by (simp_all add: reduce_catalog_repair_def Connected and_then_Ok)
    have first: "event_checkpoint (hd ?es) = (if recovered = [] then rq_upper_checkpoint r else floor_of recovered)"
      using req(4) by (cases recovered) (simp_all add: prepend_recovered_events_def floor_of_def)
    have ne: "?es \<noteq> []" using req(2) by (simp add: prepend_recovered_events_def)
    have "\<exists>b remaining. reduction = Commit b remaining"
    proof (cases "ingestion_cursor (cs_traversal s)")
      case None
      have "event_checkpoint (hd ?es) = floor_of recovered" "cp_slot (floor_of recovered) = 0"
        using connected_links(3)[OF v] req(3) None first by simp_all
      then show ?thesis using r ne None by (auto simp: reduce_catalog_page_def and_then_Ok Let_def split: if_splits)
    next
      case (Some cursor)
      have "cp_parent_id (event_checkpoint (hd ?es)) = br_block_id cursor"
        using connected_links(1)[OF v, of cursor] req(3) Some first by (simp split: if_splits)
      then show ?thesis using r ne Some by (auto simp: reduce_catalog_page_def and_then_Ok Let_def split: if_splits)
    qed
    then obtain b remaining where b: "reduction = Commit b remaining" by blast
    obtain accepted where sp: "split_connected_events ?es = Ok (accepted, remaining)"
      using page_commit_events[OF r[unfolded b]] by blast
    have "length remaining < length events"
      by (rule recovered_accepted[OF sp req(2)]) (use connected_links(2)[OF v] req(4) in simp)
    moreover have "set remaining \<subseteq> set ?es" using split_connected_events_Ok(1)[OF sp] by simp
    ultimately show ?thesis unfolding b by (intro disjI1 exI[of _ b] exI[of _ remaining])
        (auto simp: prepend_recovered_events_def Connected recovered_blocks_def)
  next
    case (Unresolved recovered missing reason)
    then show ?thesis using red req by (auto simp: reduce_catalog_repair_def and_then_Ok)
  qed
qed

text \<open>The rounds of the page loop that a reduction can still need.\<close>

fun rounds_left :: "'n page_reduction \<Rightarrow> nat" where
  "rounds_left NoProgress = 1"
| "rounds_left (Commit b remaining) = 3 * length remaining + 1"
| "rounds_left (RepairRequired r pending) = 3 * length pending"
| "rounds_left (GapConfirmationRequired r pending outcome) = 3 * length pending - 1"

lemma page_no_gap: "reduce_catalog_page ext s events ctx \<noteq> Ok (GapConfirmationRequired r pending outcome)"
  by (auto simp: reduce_catalog_page_def and_then_Ok Let_def split: if_splits option.splits)

lemma page_rounds:
  assumes "reduce_catalog_page ext s events ctx = Ok reduction"
  shows "rounds_left reduction \<le> 3 * length events + 1" "events \<noteq> [] \<Longrightarrow> rounds_left reduction \<le> 3 * length events"
    "events \<noteq> [] \<Longrightarrow> reduction \<noteq> NoProgress"
proof -
  have c: "length remaining < length events" if red: "reduction = Commit b remaining" for b remaining
  proof -
    obtain accepted where sp: "split_connected_events events = Ok (accepted, remaining)"
      using page_commit_events[OF assms[unfolded red]] by blast
    then show ?thesis using split_connected_events_Ok(1,2)[OF sp] by (cases accepted) auto
  qed
  have g: "reduction \<noteq> GapConfirmationRequired r pending outcome" for r pending outcome using page_no_gap assms by metis
  have n: "events \<noteq> [] \<Longrightarrow> reduction \<noteq> NoProgress"
    using assms by (auto simp: reduce_catalog_page_def and_then_Ok Let_def split: if_splits option.splits)
  show "rounds_left reduction \<le> 3 * length events + 1" "events \<noteq> [] \<Longrightarrow> rounds_left reduction \<le> 3 * length events"
    using c g n page_request(1)[of ext s events ctx] assms by (cases reduction; fastforce)+
  show "events \<noteq> [] \<Longrightarrow> reduction \<noteq> NoProgress" using n .
qed

section \<open>Where reductions come from\<close>

lemma recovered_known:
  assumes "repair_catalog_ancestry (en_block env t) r = Ok outcome"
  shows "\<forall>b \<in> set (recovered_blocks outcome). known_block env b"
proof -
  have "repair_loop (en_block env t) r (cp_parent_id (rq_upper_checkpoint r)) (cp_slot (rq_upper_checkpoint r)) [] [] = Ok outcome"
    using assms by (auto simp: repair_catalog_ancestry_def ok_simps)
  from repair_loop_served[OF this] show ?thesis by (auto simp: known_block_def)
qed

lemma known_prepended:
  assumes "known_events env pending" "\<forall>b \<in> set recovered. known_block env b"
  shows "known_events env (prepend_recovered_events recovered pending chain)"
  using assms by (auto simp: known_events_def prepend_recovered_events_def)

lemma known_subset: "known_events env es \<Longrightarrow> set rs \<subseteq> set es \<Longrightarrow> known_events env rs"
  by (auto simp: known_events_def)

lemma gap_reduction:
  assumes "reduce_catalog_page ext s events ctx = Ok (RepairRequired r pending)"
    and red: "confirm_catalog_repair_gap ext s r events outcome confirmation ctx'' = Ok reduction"
  shows "\<exists>b remaining. reduction = Commit b remaining \<and> length remaining < length events
    \<and> set remaining \<subseteq> set (prepend_recovered_events (recovered_blocks outcome) events (le_snapshot (hd events)))"
proof -
  obtain b remaining accepted recovered missing reason where g: "reduction = Commit b remaining" "events \<noteq> []"
    "outcome = Unresolved recovered missing reason"
    "split_connected_events (prepend_recovered_events recovered events (le_snapshot (hd events))) = Ok (accepted, remaining)"
    "validate_unresolved_repair r recovered missing (rq_upper_checkpoint r) = Ok ()"
    "rq_upper_checkpoint r = event_checkpoint (hd events)" using gap_commit_events[OF red] by blast
  have "length remaining < length events"
    by (rule recovered_accepted[OF g(4,2)]) (use unresolved_links[OF g(5)] g(6) in simp)
  moreover have "set remaining \<subseteq> set (prepend_recovered_events recovered events (le_snapshot (hd events)))"
    using split_connected_events_Ok(1)[OF g(4)] by simp
  ultimately show ?thesis using g(1,3) by (intro exI[of _ b] exI[of _ remaining]) (simp add: recovered_blocks_def)
qed

lemma reduced_commit:
  assumes "reduced env ext s (Commit b remaining)"
  shows "page_batch env ext s b \<and> known_events env remaining"
  using assms
proof cases
  case (FromPage events ctx)
  obtain accepted where "split_connected_events events = Ok (accepted, remaining)"
    using page_commit_events[OF FromPage(2)] by blast
  then have "known_events env remaining" using known_subset[OF FromPage(1)] split_connected_events_Ok(1) by fastforce
  then show ?thesis using PageBatch[OF FromPage] by simp
next
  case (FromRepair events ctx r pending t outcome ctx')
  have "known_events env (prepend_recovered_events (recovered_blocks outcome) events (le_snapshot (hd events)))"
    by (rule known_prepended[OF FromRepair(1) recovered_known[OF FromRepair(3)]])
  moreover have "set remaining \<subseteq> set (prepend_recovered_events (recovered_blocks outcome) events (le_snapshot (hd events)))"
    using repair_reduction[OF FromRepair(2,4)] by (auto simp: prepend_recovered_events_def)
  ultimately show ?thesis using RepairBatch[OF FromRepair] known_subset by blast
next
  case (FromGap events ctx r pending t outcome ctx' r' pending' outcome' confirmation ctx'')
  have eq: "r' = r" "pending' = events" "outcome' = outcome"
    using repair_reduction[OF FromGap(2,4)] by auto
  have "known_events env (prepend_recovered_events (recovered_blocks outcome) events (le_snapshot (hd events)))"
    by (rule known_prepended[OF FromGap(1) recovered_known[OF FromGap(3)]])
  then have "known_events env remaining"
    using gap_reduction[OF FromGap(2) FromGap(6)[unfolded eq]] known_subset by blast
  then show ?thesis using GapBatch[OF FromGap] by simp
qed

lemma reduced_repair:
  assumes "reduced env ext s (RepairRequired r pending)" "repair_catalog_ancestry (en_block env t) r = Ok outcome"
    "reduce_catalog_repair ext s r pending outcome ctx' = Ok reduction"
  shows "reduced env ext s reduction \<and> rounds_left reduction < rounds_left (RepairRequired r pending) \<and> reduction \<noteq> NoProgress"
  using assms(1)
proof cases
  case (FromPage events ctx)
  have p: "pending = events" "events \<noteq> []" using page_request(1,2)[OF FromPage(2)] by simp_all
  have "rounds_left reduction < rounds_left (RepairRequired r pending) \<and> reduction \<noteq> NoProgress"
    using repair_reduction[OF FromPage(2) assms(3)] p by (cases events) auto
  then show ?thesis using reduced.FromRepair[OF FromPage assms(2,3)] by simp
next
  case (FromRepair events ctx r' pending' t outcome' ctx'')
  then show ?thesis using repair_reduction[OF FromRepair(2,4)] by auto
next
  case (FromGap events ctx r' pending' t outcome' ctx'' r'' pending'' outcome'' confirmation c)
  then show ?thesis using gap_commit_events[OF FromGap(6)] by auto
qed

lemma reduced_gap:
  assumes "reduced env ext s (GapConfirmationRequired r pending outcome)" "confirms s (rq_lower_checkpoint r) confirmation"
    "confirm_catalog_repair_gap ext s r pending outcome confirmation ctx'' = Ok reduction"
  shows "reduced env ext s reduction \<and> rounds_left reduction < rounds_left (GapConfirmationRequired r pending outcome)
    \<and> reduction \<noteq> NoProgress"
  using assms(1)
proof cases
  case (FromPage events ctx)
  then show ?thesis using page_no_gap[of ext s events ctx] by simp
next
  case (FromRepair events ctx r' pending' t outcome' ctx')
  have eq: "r = r'" "pending = events" "outcome = outcome'" using repair_reduction[OF FromRepair(2,4)] by auto
  obtain b remaining where "reduction = Commit b remaining" "length remaining < length events"
    using gap_reduction[OF FromRepair(2) assms(3)[unfolded eq]] by blast
  then have "rounds_left reduction < rounds_left (GapConfirmationRequired r pending outcome) \<and> reduction \<noteq> NoProgress"
    by (cases events) (auto simp: eq)
  then show ?thesis using reduced.FromGap[OF FromRepair(1-4) assms(2,3)] by simp
next
  case (FromGap events ctx r' pending' t outcome' ctx' r'' pending'' outcome'' confirmation' c)
  then show ?thesis using gap_commit_events[OF FromGap(6)] by auto
qed

lemma reduced_rounds: "reduced env ext s reduction \<Longrightarrow> 0 < rounds_left reduction"
proof (induction rule: reduced.induct)
  case (FromPage events ctx reduction)
  show ?case
  proof (cases reduction)
    case (RepairRequired r pending)
    then show ?thesis using page_request(1,2)[OF FromPage(2)[unfolded RepairRequired]] by simp
  next
    case (GapConfirmationRequired r pending outcome)
    then show ?thesis using page_no_gap[of ext s events ctx r pending outcome] FromPage(2) by simp
  qed simp_all
next
  case (FromRepair events ctx r pending t outcome ctx' reduction)
  then show ?case using repair_reduction[OF FromRepair(2,4)] page_request(1,2)[OF FromRepair(2)] by (cases events) auto
next
  case (FromGap events ctx r pending t outcome ctx' r' pending' outcome' confirmation ctx'' reduction)
  then show ?case using gap_commit_events[OF FromGap(6)] by auto
qed

section \<open>Reading the source changes nothing\<close>

lemma untouched_split:
  "(\<And>x. v = Some x \<Longrightarrow> untouched (f x)) \<Longrightarrow> (v = None \<Longrightarrow> untouched g) \<Longrightarrow> untouched (case v of None \<Rightarrow> g | Some x \<Rightarrow> f x)"
  by (cases v) auto

lemma untouched_checks: "untouched (verify_checks env lib checks)"
  by (induction checks) (auto intro!: untouched_bind untouched_split)

lemma untouched_verify: "untouched (verify_catalog_candidate env s)"
  unfolding verify_catalog_candidate_def verify_reported_def verify_genesis_time_def Let_def
  by (auto intro!: untouched_bind untouched_split untouched_checks)

lemma untouched_worker [simp]:
  "untouched (engine_context_for env s)" "untouched (repair_ancestry_run env r)" "untouched (reduce_page_run env ext s events)"
  "untouched (wait_for_retry env d)"
  unfolding engine_context_for_def repair_ancestry_run_def reduce_page_run_def wait_for_retry_def
  by (auto intro!: untouched_bind)

lemma untouched_confirm: "untouched (confirm_current_catalog env s lower)"
  unfolding confirm_current_catalog_def by (auto intro!: untouched_bind untouched_verify)

lemma confirm_confirms: "confirm_current_catalog env s lower st = (Ok c, st') \<Longrightarrow> confirms s lower c"
  by (auto simp: confirm_current_catalog_def confirms_def ok_simps)

section \<open>Properties of the stored catalog that the worker keeps\<close>

text \<open>The cursor moved to a higher slot.\<close>

definition later :: "catalog_snapshot \<Rightarrow> catalog_snapshot \<Rightarrow> bool" where
  "later s s' \<longleftrightarrow> (\<exists>m. cursor_slot s' = Some m \<and> is_none_or (cursor_slot s) (\<lambda>n. n < m))"

lemma later_trans: "later s t \<Longrightarrow> later t u \<Longrightarrow> later s u"
  by (auto simp: later_def is_none_or_def split: option.splits)

lemma spec_outcome:
  "spec (held good s) (repair_ancestry_run env r)
    (\<lambda>outcome st ps. (\<exists>t. repair_catalog_ancestry (en_block env t) r = Ok outcome) \<and> held good s st ps) (kept good)"
  by (rule spec_value) (auto simp: repair_ancestry_run_def observe_def map_err_Ok)

lemma spec_confirm:
  "spec (held good s) (confirm_current_catalog env s lower) (\<lambda>c st ps. confirms s lower c \<and> held good s st ps) (kept good)"
  by (rule spec_value[OF untouched_confirm confirm_confirms])

lemma spec_range:
  "spec (held good s) (finalized_range env request) (\<lambda>events st ps. known_events env events \<and> held good s st ps) (kept good)"
  by (rule spec_value) (force simp: finalized_range_def observe_def map_err_Ok known_events_def known_block_def)+

lemma spec_some:
  "(\<And>s'. P s' \<Longrightarrow> spec (held good s') (f (Some s')) B E)
    \<Longrightarrow> spec (\<lambda>st ps. \<exists>s'. r = Some s' \<and> P s' \<and> held good s' st ps) (f r) B E"
  by (auto simp: spec_def)

text \<open>The two branches of the page loop that ask the source before they reduce again.\<close>

lemma repair_branch:
  assumes red: "reduced env ext s (RepairRequired r pending)"
    and continue: "\<And>red. reduced env ext s red \<and> rounds_left red < 3 * length pending \<and> red \<noteq> NoProgress
      \<Longrightarrow> spec (held good s) (k red) B (kept good)"
  shows "spec (held good s) (run_bind (repair_ancestry_run env r) (\<lambda>outcome.
      run_bind (ensure_current env) (\<lambda>_.
      run_bind (engine_context_for env s) (\<lambda>ctx.
      run_bind (run_result (map_err map_engine_error (reduce_catalog_repair ext s r pending outcome ctx))) k)))) B (kept good)"
proof (rule spec_bind[OF spec_outcome], rule spec_fact,
    rule spec_bind[OF spec_held], simp, rule spec_bind[OF spec_held], simp, rule spec_bind[OF spec_pure], rule spec_fact)
  fix outcome ctx red'
  assume "\<exists>t. repair_catalog_ancestry (en_block env t) r = Ok outcome"
    "map_err map_engine_error (reduce_catalog_repair ext s r pending outcome ctx) = Ok red'"
  then have "reduced env ext s red' \<and> rounds_left red' < 3 * length pending \<and> red' \<noteq> NoProgress"
    using reduced_repair[OF red] unfolding map_err_Ok by auto
  then show "spec (held good s) (k red') B (kept good)" by (rule continue)
qed

lemma gap_branch:
  assumes red: "reduced env ext s (GapConfirmationRequired r pending outcome)"
    and continue: "\<And>red. reduced env ext s red \<and> rounds_left red < 3 * length pending - 1 \<and> red \<noteq> NoProgress
      \<Longrightarrow> spec (held good s) (k red) B (kept good)"
  shows "spec (held good s) (run_bind (confirm_current_catalog env s (rq_lower_checkpoint r)) (\<lambda>confirmation.
      run_bind (engine_context_for env s) (\<lambda>ctx.
      run_bind (run_result (map_err map_engine_error
        (confirm_catalog_repair_gap ext s r pending outcome confirmation ctx))) k))) B (kept good)"
proof (rule spec_bind[OF spec_confirm], rule spec_fact, rule spec_bind[OF spec_held], simp, rule spec_bind[OF spec_pure], rule spec_fact)
  fix confirmation ctx red'
  assume "confirms s (rq_lower_checkpoint r) confirmation"
    "map_err map_engine_error (confirm_catalog_repair_gap ext s r pending outcome confirmation ctx) = Ok red'"
  then have "reduced env ext s red' \<and> rounds_left red' < 3 * length pending - 1 \<and> red' \<noteq> NoProgress"
    using reduced_gap[OF red] unfolding map_err_Ok by auto
  then show "spec (held good s) (k red') B (kept good)" by (rule continue)
qed

lemma next_page_branch:
  assumes "known_events env remaining" "remaining \<noteq> []"
    and continue: "\<And>red. reduced env ext s red \<and> rounds_left red \<le> 3 * length remaining \<and> red \<noteq> NoProgress
      \<Longrightarrow> spec (held good s) (k red) B (kept good)"
  shows "spec (held good s) (run_bind (reduce_page_run env ext s remaining) k) B (kept good)"
proof (rule spec_bind[OF spec_value[where P = "\<lambda>red. reduced env ext s red \<and> rounds_left red \<le> 3 * length remaining \<and> red \<noteq> NoProgress"]])
  fix st red st' assume "reduce_page_run env ext s remaining st = (Ok red, st')"
  then obtain ctx where r: "reduce_catalog_page ext s remaining ctx = Ok red" by (auto simp: reduce_page_run_def ok_simps)
  then show "reduced env ext s red \<and> rounds_left red \<le> 3 * length remaining \<and> red \<noteq> NoProgress"
    using page_rounds(2,3)[OF r assms(2)] reduced.FromPage[OF assms(1) r] by simp
qed (simp, rule spec_fact, rule continue)

locale catalog_keeper =
  fixes env :: "'n environment" and ext :: "'n externals" and good :: "catalog_store \<Rightarrow> catalog_snapshot \<Rightarrow> bool"
  assumes committed: "good st s \<Longrightarrow> worker_batch env ext s b
      \<Longrightarrow> commit_batch_from_snapshot (en_codecs env) st s b = Ok (st', s') \<Longrightarrow> good st' s'"
    and advanced: "good st s \<Longrightarrow> page_batch env ext s b
      \<Longrightarrow> commit_batch_from_snapshot (en_codecs env) st s b = Ok (st', s') \<Longrightarrow> later s s'"
    and updated: "good st s \<Longrightarrow> update_metadata (en_codecs env) st revision now update = Ok (st', s') \<Longrightarrow> good st' s'"
    and reread: "good st s \<Longrightarrow> snapshot (en_codecs env) st = Ok s' \<Longrightarrow> s' = s"
begin

lemma commit_spec:
  assumes "worker_batch env ext s b"
  shows "spec (held good s) (commit_catalog_batch env s b)
    (\<lambda>s' st ps. (page_batch env ext s b \<longrightarrow> later s s') \<and> held good s' st ps) (kept good)"
  unfolding commit_catalog_batch_def
  by (rule spec_blocking) (use committed[OF _ assms] advanced in \<open>auto simp: held_def kept_def\<close>)

lemma commit_branch:
  assumes red: "reduced env ext s (Commit b remaining)"
    and continue: "\<And>s' red. reduced env ext s' red \<and> rounds_left red \<le> 3 * length remaining \<and> red \<noteq> NoProgress
      \<Longrightarrow> spec (held good s') (k s' red) (\<lambda>r st ps. \<exists>s''. r = Some s'' \<and> later s' s'' \<and> held good s'' st ps) (kept good)"
  shows "spec (held good s) (run_bind (commit_catalog_batch env s b) (\<lambda>s'.
      run_bind (publish_verified env s') (\<lambda>_.
      if remaining = [] then run_return (Some s') else run_bind (reduce_page_run env ext s' remaining) (k s'))))
    (\<lambda>r st ps. \<exists>s''. r = Some s'' \<and> later s s'' \<and> held good s'' st ps) (kept good)"
proof -
  have pb: "page_batch env ext s b" "known_events env remaining" using reduced_commit[OF red] by blast+
  show ?thesis
  proof (rule spec_bind[OF commit_spec[OF PagesBatch[OF pb(1)]]], rule spec_fact, rule spec_bind[OF spec_publish_verified])
    fix s' assume l: "page_batch env ext s b \<longrightarrow> later s s'"
    show "spec (held good s') (if remaining = [] then run_return (Some s')
        else run_bind (reduce_page_run env ext s' remaining) (k s'))
      (\<lambda>r st ps. \<exists>s''. r = Some s'' \<and> later s s'' \<and> held good s'' st ps) (kept good)"
    proof (cases "remaining = []")
      case True
      then show ?thesis using l pb(1) by (auto intro: spec_return)
    next
      case False
      note np = next_page_branch[OF pb(2) False continue]
      show ?thesis unfolding if_not_P[OF False] by (rule spec_weaken[OF np]) (use l pb(1) later_trans in blast)+
    qed
  qed
qed

lemma page_loop_spec:
  assumes "reduced env ext s reduction" "rounds_left reduction \<le> fuel"
  shows "spec (held good s) (page_loop fuel env ext s reduction)
    (\<lambda>r st ps. \<exists>s'. r = Some s' \<and> (reduction \<noteq> NoProgress \<longrightarrow> later s s') \<and> held good s' st ps) (kept good)"
  using assms
proof (induction fuel arbitrary: s reduction)
  case 0
  then show ?case using reduced_rounds[of env ext s reduction] by simp
next
  case (Suc fuel)
  have IH: "spec (held good s) (page_loop fuel env ext s red)
      (\<lambda>r st ps. \<exists>s'. r = Some s' \<and> later s s' \<and> held good s' st ps) (kept good)"
    if "reduced env ext s red \<and> rounds_left red \<le> n \<and> red \<noteq> NoProgress" "n \<le> fuel" for s red n
    by (rule spec_weaken[OF Suc.IH]) (use that in auto)
  show ?case unfolding page_loop.simps
  proof (rule spec_bind[OF spec_held], simp, cases reduction, goal_cases)
    case 1
    then show ?case by (auto intro: spec_return)
  next
    case (2 x b remaining)
    have "3 * length remaining \<le> fuel" using Suc.prems(2) 2 by simp
    then show ?case unfolding 2 page_reduction.case
      by (intro spec_weaken[OF commit_branch[OF Suc.prems(1)[unfolded 2] IH]]) auto
  next
    case (3 x r pending)
    have "3 * length pending - 1 \<le> fuel" using Suc.prems(2) 3 by simp
    then show ?case unfolding 3 page_reduction.case
      by (intro spec_weaken[OF repair_branch[OF Suc.prems(1)[unfolded 3] IH]]) auto
  next
    case (4 x r pending outcome)
    have "3 * length pending - 2 \<le> fuel" using Suc.prems(2) 4 by simp
    then show ?case unfolding 4 page_reduction.case
      by (intro spec_weaken[OF gap_branch[OF Suc.prems(1)[unfolded 4] IH]]) auto
  qed
qed

end

section \<open>The scan\<close>

lemma prepared_batch:
  "prepare_resumed_catalog_catch_up s target ctx = Ok (Some b) \<Longrightarrow> worker_batch env ext s b"
  "prepare_catalog_catch_up s target ctx = Ok (Some b) \<Longrightarrow> worker_batch env ext s b"
  by (auto simp: prepare_resumed_catalog_catch_up_def prepare_catalog_catch_up_def intro: CatchUpBatch)

text \<open>The rounds of the inner loop that the cursor leaves below the target.\<close>

definition slots_left :: "block_reference \<Rightarrow> catalog_snapshot \<Rightarrow> nat" where
  "slots_left target s = (case cursor_slot s of
     None \<Rightarrow> unat (br_slot target) + 3 | Some n \<Rightarrow> unat (br_slot target) + 2 - unat n)"

lemma later_slots_left:
  assumes "later s s'" "\<And>n. cursor_slot s = Some n \<Longrightarrow> unat n \<le> unat (br_slot target)"
  shows "slots_left target s' < slots_left target s"
proof -
  obtain m where m: "cursor_slot s' = Some m" "is_none_or (cursor_slot s) (\<lambda>n. n < m)" using assms(1) by (auto simp: later_def)
  show ?thesis
  proof (cases "cursor_slot s")
    case None
    then show ?thesis using m by (simp add: slots_left_def)
  next
    case (Some n)
    then have "unat n < unat m" "unat n \<le> unat (br_slot target)" using m assms(2) by (simp_all add: word_less_nat_alt)
    then show ?thesis using m Some by (simp add: slots_left_def)
  qed
qed

lemma request_below_target:
  assumes "range_request_new (case ingestion_cursor (cs_traversal s) of None \<Rightarrow> 0 | Some c \<Rightarrow> saturating_add (br_slot c) 1) target limit = Ok r"
    "cursor_slot s = Some n"
  shows "unat n \<le> unat (br_slot target)"
proof -
  obtain c where c: "ingestion_cursor (cs_traversal s) = Some c" "n = br_slot c" using assms(2) by (auto simp: cursor_slot_def)
  then have "saturating_add n 1 \<le> br_slot target"
    using assms(1) by (auto simp: range_request_new_def canonical_block_reference_def and_then_Ok split: if_splits)
  moreover have "n \<le> saturating_add n 1"
  proof (cases "unat n + unat (1 :: u64) < 2 ^ LENGTH(64)")
    case True
    then show ?thesis by (simp add: saturating_add_def word_le_nat_alt unat_word_ariths)
  next
    case False
    then show ?thesis unfolding saturating_add_def by (simp only: if_False) simp
  qed
  ultimately show ?thesis by (simp add: word_le_nat_alt)
qed

context catalog_keeper
begin

lemma apply_page_spec:
  assumes "known_events env events" "events \<noteq> []"
  shows "spec (held good s) (apply_catalog_page env ext s events)
    (\<lambda>r st ps. \<exists>s'. r = Some s' \<and> later s s' \<and> held good s' st ps) (kept good)"
  unfolding apply_catalog_page_def
  by (rule next_page_branch[OF assms]) (rule spec_weaken[OF page_loop_spec], auto)

lemma prepare_cycle_spec:
  "spec (held good s) (prepare_cycle env first s target) (\<lambda>r. held good (fst r)) (kept good)"
  unfolding prepare_cycle_def
proof (rule spec_bind[OF spec_held], simp, rule spec_bind[OF spec_pure], rule spec_fact)
  fix ctx prepared
  assume p: "map_err map_engine_error (if first then prepare_resumed_catalog_catch_up s target ctx
    else prepare_catalog_catch_up s target ctx) = Ok prepared"
  show "spec (held good s) (case prepared of None \<Rightarrow> run_return (s, False)
     | Some b \<Rightarrow> run_bind (commit_catalog_batch env s b) (\<lambda>s'. run_bind (publish_verified env s') (\<lambda>_. run_return (s', True))))
    (\<lambda>r. held good (fst r)) (kept good)"
  proof (cases prepared)
    case None
    then show ?thesis by (auto intro: spec_return)
  next
    case (Some b)
    have "worker_batch env ext s b" using p prepared_batch unfolding Some map_err_Ok by (auto split: if_splits)
    from commit_spec[OF this] show ?thesis unfolding Some option.case
    proof (rule spec_bind, rule_tac spec_fact)
      fix s'
      show "spec (held good s') (run_bind (publish_verified env s') (\<lambda>_. run_return (s', True))) (\<lambda>r. held good (fst r)) (kept good)"
        by (rule spec_bind[OF spec_publish_verified]) (auto intro: spec_return)
    qed
  qed
qed

lemma commit_held:
  "worker_batch env ext s b \<Longrightarrow> spec (held good s) (commit_catalog_batch env s b) (\<lambda>s'. held good s') (kept good)"
  by (rule spec_weaken[OF commit_spec]) auto

lemma prefix_repair_spec:
  "spec (held good s) (run_bind (run_result (map_err map_engine_error (catalog_prefix_repair_request s initial))) (\<lambda>request.
     run_bind (repair_ancestry_run env request) (\<lambda>outcome.
     run_bind (ensure_current env) (\<lambda>_.
     run_bind (confirm_current_catalog env s None) (\<lambda>confirmation.
     run_bind (engine_context_for env s) (\<lambda>ctx.
     run_bind (run_result (map_err map_engine_error (reduce_catalog_prefix_repair ext s outcome confirmation ctx))) (\<lambda>batch.
     case batch of None \<Rightarrow> run_return s | Some b \<Rightarrow> commit_catalog_batch env s b)))))))
   (held good) (kept good)"
proof (rule spec_bind[OF spec_pure], rule spec_fact, rule spec_bind[OF spec_outcome], rule spec_fact, rule spec_bind[OF spec_held], simp,
    rule spec_bind[OF spec_confirm], rule spec_fact, rule spec_bind[OF spec_held], simp,
    rule spec_bind[OF spec_pure], rule spec_fact)
  fix r outcome confirmation ctx batch
  assume a: "map_err map_engine_error (catalog_prefix_repair_request s initial) = Ok r"
    "\<exists>t. repair_catalog_ancestry (en_block env t) r = Ok outcome" "confirms s None confirmation"
    "map_err map_engine_error (reduce_catalog_prefix_repair ext s outcome confirmation ctx) = Ok batch"
  show "spec (held good s) (case batch of None \<Rightarrow> run_return s | Some b \<Rightarrow> commit_catalog_batch env s b) (held good) (kept good)"
  proof (cases batch)
    case (Some b)
    have "worker_batch env ext s b" using a PrefixBatch unfolding Some map_err_Ok by blast
    then show ?thesis using commit_held Some by simp
  qed (auto intro: spec_return)
qed

lemma gap_repair_spec:
  assumes "cs_gaps s = gap # gaps"
  shows "spec (held good s)
    (run_bind (run_result (map_err map_engine_error (catalog_gap_repair_request s (gp_gap_id gap) initial))) (\<lambda>request.
     run_bind (repair_ancestry_run env request) (\<lambda>outcome.
     run_bind (ensure_current env) (\<lambda>_.
     run_bind (confirm_current_catalog env s (Some (gp_lower_checkpoint gap))) (\<lambda>confirmation.
     run_bind (engine_context_for env s) (\<lambda>ctx.
     run_bind (run_result (map_err map_engine_error
         (reduce_catalog_gap_repair ext s (gp_gap_id gap) outcome confirmation ctx))) (\<lambda>b.
     commit_catalog_batch env s b)))))))
   (held good) (kept good)"
proof (rule spec_bind[OF spec_pure], rule spec_fact, rule spec_bind[OF spec_outcome], rule spec_fact, rule spec_bind[OF spec_held], simp,
    rule spec_bind[OF spec_confirm], rule spec_fact, rule spec_bind[OF spec_held], simp,
    rule spec_bind[OF spec_pure], rule spec_fact)
  fix r outcome confirmation ctx b
  assume a: "map_err map_engine_error (catalog_gap_repair_request s (gp_gap_id gap) initial) = Ok r"
    "\<exists>t. repair_catalog_ancestry (en_block env t) r = Ok outcome" "confirms s (Some (gp_lower_checkpoint gap)) confirmation"
    "map_err map_engine_error (reduce_catalog_gap_repair ext s (gp_gap_id gap) outcome confirmation ctx) = Ok b"
  show "spec (held good s) (commit_catalog_batch env s b) (held good) (kept good)"
    by (rule commit_held) (use a GapRepairBatch[OF assms] in \<open>unfold map_err_Ok, blast\<close>)
qed

lemma repair_one_spec:
  "spec (held good s) (repair_one_catalog_gap env ext s) (held good) (kept good)"
  unfolding repair_one_catalog_gap_def
proof (rule spec_bind[OF spec_held], simp, goal_cases)
  case (1 initial)
  show ?case
    by (cases "is_some_and (cs_frontier s) (\<lambda>f. fr_prefix_status f = PrefixUnavailable)"; cases "cs_gaps s")
      (simp_all add: prefix_repair_spec gap_repair_spec spec_return)
qed

lemma ingest_spec:
  assumes "slots_left target s < fuel"
  shows "spec (held good s) (ingest_loop fuel env ext target s progress)
    (\<lambda>r st ps. \<exists>s' progress'. r = Some (s', progress') \<and> held good s' st ps) (kept good)"
  using assms
proof (induction fuel arbitrary: s progress)
  case (Suc fuel)
  let ?B = "\<lambda>r st ps. \<exists>s' progress'. r = Some (s', progress') \<and> held good s' st ps"
  show ?case unfolding ingest_loop.simps
  proof (rule spec_bind[OF spec_held], simp, goal_cases)
    case 1
    show ?case
    proof (cases "cursor_is s target")
      case True
      then show ?thesis by (auto intro: spec_return)
    next
      case False
      show ?thesis unfolding if_not_P[OF False] Let_def
      proof (rule spec_bind[OF spec_pure], rule spec_fact, rule spec_bind[OF spec_range], rule spec_fact,
          rule spec_bind[OF spec_held], simp, goal_cases)
        case (1 request events u)
        show ?case
        proof (cases "events = []")
          case True
          then show ?thesis by (auto intro: spec_return)
        next
          case ne: False
          show ?thesis unfolding if_not_P[OF ne]
          proof (rule spec_bind[OF apply_page_spec[OF 1(2) ne]], rule spec_some, goal_cases)
            case (1 applied s')
            have "slots_left target s' < fuel"
              using later_slots_left[OF 1] request_below_target[of s target] \<open>map_err _ _ = Ok request\<close> Suc.prems
              unfolding map_err_Ok by fastforce
            from Suc.IH[OF this] show ?case unfolding option.case
              by (intro spec_bind[OF spec_held]) auto
          qed
        qed
      qed
    qed
  qed
qed simp

lemma repair_round_spec:
  "spec (held good s) (repair_round env ext next_repair s progress) (\<lambda>r. held good (fst r)) (kept good)"
  unfolding repair_round_def
proof (rule spec_bind[OF spec_held], simp, goal_cases)
  case (1 now)
  have "spec (held good s) (run_bind (repair_one_catalog_gap env ext s) (\<lambda>s'.
      let next_repair = saturating_add now CATALOG_REPAIR_INTERVAL_SECONDS in
      if cm_catalog_revision (cs_metadata s') \<noteq> cm_catalog_revision (cs_metadata s)
      then run_bind (publish_verified env s') (\<lambda>_. run_return (s', True, next_repair))
      else run_return (s', progress, next_repair))) (\<lambda>r. held good (fst r)) (kept good)"
    by (rule spec_bind[OF repair_one_spec]) (auto simp: Let_def intro!: spec_return spec_bind[OF spec_publish_verified])
  then show ?case by (auto intro: spec_return)
qed

lemma poll_delay_spec: "spec (held good s) (catalog_poll_delay env s target progress round) (\<lambda>_. held good s) (kept good)"
  unfolding catalog_poll_delay_def publish_verified_def Let_def
  by (auto intro!: spec_bind[where R = "\<lambda>_. held good s"] spec_return spec_publish)

lemma scan_cycle_spec:
  "spec (held good (sc_snapshot sc)) (scan_cycle env ext sc)
    (\<lambda>r st ps. \<exists>sc'. r = Some sc' \<and> held good (sc_snapshot sc') st ps) (kept good)"
  unfolding scan_cycle_def Let_def
proof (rule spec_bind[OF spec_held], simp, rule spec_bind[OF spec_held], simp, rule spec_bind[OF spec_held], simp,
    rule spec_bind[OF prepare_cycle_spec], unfold case_prod_beta, goal_cases)
  case (1 u status v prepared)
  let ?target = "ls_lib (ct_snapshot status)"
  have "slots_left ?target (fst prepared) < unat (br_slot ?target) + 4"
    by (auto simp: slots_left_def split: option.splits)
  from ingest_spec[OF this] show ?case
  proof (rule spec_bind, goal_cases)
    case (1 ingested)
    show ?case
    proof (cases ingested)
      case None
      then show ?thesis by (auto simp: spec_def)
    next
      case (Some sp)
      have "spec (held good (fst sp)) (case sp of (s, progress) \<Rightarrow>
          run_bind (repair_round env ext (sc_next_repair_at_unix sc) s progress) (\<lambda>p.
          run_bind (catalog_poll_delay env (fst p) ?target (fst (snd p)) (sc_no_progress_round sc)) (\<lambda>q.
          run_bind (wait_for_retry env (fst q)) (\<lambda>_.
          run_return (Some \<lparr>sc_next_repair_at_unix = snd (snd p), sc_no_progress_round = snd q,
            sc_first_scan_cycle = False, sc_snapshot = fst p\<rparr>)))))
        (\<lambda>r st ps. \<exists>sc'. r = Some sc' \<and> held good (sc_snapshot sc') st ps) (kept good)"
        unfolding case_prod_beta
        by (rule spec_bind[OF repair_round_spec], rule spec_bind[OF poll_delay_spec], rule spec_bind[OF spec_held], simp)
          (rule spec_return, auto)
      then show ?thesis unfolding Some option.case case_prod_beta by (rule spec_weaken) auto
    qed
  qed
qed

lemma scan_cycles_spec:
  "spec (held good (sc_snapshot sc)) (scan_cycles n env ext sc)
    (\<lambda>r st ps. \<exists>sc'. r = Some sc' \<and> held good (sc_snapshot sc') st ps) (kept good)"
proof (induction n arbitrary: sc)
  case 0
  then show ?case by (auto intro: spec_return)
next
  case (Suc n)
  show ?case unfolding scan_cycles.simps
  proof (rule spec_bind[OF scan_cycle_spec], goal_cases)
    case (1 r)
    show ?case
    proof (cases r)
      case None
      then show ?thesis by (auto simp: spec_def)
    next
      case (Some sc')
      then show ?thesis using Suc by (auto intro: spec_weaken)
    qed
  qed
qed

lemma snapshot_spec: "spec (held good s) (catalog_snapshot_of env) (\<lambda>s' st ps. s' = s \<and> held good s st ps) (kept good)"
  by (rule spec_snapshot) (rule reread)

lemma run_scan_spec:
  "spec (held good s) (run_catalog_scan n env ext)
    (\<lambda>r st ps. \<exists>sc'. r = Some sc' \<and> held good (sc_snapshot sc') st ps) (kept good)"
  unfolding run_catalog_scan_def
proof (rule spec_bind[OF snapshot_spec], rule spec_fact, goal_cases)
  case (1 s')
  then show ?case using scan_cycles_spec[of "scan_start s"] by (simp add: scan_start_def)
qed

end

end
