(* ===== verification/Worker_Properties.thy ===== *)
theory Worker_Properties
  imports Worker_Safety
begin

text \<open>
  The worker keeps the stored catalog reachable and publishes only reachable catalogs as verified, its loops end,
  and it never closes a gap: the confirmation it builds names the lowest segment's frontier where the engine
  requires the upper segment's. Both invariants are interpretations of \<open>catalog_keeper\<close>.
\<close>

section \<open>The batches of the worker are steps of the catalog\<close>

definition env_serves :: "(string \<Rightarrow> 'n l1_block option) \<Rightarrow> 'n environment \<Rightarrow> bool" where
  "env_serves U env \<longleftrightarrow> (\<forall>b. known_block env b \<longrightarrow> in_universe U b)"

lemma env_serves_source: "env_serves U env \<Longrightarrow> serves U (en_block env t)"
  by (auto simp: env_serves_def serves_def known_block_def)

lemma env_serves_events: "env_serves U env \<Longrightarrow> known_events env events \<Longrightarrow> served_events U events"
  by (auto simp: env_serves_def known_events_def)

lemma latest_checkpoint_top:
  assumes "covered ext U rs gs s" "latest_catalog_checkpoint s = Some c" "fr \<in> set rs"
  shows "c = top_of (snd (hd rs))"
  using coversD(11)[OF coveredD(2)[OF assms(1)]] assms(2,3)
  by (cases rs) (auto simp: frontier_ok_def latest_catalog_checkpoint_def from_snapshot_simps)

lemma gap_repair_upper:
  assumes c: "covered ext U rs gs s" and red: "reduce_catalog_gap_repair ext s gap_id outcome confirmation ctx = Ok b"
  obtains xs r q ys where "rs = xs @ r # q # ys"
    "\<And>bs. outcome = Connected bs \<Longrightarrow> is_some_and (rc_upper_frontier_checkpoint confirmation) (\<lambda>c. cp_block_id c = cp_block_id (top_of (snd q)))"
proof -
  let ?w = "from_snapshot s"
  note d = coveredD[OF c] and cv = coversD[OF coveredD(2)[OF c]]
  obtain gap upper where gap: "bt_get (wk_gaps ?w) gap_id = Some gap"
    and upper: "bt_get (wk_segments ?w) (gp_upper_segment_id gap) = Some upper"
    and conf: "\<And>bs. outcome = Connected bs \<Longrightarrow>
      is_some_and (rc_upper_frontier_checkpoint confirmation) (\<lambda>c. cp_block_id c = br_block_id (sg_frontier upper))"
    using red unfolding reduce_catalog_gap_repair_def Let_def
    by (cases outcome) (auto simp: ok_simps split: if_splits)
  obtain xs r q ys gs1 gs2 where at: "rs = xs @ r # q # ys" "joins r q gap"
    by (rule joined_at[OF cv(3) covers_gap(1)[OF d(2) gap]])
  have "upper = run_segment (target_of ?w) q"
    using upper covers_segment[OF d(2), of q] at by (simp add: joins_def)
  then show ?thesis using that[OF at(1)] conf by (simp add: top_reference_def block_reference_of_def)
qed

lemma worker_gap_not_connected:
  assumes c: "covered ext U rs gs s" and conf: "confirms s lower confirmation"
    and red: "reduce_catalog_gap_repair ext s gap_id outcome confirmation ctx = Ok b"
  shows "outcome \<noteq> Connected bs"
proof
  assume o: "outcome = Connected bs"
  obtain xs r q ys where rs: "rs = xs @ r # q # ys"
    and up: "is_some_and (rc_upper_frontier_checkpoint confirmation) (\<lambda>c. cp_block_id c = cp_block_id (top_of (snd q)))"
    using gap_repair_upper[OF c red] o by metis
  then obtain k where k: "latest_catalog_checkpoint s = Some k" "cp_block_id k = cp_block_id (top_of (snd q))"
    using conf by (auto simp: confirms_def is_some_and_def split: option.splits)
  have "k = top_of (snd (hd rs))" by (rule latest_checkpoint_top[OF c k(1), of q]) (simp add: rs)
  moreover have first: "hd rs \<in> set (xs @ [r])" by (cases xs) (simp_all add: rs)
  moreover have "hd rs \<in> set rs" "q \<in> set rs" using first by (auto simp: rs)
  ultimately have "hd rs = q"
    using k(2) runs_same_top[OF covers_sorted[OF coveredD(2)[OF c]] coversD(1)[OF coveredD(2)[OF c]]] by blast
  moreover have "q \<notin> set (xs @ [r])" using coversD(2)[OF coveredD(2)[OF c]] by (auto simp: rs)
  ultimately show False using first by simp
qed

text \<open>The checkpoint in the worker's confirmation is a block of the catalog: the top of its lowest run.\<close>

lemma confirmed_known:
  assumes c: "covered ext U rs gs s" and gap: "cs_gaps s = gap # gaps" and conf: "confirms s lower confirmation"
    and k: "rc_upper_frontier_checkpoint confirmation = Some k"
  shows "known_checkpoint U k"
proof -
  have ne: "rs \<noteq> []" using gap coveredD(6)[OF c] coversD(3)[OF coveredD(2)[OF c]] by (cases rs) auto
  have "latest_catalog_checkpoint s = Some k" using conf k by (simp add: confirms_def)
  then have "k = top_of (snd (hd rs))" using latest_checkpoint_top[OF c] ne hd_in_set by blast
  then show ?thesis using known_top coversD(1)[OF coveredD(2)[OF c]] hd_in_set[OF ne] by blast
qed

lemma page_batch_step:
  assumes "page_batch env ext s b" "env_serves U env" "commit_snapshot s b = Ok s'"
  shows "catalog_step ext U s s'"
  using assms(1)
proof cases
  case (PageBatch events ctx remaining)
  then show ?thesis using Page[OF env_serves_events[OF assms(2)]] assms(3) by blast
next
  case (RepairBatch events ctx r pending t outcome ctx' remaining)
  then show ?thesis using ConnectedRepair[OF env_serves_events[OF assms(2)] env_serves_source[OF assms(2)]] assms(3) by blast
next
  case (GapBatch events ctx r pending t outcome ctx' r' pending' outcome' confirmation ctx'' remaining)
  then show ?thesis using GapConfirmed[OF env_serves_events[OF assms(2)] env_serves_source[OF assms(2)]] assms(3) by blast
qed

lemma worker_batch_step:
  assumes "worker_batch env ext s b" "env_serves U env" "covered ext U rs gs s" "commit_snapshot s b = Ok s'"
  shows "catalog_step ext U s s'"
  using assms(1)
proof cases
  case (CatchUpBatch target ctx resumed)
  then show ?thesis using CatchUp assms(4) by blast
next
  case PagesBatch
  then show ?thesis using page_batch_step assms(2,4) by blast
next
  case (PrefixBatch ctx r t outcome confirmation ctx')
  then show ?thesis using PrefixRepair[OF env_serves_source[OF assms(2)]] assms(4) by blast
next
  case (GapRepairBatch gap gaps ctx r t outcome confirmation ctx')
  then show ?thesis
    using GapRepair[OF env_serves_source[OF assms(2)]] confirmed_known[OF assms(3) GapRepairBatch(1,4)] assms(4) by blast
qed

section \<open>Pages move the cursor up\<close>

lemma run_top_less:
  assumes "good_run U (bs @ cs)" "bs \<noteq> []" "cs \<noteq> []"
  shows "cp_slot (top_of bs) < cp_slot (top_of cs)"
proof -
  have "strictly_sorted (map cp_slot (map lb_checkpoint (bs @ cs)))" by (rule linked_sorted[OF good_runD(2)[OF assms(1)]])
  then show ?thesis using assms(2,3) by (auto simp: sorted_wrt_append top_of_def last_map)
qed

lemma covered_extended:
  assumes c: "covered ext U rs gs s" and c': "covered ext U rs' gs' s'" and bs: "bs \<noteq> []"
    and rs': "rs' = extend_last rs bs \<or> rs' = rs @ [(i, bs)]"
  shows "later s s'" "length rs \<le> length rs'"
proof -
  have top: "rs' \<noteq> [] \<and> top_of (snd (last rs')) = top_of bs"
    using rs' bs by (cases "rs = []") (auto simp: extend_last_def)
  have "cp_slot (top_of (snd (last rs))) < cp_slot (top_of bs)" if ne: "rs \<noteq> []"
  proof (cases "rs' = rs @ [(i, bs)]")
    case True
    have "below (last rs) (i, bs)"
      using covers_sorted[OF coveredD(2)[OF c']] last_in_set[OF ne] by (simp add: True sorted_wrt_append)
    moreover have "good_run U bs" using coversD(1)[OF coveredD(2)[OF c']] by (simp add: True)
    ultimately show ?thesis using good_run_floor_top[of U bs] by (simp add: below_def)
  next
    case False
    then have r: "rs' = butlast rs @ [(fst (last rs), snd (last rs) @ bs)]" using rs' ne by (simp add: extend_last_def)
    have "good_run U (snd (last rs) @ bs)" "good_run U (snd (last rs))"
      using coversD(1)[OF coveredD(2)[OF c']] coversD(1)[OF coveredD(2)[OF c]] last_in_set[OF ne] by (simp_all add: r)
    then show ?thesis using run_top_less[OF _ good_runD(1) bs] by blast
  qed
  then show "later s s'" unfolding later_def covered_cursor[OF c] covered_cursor[OF c'] using top by simp
  show "length rs \<le> length rs'" using rs' by (cases "rs = []") (auto simp: extend_last_def)
qed

lemma page_batch_runs:
  assumes "page_batch env ext s b" "env_serves U env" "covered ext U rs gs s" "gap_ids_differ ext U" "commit_snapshot s b = Ok s'"
  shows "\<exists>rs' gs' bs i. bs \<noteq> [] \<and> covered ext U rs' gs' s' \<and> (rs' = extend_last rs bs \<or> rs' = rs @ [(i, bs)])"
  using assms(1)
proof cases
  case (PageBatch events ctx remaining)
  obtain bs where "bs \<noteq> []" "covered ext U (extend_last rs bs) gs s'"
    using page_commit_covered[OF assms(3) env_serves_events[OF assms(2) PageBatch(1)] PageBatch(2) assms(5)]
    by (metis map_is_Nil_conv)
  then show ?thesis by blast
next
  case (RepairBatch events ctx r pending t outcome ctx' remaining)
  have "served_events U pending" using page_request(1)[OF RepairBatch(2)] env_serves_events[OF assms(2) RepairBatch(1)] by simp
  from repair_commit_covered[OF assms(3) served_outcome[OF env_serves_source[OF assms(2)] RepairBatch(3)] this RepairBatch(4) assms(5)]
  show ?thesis by blast
next
  case (GapBatch events ctx r pending t outcome ctx' r' pending' outcome' confirmation ctx'' remaining)
  have eq: "r' = r" "pending' = pending" "outcome' = outcome" using gap_confirmation_request[OF GapBatch(4)] by simp_all
  have "served_events U pending" using page_request(1)[OF GapBatch(2)] env_serves_events[OF assms(2) GapBatch(1)] by simp
  from gap_commit_covered[OF assms(3,4) served_outcome[OF env_serves_source[OF assms(2)] GapBatch(3)] this
      page_request(3,5)[OF GapBatch(2)] GapBatch(6)[unfolded eq] assms(5)]
  show ?thesis by blast
qed

section \<open>The stored catalog\<close>

definition stored_catalog ::
  "'n environment \<Rightarrow> 'n externals \<Rightarrow> (string \<Rightarrow> 'n l1_block option) \<Rightarrow> nat \<Rightarrow> catalog_store \<Rightarrow> catalog_snapshot \<Rightarrow> bool" where
  "stored_catalog env ext U n st s \<longleftrightarrow> codecs_ok (en_codecs env) \<and> env_serves U env \<and> gap_ids_differ ext U
     \<and> consistent (en_codecs env) st s \<and> reachable ext U s \<and> n \<le> length (cs_gaps s)"

lemma covered_gap_count:
  assumes "covered ext U rs gs s"
  shows "length (cs_gaps s) = length gs" "length rs = (if rs = [] then 0 else length gs + 1)"
proof -
  have "distinct (map gp_gap_id (cs_gaps s))"
    using sorted_snapshotD(4)[OF coveredD(1)[OF assms]] by (simp add: strictly_sorted_iff)
  then have "distinct (cs_gaps s)" "distinct gs"
    using coversD(4)[OF coveredD(2)[OF assms]] by (simp_all add: distinct_map)
  then show "length (cs_gaps s) = length gs" using coveredD(5)[OF assms] by (metis distinct_card)
  have "joined rs gs \<Longrightarrow> length rs = (if rs = [] then 0 else length gs + 1)"
    by (induction rs gs rule: joined.induct) auto
  then show "length rs = (if rs = [] then 0 else length gs + 1)" using coversD(3)[OF coveredD(2)[OF assms]] by blast
qed

text \<open>No batch of the worker closes a gap.\<close>

lemma more_runs_more_gaps:
  assumes "covered ext U rs gs s" "covered ext U rs' gs' s'" "length rs \<le> length rs'"
  shows "length (cs_gaps s) \<le> length (cs_gaps s')"
proof (cases "rs = []")
  case True
  then have "gs = []" using coversD(3)[OF coveredD(2)[OF assms(1)]] by simp
  then show ?thesis using covered_gap_count(1)[OF assms(1)] by simp
next
  case False
  then have "rs' \<noteq> []" using assms(3) by auto
  then show ?thesis using covered_gap_count[OF assms(1)] covered_gap_count[OF assms(2)] assms(3) False by simp
qed

lemma worker_batch_gaps:
  assumes b: "worker_batch env ext s b" and e: "env_serves U env" "gap_ids_differ ext U" and c: "covered ext U rs gs s"
    and s': "commit_snapshot s b = Ok s'"
  shows "length (cs_gaps s) \<le> length (cs_gaps s')"
  using b
proof cases
  case (CatchUpBatch target ctx resumed)
  have "covered ext U rs gs s'" using catch_up_covered(1)[OF c CatchUpBatch s'] .
  then show ?thesis using more_runs_more_gaps[OF c] by blast
next
  case PagesBatch
  obtain rs' gs' bs i where r: "bs \<noteq> []" "covered ext U rs' gs' s'" "rs' = extend_last rs bs \<or> rs' = rs @ [(i, bs)]"
    using page_batch_runs[OF PagesBatch e(1) c e(2) s'] by blast
  show ?thesis using more_runs_more_gaps[OF c r(2) covered_extended(2)[OF c r(2,1,3)]] .
next
  case (PrefixBatch ctx r t outcome confirmation ctx')
  obtain q ys where r: "rs = q # ys" "covered ext U ((fst q, recovered_blocks outcome @ snd q) # ys) gs s'"
    using prefix_repair_covered[OF c served_outcome[OF env_serves_source[OF e(1)] PrefixBatch(2)] PrefixBatch(4) s'] by blast
  show ?thesis using more_runs_more_gaps[OF c r(2)] r(1) by simp
next
  case (GapRepairBatch gap gaps ctx r t outcome confirmation ctx')
  obtain rs' gs' where g: "gap_repaired outcome rs rs'" "covered ext U rs' gs' s'"
    using gap_repair_covered[OF c served_outcome[OF env_serves_source[OF e(1)] GapRepairBatch(3)]
      confirmed_known[OF c GapRepairBatch(1,4)] GapRepairBatch(5) s'] by blast
  have "length rs \<le> length rs'"
    using g(1) worker_gap_not_connected[OF c GapRepairBatch(4,5)] by (cases outcome) (auto simp: gap_repaired_def)
  then show ?thesis using more_runs_more_gaps[OF c g(2)] by blast
qed

lemma stored_committed:
  assumes "stored_catalog env ext U n st s" "worker_batch env ext s b"
    "commit_batch_from_snapshot (en_codecs env) st s b = Ok (st', s')"
  shows "stored_catalog env ext U n st' s'"
proof -
  have h: "codecs_ok (en_codecs env)" "env_serves U env" "gap_ids_differ ext U" "consistent (en_codecs env) st s"
    "reachable ext U s" "n \<le> length (cs_gaps s)" using assms(1) by (simp_all add: stored_catalog_def)
  have s': "commit_snapshot s b = Ok s'" by (rule commit_batch_commit_snapshot[OF h(4) assms(3)])
  obtain rs gs where c: "covered ext U rs gs s" using reachable_covered[OF h(5,3)] by blast
  have "reachable ext U s'" using Stepped[OF h(5) worker_batch_step[OF assms(2) h(2) c s']] .
  moreover have "consistent (en_codecs env) st' s'" using commit_paths[OF h(4,1)] assms(3) by blast
  ultimately show ?thesis using h worker_batch_gaps[OF assms(2) h(2,3) c s'] by (simp add: stored_catalog_def)
qed

lemma stored_advanced:
  assumes "stored_catalog env ext U n st s" "page_batch env ext s b"
    "commit_batch_from_snapshot (en_codecs env) st s b = Ok (st', s')"
  shows "later s s'"
proof -
  have h: "env_serves U env" "gap_ids_differ ext U" "consistent (en_codecs env) st s" "reachable ext U s"
    using assms(1) by (simp_all add: stored_catalog_def)
  have s': "commit_snapshot s b = Ok s'" by (rule commit_batch_commit_snapshot[OF h(3) assms(3)])
  obtain rs gs where c: "covered ext U rs gs s" using reachable_covered[OF h(4,2)] by blast
  show ?thesis using page_batch_runs[OF assms(2) h(1) c h(2) s'] covered_extended(1)[OF c] by blast
qed

lemma stored_updated:
  assumes "stored_catalog env ext U n st s" "update_metadata (en_codecs env) st revision now update = Ok (st', s')"
  shows "stored_catalog env ext U n st' s'"
proof -
  have h: "codecs_ok (en_codecs env)" "consistent (en_codecs env) st s" "reachable ext U s"
    using assms(1) by (simp_all add: stored_catalog_def)
  note u = update_metadata_Ok[OF h(1,2) assms(2)]
  obtain md where md: "s' = s\<lparr>cs_metadata := md\<rparr>"
  proof -
    have "s' = s \<or> (\<exists>m'. s' = s\<lparr>cs_metadata := m'\<rparr>)" using u by blast
    moreover have "s = s\<lparr>cs_metadata := cs_metadata s\<rparr>" by simp
    ultimately show ?thesis using that by metis
  qed
  have "reachable ext U s'" unfolding md by (rule Stepped[OF h(3) Metadata])
  then show ?thesis using assms(1) u by (simp add: stored_catalog_def md)
qed

interpretation stored: catalog_keeper env ext "stored_catalog env ext U n" for env ext U n
proof unfold_locales
  show "stored_catalog env ext U n st s \<Longrightarrow> snapshot (en_codecs env) st = Ok s' \<Longrightarrow> s' = s" for st s s'
    by (simp add: stored_catalog_def consistent_def)
qed (rule stored_committed stored_advanced stored_updated; assumption)+

section \<open>Properties of a scan\<close>

lemma scan_result:
  assumes c: "codecs_ok (en_codecs env)" "consistent (en_codecs env) (rn_store st) s" and e: "env_serves U env" "gap_ids_differ ext U"
    and s: "reachable ext U s" "rn_publications st = []" and run: "run_catalog_scan n env ext st = (r, st')"
  shows "\<exists>s'. stored_catalog env ext U (length (cs_gaps s)) (rn_store st') s'"
    "verified_ok (reachable ext U) (rn_publications st')" "r \<noteq> Ok None"
proof -
  let ?good = "stored_catalog env ext U (length (cs_gaps s))"
  have h: "held ?good s (rn_store st) (rn_publications st)" using c e s by (simp add: held_def stored_catalog_def verified_ok_def)
  have "(case r of Ok x \<Rightarrow> \<exists>sc'. x = Some sc' \<and> held ?good (sc_snapshot sc') (rn_store st') (rn_publications st')
      | Err _ \<Rightarrow> kept ?good (rn_store st') (rn_publications st'))"
    using stored.run_scan_spec[of env ext U "length (cs_gaps s)" s n] h run unfolding spec_def by blast
  then have k: "kept ?good (rn_store st') (rn_publications st')" and "r \<noteq> Ok None" by (auto split: result.splits intro: held_kept)
  then show "r \<noteq> Ok None" by simp
  show "\<exists>s'. ?good (rn_store st') s'" using k by (auto simp: kept_def held_def)
  show "verified_ok (reachable ext U) (rn_publications st')"
    using k by (auto simp: kept_def held_def verified_ok_def stored_catalog_def)
qed

text \<open>
  C6: Whatever the source, the clock, the cancellation token and the storage layer answer, and whether the scan returns or
  stops with an error in any of its cycles, the store it leaves reads back as a catalog reachable from a created one,
  and every catalog it published as verified is reachable. The source is only assumed to serve one block per
  identifier, and the identifiers of different gaps to differ.
\<close>

theorem scan_keeps_catalog_reachable:
  assumes "codecs_ok (en_codecs env)" "consistent (en_codecs env) (rn_store st) s" "env_serves U env" "gap_ids_differ ext U"
    and "reachable ext U s" "rn_publications st = []" and "run_catalog_scan n env ext st = (r, st')"
  shows "(\<exists>s'. snapshot (en_codecs env) (rn_store st') = Ok s' \<and> reachable ext U s')
    \<and> (\<forall>p \<in> set (rn_publications st'). pb_verification_state p = StateVerified \<longrightarrow> (\<exists>s'. pb_catalog p = Some s' \<and> reachable ext U s'))"
  using scan_result(1,2)[OF assms] by (auto simp: stored_catalog_def consistent_def verified_ok_def)

text \<open>
  C13: With a source that serves one block per identifier, and gap identifiers that do not collide, every cycle of the scan ends: the page loop within three rounds for each event and one more, the ingestion loop
  within four more rounds than there are slots up to the target. The fuel of the two loops is never used up.
\<close>

theorem scan_cycles_end:
  assumes "codecs_ok (en_codecs env)" "consistent (en_codecs env) (rn_store st) s" "env_serves U env" "gap_ids_differ ext U"
    and "reachable ext U s" "rn_publications st = []"
  shows "fst (run_catalog_scan n env ext st) \<noteq> Ok None"
  using scan_result(3)[OF assms, of n "fst (run_catalog_scan n env ext st)" "snd (run_catalog_scan n env ext st)"] by simp

text \<open>
  C12: The confirmation that the worker builds never lets the engine close a gap. \<open>confirm_current_catalog\<close> passes the
  checkpoint of the frontier record, which is the top of the lowest run, as the upper frontier checkpoint, and
  \<open>reduce_catalog_gap_repair\<close> requires there the top of the segment above the gap. So in every reachable catalog, when gap identifiers do not
  collide, a gap repair that found the missing ancestry is refused, whatever the gap and the recovered blocks.
\<close>

theorem connected_gap_repair_refused:
  assumes "reachable ext U s" "gap_ids_differ ext U" "confirm_current_catalog env s lower st = (Ok confirmation, st')"
  shows "\<exists>e. reduce_catalog_gap_repair ext s gap_id (Connected bs) confirmation ctx = Err e"
proof -
  obtain rs gs where "covered ext U rs gs s" using reachable_covered[OF assms(1,2)] by blast
  from worker_gap_not_connected[OF this confirm_confirms[OF assms(3)], of gap_id "Connected bs" ctx _ bs] show ?thesis
    by (cases "reduce_catalog_gap_repair ext s gap_id (Connected bs) confirmation ctx") auto
qed

text \<open>
  C11: No scan closes a gap of the stored catalog: after any number of cycles with a source that serves one block per
  identifier, and gap identifiers that do not collide, the catalog has at least as many gaps as before, so that coverage that was once partial because of a gap stays partial.
\<close>

theorem scan_never_closes_gaps:
  assumes "codecs_ok (en_codecs env)" "consistent (en_codecs env) (rn_store st) s" "env_serves U env" "gap_ids_differ ext U"
    and "reachable ext U s" "rn_publications st = []" and "run_catalog_scan n env ext st = (r, st')"
  shows "\<exists>s'. snapshot (en_codecs env) (rn_store st') = Ok s' \<and> length (cs_gaps s) \<le> length (cs_gaps s')"
  using scan_result(1)[OF assms] by (auto simp: stored_catalog_def consistent_def)

end
