(* ===== verification/Identity_Properties.thy ===== *)
theory Identity_Properties
  imports Catalog_Identity Coverage_Properties
begin

text \<open>
  The promotion of a catalog's identity ends, keeps every record, changes the network scope only after the settings were
  rebound, and survives an interruption at any point. A verified candidate agrees with the source on its checkpoints, and
  an ancestry claimed as verified is an unbroken chain down to the genesis block.
\<close>

section \<open>Stages\<close>

definition stage_of :: "catalog_snapshot \<Rightarrow> transition_stage option" where
  "stage_of s = map_option it_stage (cm_identity_transition (cs_metadata s))"

definition rounds_of :: "catalog_snapshot \<Rightarrow> nat" where
  "rounds_of s = (case stage_of s of None \<Rightarrow> 4 | Some Prepared \<Rightarrow> 3 | Some SettingsRebound \<Rightarrow> 2 | Some Committed \<Rightarrow> 1)"

definition promoted :: "identity_promotion \<Rightarrow> catalog_snapshot \<Rightarrow> bool" where
  "promoted p s \<longleftrightarrow> cm_network_scope (cs_metadata s) = ip_new_scope p \<and> stage_of s = Some Committed
     \<and> is_some_and (cm_identity_transition (cs_metadata s)) (\<lambda>t. transition_matches_promotion t p)
     \<and> ip_old_scope p \<in> ia_network_scope ` set (cm_identity_aliases (cs_metadata s))"

lemma consistent_metadata: "consistent cd st s \<Longrightarrow> validate_metadata (cs_metadata s) = Ok ()"
proof -
  assume "consistent cd st s"
  then have "read_snapshot cd (st_database st) = Ok s" by (simp add: consistent_def snapshot_def)
  from read_snapshotD(5)[OF this] show ?thesis
    by (auto simp: validate_snapshot_def validate_header_def validate_persisted_def Let_def ok_simps)
qed

lemma committed_alias:
  assumes "consistent cd st s" "cm_identity_transition (cs_metadata s) = Some t" "it_stage t = Committed"
  shows "it_old_scope t \<in> ia_network_scope ` set (cm_identity_aliases (cs_metadata s))"
  using consistent_metadata[OF assms(1)] assms(2,3)
  by (auto simp: validate_metadata_def validate_transition_def ok_simps split: if_splits)

lemma next_metadata_keeps:
  "next_metadata m now = Ok m' \<Longrightarrow> cm_identity_transition m' = cm_identity_transition m \<and> cm_network_scope m' = cm_network_scope m
    \<and> cm_identity_aliases m' = cm_identity_aliases m \<and> cm_identity_assurance m' = cm_identity_assurance m"
  by (auto simp: next_metadata_def ok_simps)

text \<open>What one stage leaves behind, given what its update does to the metadata.\<close>

lemma update_stage:
  assumes cd: "codecs_ok cd" and c: "consistent cd st s" and u: "update_metadata cd st revision now update = Ok (st', s')"
    and m: "\<And>m. update (cs_metadata s) = Ok m \<Longrightarrow> \<exists>t. cm_identity_transition m = Some t \<and> it_stage t = stage"
  shows "consistent cd st' s'" "s' = s\<lparr>cs_metadata := cs_metadata s'\<rparr>" "stage_of s' = Some stage"
proof -
  note r = update_metadata_Ok[OF cd c u]
  obtain m where m': "update (cs_metadata s) = Ok m" "m = cs_metadata s \<and> s' = s \<or> (\<exists>m'. next_metadata m now = Ok m' \<and> s' = s\<lparr>cs_metadata := m'\<rparr>)"
    using r by blast
  show "consistent cd st' s'" using r by blast
  show "s' = s\<lparr>cs_metadata := cs_metadata s'\<rparr>" using m'(2) by auto
  obtain t where t: "cm_identity_transition m = Some t" "it_stage t = stage" using m[OF m'(1)] by blast
  have "cm_identity_transition (cs_metadata s') = Some t" using m'(2) t(1) by (auto dest: next_metadata_keeps)
  then show "stage_of s' = Some stage" by (simp add: stage_of_def t(2))
qed

lemma stage_updates:
  "stage_of s = None \<Longrightarrow> prepare_update now revision p (cs_metadata s) = Ok m
    \<Longrightarrow> \<exists>t. cm_identity_transition m = Some t \<and> it_stage t = Prepared"
  "stage_of s = Some Prepared \<Longrightarrow> rebound_update p (cs_metadata s) = Ok m
    \<Longrightarrow> \<exists>t. cm_identity_transition m = Some t \<and> it_stage t = SettingsRebound"
  "stage_of s = Some SettingsRebound \<Longrightarrow> commit_update now p (cs_metadata s) = Ok m
    \<Longrightarrow> \<exists>t. cm_identity_transition m = Some t \<and> it_stage t = Committed"
  by (auto simp: stage_of_def prepare_update_def rebound_update_def commit_update_def ok_simps split: if_splits)

section \<open>The loop\<close>

text \<open>
  What holds at every point of a promotion that started from \<open>base\<close>: the records are those of \<open>base\<close>, the stage never goes
  back, and a stage past \<open>Prepared\<close> that was not there at the start was reached after the rebinder succeeded.
\<close>

definition promoting :: "'n environment \<Rightarrow> identity_promotion \<Rightarrow> catalog_snapshot \<Rightarrow> catalog_store \<Rightarrow> catalog_snapshot \<Rightarrow> bool" where
  "promoting env p base st s \<longleftrightarrow> codecs_ok (en_codecs env) \<and> consistent (en_codecs env) st s
     \<and> s = base\<lparr>cs_metadata := cs_metadata s\<rparr> \<and> rounds_of s \<le> rounds_of base
     \<and> (rounds_of base > 2 \<and> rounds_of s \<le> 2 \<longrightarrow> (\<exists>t. en_rebind env t (ip_old_scope p) (ip_new_scope p) = Ok ()))"

lemma stage_spec:
  assumes task: "\<And>st st' s'. consistent (en_codecs env) st s \<Longrightarrow> codecs_ok (en_codecs env) \<Longrightarrow> task st = Ok (st', s')
      \<Longrightarrow> consistent (en_codecs env) st' s' \<and> s' = s\<lparr>cs_metadata := cs_metadata s'\<rparr> \<and> stage_of s' = Some stage"
    and rounds: "\<And>s'. stage_of s' = Some stage \<Longrightarrow> rounds_of s' < rounds_of s"
    and rebound: "stage \<noteq> Prepared \<Longrightarrow> rounds_of s \<le> 2 \<or> (\<exists>t. en_rebind env t (ip_old_scope p) (ip_new_scope p) = Ok ())"
  shows "spec (held (promoting env p base) s) (run_blocking_catalog env task)
    (\<lambda>s' st ps. stage_of s' = Some stage \<and> held (promoting env p base) s' st ps) (kept (promoting env p base))"
proof (rule spec_blocking)
  fix st ps st' s' assume h: "held (promoting env p base) s st ps" and t: "task st = Ok (st', s')"
  have g: "promoting env p base st s" and v: "verified_ok (\<lambda>c. \<exists>st. promoting env p base st c) ps" using h by (simp_all add: held_def)
  have r: "consistent (en_codecs env) st' s'" "s' = s\<lparr>cs_metadata := cs_metadata s'\<rparr>" "stage_of s' = Some stage"
    using task[OF _ _ t] g by (simp_all add: promoting_def)
  have "s' = base\<lparr>cs_metadata := cs_metadata s'\<rparr>"
  proof -
    have "s\<lparr>cs_metadata := m\<rparr> = base\<lparr>cs_metadata := m\<rparr>" for m
      using g unfolding promoting_def by (metis catalog_snapshot.fold_congs(1) catalog_snapshot.update_convs(1) catalog_snapshot.surjective)
    then show ?thesis using r(2) by metis
  qed
  moreover have "rounds_of s' \<le> rounds_of base" using rounds[OF r(3)] g by (simp add: promoting_def)
  moreover have "\<exists>t. en_rebind env t (ip_old_scope p) (ip_new_scope p) = Ok ()" if "rounds_of base > 2" "rounds_of s' \<le> 2"
  proof (cases "rounds_of s \<le> 2")
    case True
    then show ?thesis using g that(1) by (simp add: promoting_def)
  next
    case False
    have "stage \<noteq> Prepared" using that(2) r(3) by (auto simp: rounds_of_def)
    then show ?thesis using rebound False by blast
  qed
  ultimately have "promoting env p base st' s'" using g r(1) unfolding promoting_def by blast
  then show "stage_of s' = Some stage \<and> held (promoting env p base) s' st' ps" using r(3) v by (simp add: held_def)
qed (auto intro: held_kept)

lemma rounds_stage [simp]:
  "stage_of s = None \<Longrightarrow> rounds_of s = 4" "stage_of s = Some Prepared \<Longrightarrow> rounds_of s = 3"
  "stage_of s = Some SettingsRebound \<Longrightarrow> rounds_of s = 2" "stage_of s = Some Committed \<Longrightarrow> rounds_of s = 1"
  by (simp_all add: rounds_of_def)

lemma prepare_spec:
  assumes "stage_of s = None"
  shows "spec (held (promoting env p base) s) (run_blocking_catalog env (\<lambda>store. prepare_identity_promotion (en_codecs env) store
      revision now source_revision p))
    (\<lambda>s' st ps. stage_of s' = Some Prepared \<and> held (promoting env p base) s' st ps) (kept (promoting env p base))"
proof (rule stage_spec)
  fix st st' s' assume a: "consistent (en_codecs env) st s" "codecs_ok (en_codecs env)"
    "prepare_identity_promotion (en_codecs env) st revision now source_revision p = Ok (st', s')"
  show "consistent (en_codecs env) st' s' \<and> s' = s\<lparr>cs_metadata := cs_metadata s'\<rparr> \<and> stage_of s' = Some Prepared"
    using update_stage[OF a(2,1) a(3)[unfolded prepare_identity_promotion_def] stage_updates(1)[OF assms]] by simp
qed (use assms in simp_all)

lemma rebound_spec:
  assumes "stage_of s = Some Prepared" "en_rebind env t (ip_old_scope p) (ip_new_scope p) = Ok ()"
  shows "spec (held (promoting env p base) s) (run_blocking_catalog env (\<lambda>store. mark_identity_settings_rebound (en_codecs env) store
      revision now p))
    (\<lambda>s' st ps. stage_of s' = Some SettingsRebound \<and> held (promoting env p base) s' st ps) (kept (promoting env p base))"
proof (rule stage_spec)
  fix st st' s' assume a: "consistent (en_codecs env) st s" "codecs_ok (en_codecs env)"
    "mark_identity_settings_rebound (en_codecs env) st revision now p = Ok (st', s')"
  show "consistent (en_codecs env) st' s' \<and> s' = s\<lparr>cs_metadata := cs_metadata s'\<rparr> \<and> stage_of s' = Some SettingsRebound"
    using update_stage[OF a(2,1) a(3)[unfolded mark_identity_settings_rebound_def] stage_updates(2)[OF assms(1)]] by simp
qed (use assms in auto)

lemma commit_promotion_spec:
  assumes "stage_of s = Some SettingsRebound"
  shows "spec (held (promoting env p base) s) (run_blocking_catalog env (\<lambda>store. commit_identity_promotion (en_codecs env) store
      revision now p))
    (\<lambda>s' st ps. stage_of s' = Some Committed \<and> held (promoting env p base) s' st ps) (kept (promoting env p base))"
proof (rule stage_spec)
  fix st st' s' assume a: "consistent (en_codecs env) st s" "codecs_ok (en_codecs env)"
    "commit_identity_promotion (en_codecs env) st revision now p = Ok (st', s')"
  show "consistent (en_codecs env) st' s' \<and> s' = s\<lparr>cs_metadata := cs_metadata s'\<rparr> \<and> stage_of s' = Some Committed"
    using update_stage[OF a(2,1) a(3)[unfolded commit_identity_promotion_def] stage_updates(3)[OF assms]] by simp
qed (use assms in simp_all)

lemma committed_promoted:
  assumes "stage_of s = Some Committed" "promoting env p base st s" "cm_network_scope (cs_metadata s) = ip_new_scope p"
    "is_some_and (cm_identity_transition (cs_metadata s)) (\<lambda>t. transition_matches_promotion t p)"
  shows "promoted p s"
proof -
  obtain t where t: "cm_identity_transition (cs_metadata s) = Some t" "it_stage t = Committed" using assms(1) by (auto simp: stage_of_def)
  have "it_old_scope t = ip_old_scope p" using assms(4) t(1) by (simp add: transition_matches_promotion_def)
  then show ?thesis using committed_alias[OF _ t] assms by (auto simp: promoted_def promoting_def)
qed

lemma promotion_loop_spec:
  assumes "rounds_of s \<le> fuel"
  shows "spec (held (promoting env p base) s) (promotion_loop fuel env p now s)
    (\<lambda>r st ps. \<exists>s'. r = Some s' \<and> promoted p s' \<and> held (promoting env p base) s' st ps) (kept (promoting env p base))"
  using assms
proof (induction fuel arbitrary: s)
  case 0
  then show ?case by (simp add: rounds_of_def split: option.splits transition_stage.splits)
next
  case (Suc fuel)
  have stage: "map_option it_stage (cm_identity_transition (cs_metadata s)) = stage_of s" by (simp add: stage_of_def)
  have continue: "spec (\<lambda>st ps. stage_of s' = Some k \<and> held (promoting env p base) s' st ps) (promotion_loop fuel env p now s')
      (\<lambda>r st ps. \<exists>s'. r = Some s' \<and> promoted p s' \<and> held (promoting env p base) s' st ps) (kept (promoting env p base))"
    if "stage_of s' = Some k \<Longrightarrow> rounds_of s' \<le> fuel" for s' k by (rule spec_fact) (rule Suc.IH, rule that)
  consider "stage_of s = None" | "stage_of s = Some Prepared" | "stage_of s = Some SettingsRebound" | "stage_of s = Some Committed"
    by (cases "stage_of s") (auto, metis transition_stage.exhaust)
  then show ?case
  proof cases
    case 1
    show ?thesis unfolding promotion_loop.simps stage Let_def
      by (simp add: 1, rule spec_bind[OF prepare_spec[OF 1]], rule continue) (use Suc.prems 1 in simp)
  next
    case 2
    have rebind: "spec (held (promoting env p base) s) (observe (\<lambda>t. en_rebind env t (ip_old_scope p) (ip_new_scope p)))
        (\<lambda>_ st ps. (\<exists>t. en_rebind env t (ip_old_scope p) (ip_new_scope p) = Ok ()) \<and> held (promoting env p base) s st ps)
        (kept (promoting env p base))"
      by (rule spec_value) (auto simp: observe_def)
    show ?thesis unfolding promotion_loop.simps stage Let_def
    proof (simp add: 2, rule spec_bind[OF spec_held], simp, rule spec_bind[OF rebind], rule spec_fact, elim exE,
        rule spec_bind[OF spec_held], simp, goal_cases)
      case (1 u v t w)
      show ?case by (rule spec_bind[OF rebound_spec[OF 2 1]], rule continue) (use Suc.prems 2 in simp)
    qed
  next
    case 3
    show ?thesis unfolding promotion_loop.simps stage Let_def
      by (simp add: 3, rule spec_bind[OF spec_held], simp, rule spec_bind[OF commit_promotion_spec[OF 3]], rule continue)
        (use Suc.prems 3 in simp)
  next
    case 4
    show ?thesis unfolding promotion_loop.simps stage Let_def using 4 committed_promoted[OF 4, of env p base]
      by (auto simp: held_def intro!: spec_return spec_result held_kept)
  qed
qed

lemma apply_promotion_spec:
  "spec (held (promoting env p s) s) (apply_catalog_identity_promotion 4 env p now)
    (\<lambda>r st ps. \<exists>s'. r = Some s' \<and> promoted p s' \<and> held (promoting env p s) s' st ps) (kept (promoting env p s))"
proof -
  have "spec (held (promoting env p s) s) (catalog_snapshot_of env) (\<lambda>s' st ps. s' = s \<and> held (promoting env p s) s st ps)
      (kept (promoting env p s))"
    by (rule spec_snapshot) (simp add: promoting_def consistent_def)
  then show ?thesis unfolding apply_catalog_identity_promotion_def
  proof (rule spec_bind, rule_tac spec_fact)
    fix s' assume "s' = s"
    moreover have "rounds_of s \<le> 4" by (simp add: rounds_of_def split: option.splits transition_stage.splits)
    ultimately show "spec (held (promoting env p s) s) (promotion_loop 4 env p now s')
      (\<lambda>r st ps. \<exists>s'. r = Some s' \<and> promoted p s' \<and> held (promoting env p s) s' st ps) (kept (promoting env p s))"
      using promotion_loop_spec by simp
  qed
qed

section \<open>Verification\<close>

lemma verify_checks_sound:
  assumes "verify_checks env lib checks st = (Ok None, st')"
  shows "\<forall>c \<in> set checks. (br_slot lib = cp_slot c \<longrightarrow> br_block_id lib = cp_block_id c)
    \<and> (\<exists>t b. en_block env t (cp_block_id c) = Ok (Some b) \<and> lb_checkpoint b = c)"
  using assms
proof (induction checks arbitrary: st)
  case (Cons c cs)
  have n: "\<not> (br_slot lib = cp_slot c \<and> br_block_id lib \<noteq> cp_block_id c)"
    using Cons.prems by (auto simp: ok_simps split: if_splits)
  then obtain actual st1 st2 st3 where actual: "source_block env (cp_block_id c) st1 = (Ok actual, st2)"
    and rest: "(case actual of None \<Rightarrow> run_return (Some (ActCachedUnverified (''source cannot return catalog checkpoint at slot ''
        @ u64_text (cp_slot c))))
      | Some block \<Rightarrow> if lb_checkpoint block \<noteq> c
          then run_return (Some (ActMismatch (''source block conflicts with catalog checkpoint at slot '' @ u64_text (cp_slot c))))
          else verify_checks env lib cs) st3 = (Ok None, st')"
    using Cons.prems by (simp only: verify_checks.simps if_False run_bind_Ok) blast
  then obtain b where b: "actual = Some b" "lb_checkpoint b = c" "verify_checks env lib cs st3 = (Ok None, st')"
    by (cases actual) (auto simp: run_return_eq split: if_splits)
  have "\<exists>t. en_block env t (cp_block_id c) = Ok (Some b)"
    using actual b(1) by (auto simp: source_block_def observe_def map_err_Ok)
  then show ?case using Cons.IH[OF b(3)] n b(2) by auto
qed simp

lemma max_slot_ge: "c \<in> set cs \<Longrightarrow> \<exists>m. max_slot cs = Some m \<and> cp_slot c \<le> m"
  by (induction cs) (auto split: option.splits simp: max_def)

lemma run_early:
  assumes "run_bind m (\<lambda>x. case x of Some a \<Rightarrow> run_return a | None \<Rightarrow> k) st = (Ok y, st')"
    "\<And>a st'. m st = (Ok (Some a), st') \<Longrightarrow> a \<noteq> y"
  shows "\<exists>st1. m st = (Ok None, st1) \<and> k st1 = (Ok y, st')"
proof -
  obtain x st1 where x: "m st = (Ok x, st1)" "(case x of Some a \<Rightarrow> run_return a | None \<Rightarrow> k) st1 = (Ok y, st')"
    using assms(1) unfolding run_bind_Ok by blast
  then show ?thesis using assms(2) by (cases x) (auto simp: run_return_eq)
qed

lemma early_returns:
  "reported_conflict s g = Some a \<Longrightarrow> a \<noteq> ActVerified x" "scope_conflict s g = Some a \<Longrightarrow> a \<noteq> ActVerified x"
  "verify_genesis_time env sc st = (Ok (Some a), st') \<Longrightarrow> a \<noteq> ActVerified x"
  "verify_checks env lib cs st = (Ok (Some a), st') \<Longrightarrow> a \<noteq> ActVerified x"
proof -
  show "verify_checks env lib cs st = (Ok (Some a), st') \<Longrightarrow> a \<noteq> ActVerified x"
    by (induction cs arbitrary: st) (fastforce simp: ok_simps split: option.splits if_splits)+
qed (auto simp: reported_conflict_def scope_conflict_def verify_genesis_time_def ok_simps
      split: option.splits network_scope.splits if_splits)

text \<open>A checkpoint that the source has finalized and served unchanged.\<close>

definition confirmed :: "'n environment \<Rightarrow> block_reference \<Rightarrow> block_checkpoint \<Rightarrow> bool" where
  "confirmed env lib c \<longleftrightarrow> cp_slot c \<le> br_slot lib \<and> (br_slot lib = cp_slot c \<longrightarrow> br_block_id lib = cp_block_id c)
     \<and> (\<exists>t b. en_block env t (cp_block_id c) = Ok (Some b) \<and> lb_checkpoint b = c)"

lemma genesis_time_sound:
  "verify_genesis_time env (Some a) st = (Ok None, st')
    \<Longrightarrow> \<exists>t time. en_time_status env t = Ok time \<and> finalized_anchor_genesis_time a = Some (i64_text (ts_genesis_time_unix_ms time))"
  by (auto simp: verify_genesis_time_def ok_simps time_status_def observe_def map_err_Ok split: if_splits)

lemma verify_reported_sound:
  assumes run: "verify_reported env s g lib st = (Ok (ActVerified promotion), st')"
  shows "verified_activation s g = Ok (ActVerified promotion)" "reported_conflict s g = None" "scope_conflict s g = None"
    "\<forall>c \<in> set (identity_checks s g). confirmed env lib c" "\<exists>st2. verify_genesis_time env (anchor_scope s g) st = (Ok None, st2)"
proof -
  let ?cs = "identity_checks s g" and ?ok = "(Ok (ActVerified promotion), st')"
  let ?last = "\<lambda>found. case found of Some a \<Rightarrow> run_return a | None \<Rightarrow> run_result (verified_activation s g)"
  show r: "reported_conflict s g = None" "scope_conflict s g = None"
    using run early_returns(1)[of s g "ActVerified promotion" promotion]
      early_returns(2)[of s g "ActVerified promotion" promotion]
    by (auto simp: verify_reported_def Let_def run_return_eq split: option.splits)
  have m: "\<not> is_some_and (max_slot ?cs) (\<lambda>required. br_slot lib < required)"
    using run r by (auto simp: verify_reported_def Let_def run_return_eq is_some_and_def split: option.splits if_splits)
  have "run_bind (verify_genesis_time env (anchor_scope s g)) (\<lambda>time.
      case time of Some a \<Rightarrow> run_return a | None \<Rightarrow> run_bind (verify_checks env lib ?cs) ?last) st = ?ok"
    using run r m by (auto simp: verify_reported_def Let_def is_some_and_def split: option.splits if_splits)
  then have "\<exists>st2. verify_genesis_time env (anchor_scope s g) st = (Ok None, st2) \<and> run_bind (verify_checks env lib ?cs) ?last st2 = ?ok"
    by (rule run_early) (rule early_returns(3))
  then obtain st2 where t: "verify_genesis_time env (anchor_scope s g) st = (Ok None, st2)" "run_bind (verify_checks env lib ?cs) ?last st2 = ?ok"
    by blast
  from t(2) have "\<exists>st3. verify_checks env lib ?cs st2 = (Ok None, st3) \<and> run_result (verified_activation s g) st3 = ?ok"
    by (rule run_early) (rule early_returns(4))
  then obtain st3 where v: "verify_checks env lib ?cs st2 = (Ok None, st3)" "verified_activation s g = Ok (ActVerified promotion)"
    by (auto simp: run_result_eq)
  then show "verified_activation s g = Ok (ActVerified promotion)" by simp
  show "\<forall>c \<in> set ?cs. confirmed env lib c"
  proof
    fix c assume c: "c \<in> set ?cs"
    then have "cp_slot c \<le> br_slot lib" using max_slot_ge[OF c] m by auto
    then show "confirmed env lib c" using verify_checks_sound[OF v(1)] c by (simp add: confirmed_def)
  qed
  show "\<exists>st2. verify_genesis_time env (anchor_scope s g) st = (Ok None, st2)" using t(1) by blast
qed

text \<open>The checkpoints that the identity of a catalog rests on, read off its metadata and its frontier.\<close>

lemma identity_checks_cover:
  "pending_transition s = Some t \<Longrightarrow> {it_anchor t, it_checkpoint t} \<subseteq> set (identity_checks s g)"
  "pending_transition s = None \<Longrightarrow> latest_catalog_checkpoint s = Some c \<Longrightarrow> c \<in> set (identity_checks s g)"
  "pending_transition s = None \<Longrightarrow> anchor_scope s g = Some (FinalizedAnchor time slot b p)
    \<Longrightarrow> \<lparr>cp_slot = slot, cp_block_id = b, cp_parent_id = p\<rparr> \<in> set (identity_checks s g)"
  by (auto simp: identity_checks_def identity_anchor_def identity_checkpoint_def finalized_anchor_checkpoint_def Let_def
      split: option.splits)

lemma verify_status:
  assumes "verify_catalog_candidate env s st = (Ok a, st')"
  obtains t status st1 where "en_chain_status env t = Ok status"
    "verify_reported env s (ct_genesis_id status) (ls_lib (ct_snapshot status)) st1 = (Ok a, st')"
  using assms unfolding verify_catalog_candidate_def by (auto simp: run_bind_Ok chain_status_def observe_def map_err_Ok)

lemma verified_promotion:
  assumes "verified_activation s g = Ok (ActVerified (Some p))"
  shows "ip_assurance p = promotion_assurance s (ip_new_scope p) (ip_checkpoint p)" "\<exists>genesis. g = Some genesis \<and> ip_new_scope p = GenesisId genesis"
    "ip_old_scope p = cm_network_scope (cs_metadata s)"
  using assms by (auto simp: verified_activation_def ok_simps Let_def split: network_scope.splits option.splits if_splits)

lemma ancestry_chain:
  assumes c: "covered ext U rs gs s" and a: "promotion_assurance s scope checkpoint = AncestryVerified"
  shows "\<exists>bs genesis. scope = GenesisId genesis \<and> good_run U bs \<and> cp_slot (floor_of bs) = 0 \<and> cp_block_id (floor_of bs) = genesis
    \<and> top_of bs = checkpoint \<and> cs_gaps s = []"
proof -
  obtain genesis f g where g: "scope = GenesisId genesis" "cs_frontier s = Some f" "fr_checkpoint f = Some checkpoint"
    "cs_gaps s = []" "g \<in> set (cs_segments s)" "cp_slot (sg_floor g) = 0" "cp_block_id (sg_floor g) = genesis" "length (cs_segments s) = 1"
    using a by (auto simp: promotion_assurance_def genesis_id_of_def Let_def list_ex_iff is_some_and_def
        split: network_scope.splits option.splits if_splits)
  obtain r where r: "r \<in> set rs" "g = run_segment (target_of (from_snapshot s)) r" using g(5) coveredD(4)[OF c] by auto
  have "gs = []" using coveredD(6)[OF c] g(4) by simp
  then have "rs = [r]" using coversD(3)[OF coveredD(2)[OF c]] r(1) by (cases rs) (auto simp: joined_Cons split: if_splits)
  then have "fr_checkpoint f = Some (top_of (snd r))"
    using coversD(11)[OF coveredD(2)[OF c]] g(2) by (simp add: frontier_ok_def from_snapshot_simps)
  moreover have "good_run U (snd r)" using coversD(1)[OF coveredD(2)[OF c]] r(1) by blast
  ultimately show ?thesis using g r(2) by (intro exI[of _ "snd r"] exI[of _ genesis]) simp
qed

section \<open>Properties\<close>

lemma promotion_result:
  assumes "codecs_ok (en_codecs env)" "consistent (en_codecs env) (rn_store st) s" "rn_publications st = []"
    and run: "apply_catalog_identity_promotion 4 env p now st = (r, st')"
  shows "case r of Ok x \<Rightarrow> \<exists>s'. x = Some s' \<and> promoted p s' \<and> promoting env p s (rn_store st') s'
      | Err _ \<Rightarrow> \<exists>s'. promoting env p s (rn_store st') s'"
proof -
  have "held (promoting env p s) s (rn_store st) (rn_publications st)"
    using assms by (auto simp: held_def promoting_def verified_ok_def)
  then have "case r of Ok x \<Rightarrow> \<exists>s'. x = Some s' \<and> promoted p s' \<and> held (promoting env p s) s' (rn_store st') (rn_publications st')
      | Err _ \<Rightarrow> kept (promoting env p s) (rn_store st') (rn_publications st')"
    using apply_promotion_spec[of env p s now] run unfolding spec_def by blast
  then show ?thesis by (auto simp: held_def kept_def split: result.splits)
qed

text \<open>
  C14: Whatever fault interrupts a promotion, the store reads back as the same records under metadata whose transition
  stage has not gone back, and the stages after the rebinding are only entered once the settings were rebound. A
  promotion that returns has the new scope, a committed transition of this promotion, and the old scope among the aliases.
\<close>

theorem promotion_is_resumable:
  assumes "codecs_ok (en_codecs env)" "consistent (en_codecs env) (rn_store st) s" "rn_publications st = []"
    and "apply_catalog_identity_promotion 4 env p now st = (r, st')"
  shows "\<exists>s'. snapshot (en_codecs env) (rn_store st') = Ok s' \<and> s' = s\<lparr>cs_metadata := cs_metadata s'\<rparr> \<and> rounds_of s' \<le> rounds_of s
    \<and> (rounds_of s > 2 \<and> rounds_of s' \<le> 2 \<longrightarrow> (\<exists>t. en_rebind env t (ip_old_scope p) (ip_new_scope p) = Ok ()))
    \<and> (\<forall>x. r = Ok x \<longrightarrow> x = Some s' \<and> promoted p s')"
  using promotion_result[OF assms] by (auto simp: promoting_def consistent_def split: result.splits)


text \<open>
  C16: A promotion that claims verified ancestry has it: in a reachable catalog without gaps there is one parent-linked
  chain of blocks from slot zero, whose identifier is the new genesis, up to the checkpoint the promotion names.
\<close>

theorem promotion_ancestry_holds:
  assumes "reachable ext U s" "gap_ids_differ ext U"
    and "verify_catalog_candidate env s st = (Ok (ActVerified (Some p)), st')" "ip_assurance p = AncestryVerified"
  shows "\<exists>bs. good_run U bs \<and> cp_slot (floor_of bs) = 0 \<and> ip_new_scope p = GenesisId (cp_block_id (floor_of bs))
    \<and> top_of bs = ip_checkpoint p \<and> cs_gaps s = []"
proof -
  obtain rs gs where c: "covered ext U rs gs s" using reachable_covered[OF assms(1,2)] by blast
  obtain status :: l1_chain_status and st1 where
    "verify_reported env s (ct_genesis_id status) (ls_lib (ct_snapshot status)) st1 = (Ok (ActVerified (Some p)), st')"
    using verify_status[OF assms(3)] by blast
  note v = verified_promotion[OF verify_reported_sound(1)[OF this]]
  show ?thesis using ancestry_chain[OF c v(1)[symmetric, unfolded assms(4)]] by auto
qed

end
