(* ===== verification/Coverage_Histories.thy ===== *)
theory Coverage_Histories
  imports Coverage_Properties
begin

text \<open>
  Two concrete histories of the same chain of three blocks: one ingests them in one page, the other
  loses a block, opens a gap, and repairs it later.
\<close>

section \<open>The chain\<close>

definition chain :: "nat l1_block list" where
  "chain = [sample_block 0 (CHR ''0'') (CHR ''f''), sample_block 1 (CHR ''1'') (CHR ''0''),
     channel_block 2 (CHR ''2'') (CHR ''1'') (CHR ''a'')]"

definition chain_universe :: "string \<Rightarrow> nat l1_block option" where
  "chain_universe i = find (\<lambda>b. cp_block_id (lb_checkpoint b) = i) chain"

definition chain_event :: "nat \<Rightarrow> nat l1_event" where
  "chain_event n = (let reference = block_reference_of (lb_checkpoint (chain ! 2))
     in \<lparr>le_block = chain ! n, le_snapshot = \<lparr>ls_tip = reference, ls_lib = reference\<rparr>\<rparr>)"

definition full_source :: "string \<Rightarrow> (nat l1_block option, source_error) result" where
  "full_source i = Ok (chain_universe i)"

definition empty_source :: "string \<Rightarrow> (nat l1_block option, source_error) result" where
  "empty_source i = Err (Unavailable [])"

section \<open>Histories\<close>

definition commit_step :: "catalog_snapshot \<Rightarrow> catalog_batch \<Rightarrow> catalog_snapshot option" where
  "commit_step s b = (case commit_snapshot s b of Ok s' \<Rightarrow> Some s' | Err _ \<Rightarrow> None)"

definition catch_up_step :: "catalog_snapshot \<Rightarrow> catalog_snapshot option" where
  "catch_up_step s = (case prepare_catalog_catch_up_with_resume s (block_reference_of (lb_checkpoint (chain ! 2))) sample_context False of
     Ok (Some b) \<Rightarrow> commit_step s b | _ \<Rightarrow> None)"

definition page_step :: "nat list \<Rightarrow> catalog_snapshot \<Rightarrow> catalog_snapshot option" where
  "page_step ns s = (case reduce_catalog_page sample_externals s (map chain_event ns) sample_context of
     Ok (Commit b _) \<Rightarrow> commit_step s b | _ \<Rightarrow> None)"

definition chain_confirmation :: "block_reference option \<Rightarrow> repair_confirmation" where
  "chain_confirmation lower = \<lparr>rc_target_lib = block_reference_of (lb_checkpoint (chain ! 2)), rc_lower_checkpoint = lower,
     rc_upper_frontier_checkpoint = Some (lb_checkpoint (chain ! 2))\<rparr>"

definition gap_step :: "nat list \<Rightarrow> catalog_snapshot \<Rightarrow> catalog_snapshot option" where
  "gap_step ns s = (case reduce_catalog_page sample_externals s (map chain_event ns) sample_context of
     Ok (RepairRequired r pending) \<Rightarrow> (case repair_catalog_ancestry empty_source r of
       Ok outcome \<Rightarrow> (case reduce_catalog_repair sample_externals s r pending outcome sample_context of
         Ok (GapConfirmationRequired r' pending' outcome') \<Rightarrow>
           (case confirm_catalog_repair_gap sample_externals s r' pending' outcome'
              (chain_confirmation (rq_lower_checkpoint r')) sample_context of
              Ok (Commit b _) \<Rightarrow> commit_step s b | _ \<Rightarrow> None)
       | _ \<Rightarrow> None)
     | _ \<Rightarrow> None)
   | _ \<Rightarrow> None)"

definition repair_step :: "catalog_snapshot \<Rightarrow> catalog_snapshot option" where
  "repair_step s = (case cs_gaps s of
     gap # _ \<Rightarrow> (case catalog_gap_repair_request s (gp_gap_id gap) sample_context of
       Ok r \<Rightarrow> (case repair_catalog_ancestry full_source r of
         Ok outcome \<Rightarrow> (case reduce_catalog_gap_repair sample_externals s (gp_gap_id gap) outcome
             (chain_confirmation (Some (gp_lower_checkpoint gap))) sample_context of
             Ok b \<Rightarrow> commit_step s b | Err _ \<Rightarrow> None)
       | Err _ \<Rightarrow> None)
     | Err _ \<Rightarrow> None)
   | [] \<Rightarrow> None)"

definition direct_history :: "catalog_snapshot option" where
  "direct_history = Option.bind (catch_up_step (initial_snapshot sample_metadata)) (page_step [0, 1, 2])"

definition broken_history :: "catalog_snapshot option" where
  "broken_history = Option.bind (Option.bind (catch_up_step (initial_snapshot sample_metadata)) (page_step [0])) (gap_step [2])"

definition at_target :: "coverage_status \<Rightarrow> catalog_snapshot \<Rightarrow> bool" where
  "at_target status s \<longleftrightarrow> map_option fr_coverage_status (cs_frontier s) = Some status
     \<and> Option.bind (cs_traversal s) tr_target_lib = Some (block_reference_of (lb_checkpoint (chain ! 2)))
     \<and> cursor_slot s = Some 2 \<and> length (cs_evidence s) = 1"

text \<open>The metadata and the frontier that the histories leave.\<close>

definition frontier_at :: "nat \<Rightarrow> catalog_snapshot \<Rightarrow> bool" where
  "frontier_at n s \<longleftrightarrow> map_option fr_checkpoint (cs_frontier s) = Some (Some (lb_checkpoint (chain ! n)))
     \<and> cm_network_scope (cs_metadata s) = cm_network_scope sample_metadata \<and> cm_identity_transition (cs_metadata s) = None"

definition whole_segment :: "catalog_snapshot \<Rightarrow> bool" where
  "whole_segment s \<longleftrightarrow> cs_gaps s = [] \<and> map sg_floor (cs_segments s) = [lb_checkpoint (chain ! 0)]
     \<and> map sg_frontier (cs_segments s) = [block_reference_of (lb_checkpoint (chain ! 2))]
     \<and> is_some_and (cs_frontier s) (\<lambda>f. fr_coverage_floor f = Some 0 \<and> fr_prefix_status f = PrefixComplete)"

lemma direct_complete:
  "is_some_and direct_history (\<lambda>s. at_target CoverageComplete s \<and> frontier_at 2 s \<and> whole_segment s
     \<and> validate_snapshot s = Ok ())"
  by code_simp

lemma repaired_complete:
  "is_some_and broken_history (\<lambda>s. at_target CoveragePartial s \<and> length (cs_gaps s) = 1 \<and> frontier_at 0 s
     \<and> validate_snapshot s = Ok () \<and> is_some_and (repair_step s) (at_target CoverageComplete))"
  by code_simp

end
