(* ===== verification/Coverage_Samples.thy ===== *)
theory Coverage_Samples
  imports Coverage_Histories
begin

text \<open>The two histories are reachable and witness the properties of reachable catalogs.\<close>

section \<open>The histories are reachable\<close>

lemma sample_gap_id: "gap_id_for_boundary sample_externals l u = ''gap-'' @ br_block_id l @ cp_block_id u"
proof -
  have "char_of (unat (of_int (of_char c) :: u8)) = c" for c :: char
  proof -
    have "take_bit 8 (of_char c :: int) = of_char c" by (simp add: of_char_def take_bit_horner_sum_bit_eq)
    then have "unat (of_int (of_char c) :: u8) = of_char c" by (simp add: unsigned_of_int)
    then show ?thesis by simp
  qed
  then show ?thesis by (simp add: gap_id_for_boundary_def sample_externals_def comp_def)
qed

lemma chain_universe_mem: "in_universe chain_universe b \<longleftrightarrow> b \<in> set chain"
proof
  show "in_universe chain_universe b \<Longrightarrow> b \<in> set chain"
    by (auto simp: in_universe_def chain_universe_def dest: find_Some)
  have "list_all (\<lambda>b. chain_universe (cp_block_id (lb_checkpoint b)) = Some b) chain" by code_simp
  then show "b \<in> set chain \<Longrightarrow> in_universe chain_universe b" by (simp add: list_all_iff in_universe_def)
qed

lemma chain_gap_ids: "gap_ids_differ sample_externals chain_universe"
proof -
  have "list_all (\<lambda>b. length (cp_block_id (lb_checkpoint b)) = 64) chain" by code_simp
  then have "length (cp_block_id (lb_checkpoint b)) = 64" if "in_universe chain_universe b" for b
    using that by (simp add: list_all_iff chain_universe_mem)
  then show ?thesis unfolding gap_ids_differ_def sample_gap_id by (auto simp: block_reference_of_def)
qed

lemma chain_events: "\<forall>n \<in> set ns. n < 3 \<Longrightarrow> served_events chain_universe (map chain_event ns)"
proof -
  have "length chain = 3" by (simp add: chain_def)
  then show "\<forall>n \<in> set ns. n < 3 \<Longrightarrow> served_events chain_universe (map chain_event ns)"
    by (simp add: chain_event_def Let_def chain_universe_mem)
qed

lemma sources_serve: "serves chain_universe full_source" "serves chain_universe empty_source"
  by (auto simp: serves_def full_source_def empty_source_def chain_universe_mem chain_universe_def dest: find_Some)

lemma commit_step_Some: "commit_step s b = Some s' \<longleftrightarrow> commit_snapshot s b = Ok s'"
  by (simp add: commit_step_def split: result.splits)

lemma catch_up_step_is_step: "catch_up_step s = Some s' \<Longrightarrow> catalog_step ext U s s'"
  by (auto simp: catch_up_step_def commit_step_Some split: result.splits option.splits intro: CatchUp)

lemma page_step_is_step:
  "page_step ns s = Some s' \<Longrightarrow> \<forall>n \<in> set ns. n < 3 \<Longrightarrow> catalog_step sample_externals chain_universe s s'"
  by (auto simp: page_step_def commit_step_Some split: result.splits page_reduction.splits intro: Page[OF chain_events])

lemma gap_step_is_step:
  "gap_step ns s = Some s' \<Longrightarrow> \<forall>n \<in> set ns. n < 3 \<Longrightarrow> catalog_step sample_externals chain_universe s s'"
  by (auto simp: gap_step_def commit_step_Some split: result.splits page_reduction.splits
      intro: GapConfirmed[OF chain_events sources_serve(2)])

lemma repair_step_is_step: "repair_step s = Some s' \<Longrightarrow> catalog_step sample_externals chain_universe s s'"
proof -
  have "known_checkpoint chain_universe c" if "rc_upper_frontier_checkpoint (chain_confirmation l) = Some c" for l c
    using that by (auto simp: known_checkpoint_def chain_confirmation_def chain_universe_mem chain_def)
  then show "repair_step s = Some s' \<Longrightarrow> catalog_step sample_externals chain_universe s s'"
    by (auto simp: repair_step_def commit_step_Some split: result.splits list.splits
        intro: GapRepair[OF sources_serve(1)])
qed

lemma is_some_and_iff: "is_some_and x P \<longleftrightarrow> (\<exists>v. x = Some v \<and> P v)"
  by (auto simp: is_some_and_def split: option.splits)

lemma direct_reachable:
  obtains s where "direct_history = Some s" "at_target CoverageComplete s" "reachable sample_externals chain_universe s"
    "frontier_at 2 s" "whole_segment s" "validate_snapshot s = Ok ()"
proof -
  obtain s where s: "direct_history = Some s" "at_target CoverageComplete s" "frontier_at 2 s" "whole_segment s"
    "validate_snapshot s = Ok ()" using direct_complete unfolding is_some_and_iff by blast
  then obtain s1 where s1: "catch_up_step (initial_snapshot sample_metadata) = Some s1" "page_step [0, 1, 2] s1 = Some s"
    by (auto simp: direct_history_def bind_eq_Some_conv)
  have "reachable sample_externals chain_universe s"
    using Stepped[OF Stepped[OF Created catch_up_step_is_step[OF s1(1)]] page_step_is_step[OF s1(2)]] by simp
  then show ?thesis using that s by blast
qed

lemma repaired_reachable:
  obtains s s' where "broken_history = Some s" "at_target CoveragePartial s" "length (cs_gaps s) = 1"
    "reachable sample_externals chain_universe s" "catalog_step sample_externals chain_universe s s'"
    "repair_step s = Some s'" "at_target CoverageComplete s'" "frontier_at 0 s" "validate_snapshot s = Ok ()"
proof -
  obtain s s' where s: "broken_history = Some s" "at_target CoveragePartial s" "length (cs_gaps s) = 1"
    "repair_step s = Some s'" "at_target CoverageComplete s'" "frontier_at 0 s" "validate_snapshot s = Ok ()" using repaired_complete unfolding is_some_and_iff by blast
  then obtain s1 s2 where s1: "catch_up_step (initial_snapshot sample_metadata) = Some s1" "page_step [0] s1 = Some s2"
    "gap_step [2] s2 = Some s" by (auto simp: broken_history_def bind_eq_Some_conv)
  have "reachable sample_externals chain_universe s2"
    using Stepped[OF Stepped[OF Created catch_up_step_is_step[OF s1(1)]] page_step_is_step[OF s1(2)]] by simp
  then have "reachable sample_externals chain_universe s" using Stepped gap_step_is_step[OF s1(3)] by simp
  then show ?thesis using that s repair_step_is_step[OF s(4)] by blast
qed

lemma at_target_frontier: "at_target status s \<Longrightarrow> \<exists>f. cs_frontier s = Some f \<and> fr_coverage_status f = status"
  by (auto simp: at_target_def)

lemma at_target_current: "at_target status s \<Longrightarrow> current_target s = Ok (block_reference_of (lb_checkpoint (chain ! 2)))"
  by (simp add: at_target_def current_target_def ok_or_def)

section \<open>Witnesses\<close>

theorem complete_coverage_is_whole_chain_witness:
  "\<exists>s i bs. direct_history = Some s \<and> good_run chain_universe bs \<and> cp_slot (floor_of bs) = 0 \<and> cs_gaps s = []
     \<and> set (cs_evidence s) = (\<Union>b \<in> set bs. set (block_references sample_externals i b))"
proof -
  obtain s where s: "direct_history = Some s" "at_target CoverageComplete s" "reachable sample_externals chain_universe s"
    by (rule direct_reachable)
  obtain f where "cs_frontier s = Some f" "fr_coverage_status f = CoverageComplete" using at_target_frontier[OF s(2)] by blast
  from complete_coverage_is_whole_chain[OF s(3) chain_gap_ids this] s(1) show ?thesis by blast
qed

theorem steps_keep_evidence_witness:
  "\<exists>s s' e e'. broken_history = Some s \<and> repair_step s = Some s' \<and> e \<in> set (cs_evidence s)
     \<and> e' \<in> set (cs_evidence s') \<and> e' = e\<lparr>ev_coverage_segment_id := ev_coverage_segment_id e'\<rparr>"
proof -
  obtain s s' where s: "broken_history = Some s" "at_target CoveragePartial s" "reachable sample_externals chain_universe s"
    "catalog_step sample_externals chain_universe s s'" "repair_step s = Some s'" by (rule repaired_reachable)
  obtain e where "e \<in> set (cs_evidence s)" using s(2) by (cases "cs_evidence s") (auto simp: at_target_def)
  with steps_keep_evidence[OF s(3) chain_gap_ids s(4) this] s show ?thesis by blast
qed

theorem cursor_never_moves_back_witness:
  "\<exists>s s' m. broken_history = Some s \<and> repair_step s = Some s' \<and> cursor_slot s = Some 2 \<and> cursor_slot s' = Some m \<and> 2 \<le> m"
proof -
  obtain s s' where s: "broken_history = Some s" "at_target CoveragePartial s" "reachable sample_externals chain_universe s"
    "catalog_step sample_externals chain_universe s s'" "repair_step s = Some s'" by (rule repaired_reachable)
  have "cursor_slot s = Some 2" using s(2) by (simp add: at_target_def)
  with cursor_never_moves_back[OF s(3) chain_gap_ids s(4) this] s show ?thesis by blast
qed

theorem complete_catalogs_agree_witness:
  "\<exists>s t s'. direct_history = Some s \<and> broken_history = Some t \<and> repair_step t = Some s'
     \<and> map forget_segment (cs_evidence s) = map forget_segment (cs_evidence s')
     \<and> zone_facts ` set (cs_zones s) = zone_facts ` set (cs_zones s')"
proof -
  obtain s where s: "direct_history = Some s" "at_target CoverageComplete s" "reachable sample_externals chain_universe s"
    by (rule direct_reachable)
  obtain t s' where t: "broken_history = Some t" "reachable sample_externals chain_universe t"
    "catalog_step sample_externals chain_universe t s'" "repair_step t = Some s'" "at_target CoverageComplete s'"
    by (rule repaired_reachable)
  obtain f f' where "cs_frontier s = Some f" "fr_coverage_status f = CoverageComplete"
    "cs_frontier s' = Some f'" "fr_coverage_status f' = CoverageComplete"
    using at_target_frontier[OF s(2)] at_target_frontier[OF t(5)] by blast
  moreover have "current_target s = current_target s'" using at_target_current[OF s(2)] at_target_current[OF t(5)] by simp
  ultimately show ?thesis
    using complete_catalogs_agree[OF chain_gap_ids s(3) Stepped[OF t(2,3)]] s(1) t(1,4) by blast
qed

end
