(* ===== verification/Run_Samples.thy ===== *)
theory Run_Samples
  imports Worker_Properties Identity_Properties Coverage_Samples
begin

text \<open>
  Concrete runs: a codec over a list of known records, a store that holds a given snapshot, an environment whose source
  serves the sample chain, and the witnesses of the properties of the worker and of the promotion.
\<close>

section \<open>A store that holds a given snapshot\<close>

fun position :: "'a \<Rightarrow> 'a list \<Rightarrow> nat option" where
  "position x [] = None"
| "position x (y # ys) = (if x = y then Some 0 else map_option Suc (position x ys))"

lemma position_Some: "position x xs = Some n \<Longrightarrow> n < length xs \<and> xs ! n = x"
  by (induction xs arbitrary: n) (auto split: if_splits)

text \<open>A codec that writes a known record as its position, in unary.\<close>

definition listed_codec :: "'r list \<Rightarrow> 'r codec" where
  "listed_codec rs = \<lparr>cd_encode = (\<lambda>(version, r). if version = 1 then map_option (\<lambda>n. replicate n 0) (position r rs) else None),
     cd_decode = (\<lambda>bytes. if length bytes < length rs then Some (1, rs ! length bytes) else None)\<rparr>"

lemma listed_codec_ok: "codec_ok (listed_codec rs)"
  by (auto simp: codec_ok_def listed_codec_def split: if_splits dest!: position_Some)

definition listed_table :: "('r \<Rightarrow> string) \<Rightarrow> 'r list \<Rightarrow> table" where
  "listed_table key rs = map (\<lambda>n. (key (rs ! n), replicate n 0)) [0..<length rs]"

lemma listed_table_keys: "map fst (listed_table key rs) = map key rs"
  by (rule nth_equalityI) (simp_all add: listed_table_def)

lemma listed_holds: "holds (listed_codec rs) key (listed_table key rs) rs"
  unfolding holds_def
  by (rule list_all2_all_nthI) (simp_all add: listed_table_def listed_codec_def decodes_def CATALOG_RECORD_VERSION_def)

lemma listed_first [simp]: "decodes (listed_codec (r # rs)) [] r"
  by (simp add: listed_codec_def decodes_def CATALOG_RECORD_VERSION_def)

definition listed_codecs :: "catalog_metadata list \<Rightarrow> catalog_snapshot \<Rightarrow> codecs" where
  "listed_codecs ms s = \<lparr>cd_schema = two_codec (1, 1) (1, 1), cd_metadata = listed_codec (cs_metadata s # ms),
     cd_frontier = listed_codec (case cs_frontier s of Some f \<Rightarrow> [f] | None \<Rightarrow> []),
     cd_traversal = listed_codec (case cs_traversal s of Some t \<Rightarrow> [t] | None \<Rightarrow> []),
     cd_zone = listed_codec (cs_zones s), cd_evidence = listed_codec (cs_evidence s),
     cd_segment = listed_codec (cs_segments s), cd_gap = listed_codec (cs_gaps s)\<rparr>"

definition listed_store :: "catalog_snapshot \<Rightarrow> catalog_store" where
  "listed_store s = \<lparr>st_read_only = False, st_database = \<lparr>
     db_metadata = [(''catalog'', [])] @ (if cs_frontier s = None then [] else [(''frontier'', [])]) @ [(''schema'', [0])]
       @ (if cs_traversal s = None then [] else [(''traversal'', [])]),
     db_zones = listed_table zr_channel_id (cs_zones s), db_evidence = listed_table ev_evidence_id (cs_evidence s),
     db_segments = listed_table sg_segment_id (cs_segments s), db_gaps = listed_table gp_gap_id (cs_gaps s)\<rparr>\<rparr>"

lemma listed_codecs_ok: "codecs_ok (listed_codecs ms s)"
  by (simp add: codecs_ok_def listed_codecs_def listed_codec_ok two_codec_ok)

lemma listed_consistent:
  assumes "sorted_snapshot s" "validate_snapshot s = Ok ()"
  shows "consistent (listed_codecs ms s) (listed_store s) s"
proof -
  note srt = sorted_snapshotD[OF assms(1)]
  have "sorted_tables (st_database (listed_store s))"
    unfolding sorted_tables_def listed_store_def using srt by (simp add: listed_table_keys)
  moreover have "read_snapshot (listed_codecs ms s) (st_database (listed_store s)) = Ok s"
    unfolding read_snapshot_Ok using assms(2)
    by (auto simp: listed_store_def listed_codecs_def listed_holds validate_schema_def two_codec_def bt_get_def
        CATALOG_RECORD_VERSION_def CATALOG_SCHEMA_VERSION_def ok_simps split: option.splits)
  ultimately show ?thesis by (simp add: consistent_def snapshot_def)
qed

section \<open>The environment\<close>

definition sample_environment :: "codecs \<Rightarrow> nat environment" where
  "sample_environment cd = \<lparr>en_source_revision = 1, en_run_mode = Resume, en_codecs = cd, en_cancelled = (\<lambda>_. False),
     en_desired_revision = (\<lambda>_. 1), en_report_revision = (\<lambda>_. 1), en_now_unix = (\<lambda>_. 9), en_storage_fault = (\<lambda>_. None),
     en_chain_status = (\<lambda>_. Ok \<lparr>ct_snapshot = le_snapshot (chain_event 2), ct_genesis_id = Some (cp_block_id (lb_checkpoint (chain ! 0)))\<rparr>),
     en_time_status = (\<lambda>_. Ok \<lparr>ts_genesis_time_unix_ms = 5, ts_slot_duration_ms = 1000, ts_current_slot = 2, ts_current_epoch = 0\<rparr>),
     en_finalized_range = (\<lambda>_ _. Ok []), en_block = (\<lambda>_. full_source), en_file_fault = (\<lambda>_. None),
     en_file_id = (\<lambda>_. Ok (sample_id (CHR ''a''))), en_path_exists = (\<lambda>_ _. False), en_rebind = (\<lambda>_ _ _. Ok ())\<rparr>"

definition sample_start :: "catalog_snapshot \<Rightarrow> run_state" where
  "sample_start s = \<lparr>rn_moment = 0, rn_store = listed_store s, rn_publications = [], rn_quarantined = []\<rparr>"

lemma sample_environment_serves: "env_serves chain_universe (sample_environment cd)"
  using sources_serve(1)
  by (auto simp: env_serves_def known_block_def sample_environment_def serves_def)

section \<open>Promotion of a provisional catalog\<close>

definition anchored_metadata :: catalog_metadata where
  "anchored_metadata = sample_metadata\<lparr>cm_network_scope := FinalizedAnchor ''5'' 1 (cp_block_id (lb_checkpoint (chain ! 1)))
       (cp_parent_id (lb_checkpoint (chain ! 1))), cm_identity_assurance := Provisional\<rparr>"

definition anchored_snapshot :: catalog_snapshot where
  "anchored_snapshot = empty_snapshot\<lparr>cs_metadata := anchored_metadata\<rparr>"

definition sample_promotion :: identity_promotion where
  "sample_promotion = \<lparr>ip_old_scope = cm_network_scope anchored_metadata, ip_new_scope = GenesisId (sample_id (CHR ''0'')),
     ip_anchor = lb_checkpoint (chain ! 1), ip_checkpoint = lb_checkpoint (chain ! 1), ip_assurance = SourceAttested\<rparr>"

definition sample_stage :: "transition_stage \<Rightarrow> u64 \<Rightarrow> catalog_metadata" where
  "sample_stage stage revision = anchored_metadata\<lparr>cm_identity_transition := Some \<lparr>it_old_scope = ip_old_scope sample_promotion,
     it_new_scope = ip_new_scope sample_promotion, it_anchor = ip_anchor sample_promotion, it_checkpoint = ip_checkpoint sample_promotion,
     it_source_revision = 1, it_stage = stage, it_prepared_at_unix = 9\<rparr>, cm_catalog_revision := revision, cm_updated_at_unix := 9\<rparr>"

definition sample_committed :: catalog_metadata where
  "sample_committed = (sample_stage Committed 3)\<lparr>cm_network_scope := ip_new_scope sample_promotion, cm_identity_assurance := SourceAttested,
     cm_identity_aliases := [\<lparr>ia_network_scope = ip_old_scope sample_promotion, ia_accepted_at_unix = 9\<rparr>]\<rparr>"

definition promotion_environment :: "nat environment" where
  "promotion_environment = sample_environment (listed_codecs [sample_stage Prepared 1, sample_stage SettingsRebound 2, sample_committed]
     anchored_snapshot)"

lemma anchored_consistent:
  "codecs_ok (en_codecs promotion_environment)"
  "consistent (en_codecs promotion_environment) (rn_store (sample_start anchored_snapshot)) anchored_snapshot"
proof -
  have "validate_snapshot anchored_snapshot = Ok ()" by code_simp
  moreover have "sorted_snapshot anchored_snapshot" by (simp add: sorted_snapshot_def anchored_snapshot_def empty_snapshot_def)
  ultimately show "consistent (en_codecs promotion_environment) (rn_store (sample_start anchored_snapshot)) anchored_snapshot"
    using listed_consistent by (simp add: promotion_environment_def sample_environment_def sample_start_def)
qed (simp add: promotion_environment_def sample_environment_def listed_codecs_ok)

lemma sample_promotion_run:
  "case apply_catalog_identity_promotion 4 promotion_environment sample_promotion 9 (sample_start anchored_snapshot) of
     (Ok (Some s), st) \<Rightarrow> cs_metadata s = sample_committed | _ \<Rightarrow> False"
  by code_simp

theorem promotion_is_resumable_witness:
  "\<exists>s st'. apply_catalog_identity_promotion 4 promotion_environment sample_promotion 9 (sample_start anchored_snapshot) = (Ok (Some s), st')
     \<and> snapshot (en_codecs promotion_environment) (rn_store st') = Ok s \<and> promoted sample_promotion s"
proof -
  obtain s st' where r: "apply_catalog_identity_promotion 4 promotion_environment sample_promotion 9 (sample_start anchored_snapshot)
      = (Ok (Some s), st')"
    using sample_promotion_run by (auto split: prod.splits result.splits option.splits)
  from promotion_is_resumable[OF anchored_consistent _ this] r show ?thesis by (auto simp: sample_start_def)
qed

section \<open>Verified candidates\<close>

lemma chain_checkpoint: "b \<in> set chain \<Longrightarrow> cp_slot (lb_checkpoint b) \<le> 2 \<and> (cp_slot (lb_checkpoint b) = 2 \<longrightarrow> b = chain ! 2)"
  by (auto simp: chain_def sample_block_def channel_block_def sample_checkpoint_def)

lemma chain_served: "b \<in> set chain \<Longrightarrow> full_source (cp_block_id (lb_checkpoint b)) = Ok (Some b)"
  using chain_universe_mem[of b] by (simp add: in_universe_def full_source_def)

lemma max_slot_member: "max_slot cs = Some m \<Longrightarrow> m \<in> cp_slot ` set cs"
  by (induction cs arbitrary: m) (auto simp: max_def split: option.splits)

lemma sample_current [simp]: "ensure_current (sample_environment cd) st = (Ok (), st\<lparr>rn_moment := rn_moment st + 1\<rparr>)"
  by (simp add: ensure_current_def observe_def sample_environment_def)

lemma sample_lib:
  "br_slot (ls_lib (le_snapshot (chain_event 2))) = 2"
  "br_block_id (ls_lib (le_snapshot (chain_event 2))) = cp_block_id (lb_checkpoint (chain ! 2))"
  by (simp_all add: chain_event_def Let_def block_reference_of_def chain_def channel_block_def sample_checkpoint_def)

lemma sample_checks:
  assumes "set cs \<subseteq> lb_checkpoint ` set chain"
  shows "\<exists>st'. verify_checks (sample_environment cd) (ls_lib (le_snapshot (chain_event 2))) cs st = (Ok None, st')"
  using assms
proof (induction cs arbitrary: st)
  case (Cons c cs)
  then obtain b where b: "b \<in> set chain" "c = lb_checkpoint b" by auto
  have "source_block (sample_environment cd) (cp_block_id c) st = (Ok (Some b), st\<lparr>rn_moment := rn_moment st + 1\<rparr>)" for st
    using chain_served[OF b(1)] by (simp add: source_block_def observe_def sample_environment_def b(2))
  then show ?case using Cons chain_checkpoint[OF b(1)] b(2) by (auto simp: run_bind_def sample_lib)
qed (simp add: run_return_def)

definition sample_genesis :: string where
  "sample_genesis = cp_block_id (lb_checkpoint (chain ! 0))"

lemma sample_status: "chain_status (sample_environment cd) st
    = (Ok \<lparr>ct_snapshot = le_snapshot (chain_event 2), ct_genesis_id = Some sample_genesis\<rparr>, st\<lparr>rn_moment := rn_moment st + 1\<rparr>)"
  by (simp add: chain_status_def observe_def sample_environment_def sample_genesis_def)

lemma sample_time:
  assumes "cm_network_scope (cs_metadata s) \<in> {cm_network_scope sample_metadata, cm_network_scope anchored_metadata}"
  shows "\<exists>st'. verify_genesis_time (sample_environment cd) (anchor_scope s (Some g)) st = (Ok None, st')"
proof -
  have "i64_text 5 = ''5''" by code_simp
  then show ?thesis using assms
    by (auto simp: anchor_scope_def sample_metadata_def anchored_metadata_def verify_genesis_time_def run_bind_def run_return_def
        finalized_anchor_genesis_time_def time_status_def observe_def sample_environment_def ensure_current_def)
qed

lemma sample_candidate:
  assumes scope: "cm_network_scope (cs_metadata s) \<in> {cm_network_scope sample_metadata, cm_network_scope anchored_metadata}"
    and s: "cm_identity_transition (cs_metadata s) = None" "set_option (latest_catalog_checkpoint s) \<subseteq> lb_checkpoint ` set chain"
  shows "\<exists>st'. verify_catalog_candidate (sample_environment cd) s st = (verified_activation s (Some sample_genesis), st')"
proof -
  let ?g = "Some sample_genesis" and ?lib = "ls_lib (le_snapshot (chain_event 2))"
  have anchor: "set_option (identity_anchor s ?g) \<subseteq> lb_checkpoint ` set chain"
    using scope s(1) by (auto simp: identity_anchor_def pending_transition_def anchor_scope_def sample_metadata_def
        anchored_metadata_def finalized_anchor_checkpoint_def chain_def sample_block_def sample_checkpoint_def)
  then have checks: "set (identity_checks s ?g) \<subseteq> lb_checkpoint ` set chain"
    using s by (auto simp: identity_checks_def identity_checkpoint_def pending_transition_def Let_def split: option.splits if_splits)
  have none: "reported_conflict s ?g = None" "scope_conflict s ?g = None"
    using scope s(1) by (auto simp: reported_conflict_def scope_conflict_def pending_transition_def sample_metadata_def
        anchored_metadata_def sample_genesis_def chain_def sample_block_def sample_checkpoint_def)
  have slot: "\<not> br_slot ?lib < m" if "max_slot (identity_checks s ?g) = Some m" for m
    using max_slot_member[OF that] checks chain_checkpoint
    by (auto simp: sample_lib not_less)
  obtain st1 where "verify_genesis_time (sample_environment cd) (anchor_scope s ?g) st0 = (Ok None, st1 st0)" for st0
    using sample_time[OF scope, where cd = cd and g = sample_genesis] by metis
  moreover obtain st2 where "verify_checks (sample_environment cd) ?lib (identity_checks s ?g) st0 = (Ok None, st2 st0)" for st0
    using sample_checks[OF checks, where cd = cd] by metis
  ultimately show ?thesis using none slot
    by (auto simp: verify_catalog_candidate_def verify_reported_def run_bind_def sample_status run_result_def Let_def split: option.splits)
qed


text \<open>The complete sample history under a provisional scope.\<close>

lemma direct_ancestry:
  assumes "frontier_at 2 s" "whole_segment s"
  obtains p :: identity_promotion and st' where "ip_assurance p = AncestryVerified"
    "verify_catalog_candidate (sample_environment cd) (s\<lparr>cs_metadata := anchored_metadata\<rparr>) st = (Ok (ActVerified (Some p)), st')"
proof -
  let ?s = "s\<lparr>cs_metadata := anchored_metadata\<rparr>"
  have top: "latest_catalog_checkpoint ?s = Some (lb_checkpoint (chain ! 2))"
    using assms(1) by (auto simp: frontier_at_def latest_catalog_checkpoint_def)
  have pending: "pending_transition ?s = None" by (simp add: pending_transition_def anchored_metadata_def sample_metadata_def)
  obtain g where "cs_segments s = [g]" "sg_floor g = lb_checkpoint (chain ! 0)" "sg_frontier g = block_reference_of (lb_checkpoint (chain ! 2))"
    using assms(2) by (auto simp: whole_segment_def)
  then have "promotion_assurance ?s (GenesisId sample_genesis) (lb_checkpoint (chain ! 2)) = AncestryVerified"
    using assms by (auto simp: promotion_assurance_def genesis_id_of_def sample_genesis_def frontier_at_def whole_segment_def
        block_reference_of_def is_some_and_iff chain_def sample_block_def sample_checkpoint_def)
  then obtain p where p: "verified_activation ?s (Some sample_genesis) = Ok (ActVerified (Some p))" "ip_assurance p = AncestryVerified"
    using top pending by (auto simp: verified_activation_def anchored_metadata_def identity_anchor_def identity_checkpoint_def anchor_scope_def
        finalized_anchor_checkpoint_def Let_def ok_or_def is_some_and_def unwrap_or_def)
  have "chain ! 2 \<in> set chain" by (simp add: chain_def)
  then have "\<exists>st'. verify_catalog_candidate (sample_environment cd) ?s st = (Ok (ActVerified (Some p)), st')"
    using sample_candidate[of ?s cd st] top unfolding p(1) by (simp add: anchored_metadata_def sample_metadata_def)
  then show ?thesis using that p(2) by blast
qed

theorem promotion_ancestry_holds_witness:
  "\<exists>s (p :: identity_promotion) bs. direct_history = Some s \<and> ip_new_scope p = GenesisId (cp_block_id (floor_of bs)) \<and> good_run chain_universe bs
     \<and> cp_slot (floor_of bs) = 0 \<and> top_of bs = ip_checkpoint p"
proof -
  obtain s where s: "direct_history = Some s" "reachable sample_externals chain_universe s" "frontier_at 2 s" "whole_segment s"
    using direct_reachable by metis
  obtain p :: identity_promotion and st' where p: "ip_assurance p = AncestryVerified" "verify_catalog_candidate promotion_environment
      (s\<lparr>cs_metadata := anchored_metadata\<rparr>) (sample_start s) = (Ok (ActVerified (Some p)), st')"
    using direct_ancestry[OF s(3,4)] unfolding promotion_environment_def by metis
  have "reachable sample_externals chain_universe (s\<lparr>cs_metadata := anchored_metadata\<rparr>)" by (rule Stepped[OF s(2) Metadata])
  from promotion_ancestry_holds[OF this chain_gap_ids p(2,1)] s(1) show ?thesis by blast
qed

section \<open>Scans of a catalog with a gap\<close>

text \<open>The broken sample history in a store, with a source that could repair it.\<close>

definition gap_environment :: "catalog_snapshot \<Rightarrow> nat environment" where
  "gap_environment s = sample_environment (listed_codecs [] s)"

lemma gap_scanned:
  obtains s where "broken_history = Some s" "length (cs_gaps s) = 1" "reachable sample_externals chain_universe s" "frontier_at 0 s"
    "codecs_ok (en_codecs (gap_environment s))" "consistent (en_codecs (gap_environment s)) (rn_store (sample_start s)) s"
    "at_target CoveragePartial s"
proof -
  obtain s where s: "broken_history = Some s" "length (cs_gaps s) = 1" "reachable sample_externals chain_universe s" "frontier_at 0 s"
    "validate_snapshot s = Ok ()" "at_target CoveragePartial s" using repaired_reachable by metis
  obtain rs gs where c: "covered sample_externals chain_universe rs gs s" using reachable_covered[OF s(3) chain_gap_ids] by blast
  show ?thesis
  proof (rule that[OF s(1-4)])
    show "codecs_ok (en_codecs (gap_environment s))" by (simp add: gap_environment_def sample_environment_def listed_codecs_ok)
    show "consistent (en_codecs (gap_environment s)) (rn_store (sample_start s)) s"
      using listed_consistent[OF coveredD(1)[OF c]] s
      by (simp add: gap_environment_def sample_environment_def sample_start_def)
  qed (rule s(6))
qed

lemma gap_environment_serves: "env_serves chain_universe (gap_environment s)"
  unfolding gap_environment_def by (rule sample_environment_serves)

theorem scan_keeps_catalog_reachable_witness:
  "\<exists>s s'. broken_history = Some s \<and> reachable sample_externals chain_universe s'
     \<and> snapshot (en_codecs (gap_environment s)) (rn_store (snd (run_catalog_scan 1 (gap_environment s) sample_externals (sample_start s)))) = Ok s'"
proof -
  obtain s where s: "broken_history = Some s" "reachable sample_externals chain_universe s" "codecs_ok (en_codecs (gap_environment s))"
    "consistent (en_codecs (gap_environment s)) (rn_store (sample_start s)) s" by (rule gap_scanned)
  have "rn_publications (sample_start s) = []" by (simp add: sample_start_def)
  from scan_keeps_catalog_reachable[OF s(3,4) gap_environment_serves chain_gap_ids s(2) this surjective_pairing] s(1)
  show ?thesis by blast
qed

theorem scan_cycles_end_witness:
  "\<exists>s. broken_history = Some s \<and> fst (run_catalog_scan 2 (gap_environment s) sample_externals (sample_start s)) \<noteq> Ok None"
proof -
  obtain s where s: "broken_history = Some s" "reachable sample_externals chain_universe s" "codecs_ok (en_codecs (gap_environment s))"
    "consistent (en_codecs (gap_environment s)) (rn_store (sample_start s)) s" by (rule gap_scanned)
  have "rn_publications (sample_start s) = []" by (simp add: sample_start_def)
  from scan_cycles_end[OF s(3,4) gap_environment_serves chain_gap_ids s(2) this] s(1) show ?thesis by blast
qed

theorem scan_never_closes_gaps_witness:
  "\<exists>s s'. broken_history = Some s \<and> length (cs_gaps s) = 1 \<and> 1 \<le> length (cs_gaps s')
     \<and> snapshot (en_codecs (gap_environment s)) (rn_store (snd (run_catalog_scan 9 (gap_environment s) sample_externals (sample_start s)))) = Ok s'"
proof -
  obtain s where s: "broken_history = Some s" "length (cs_gaps s) = 1" "reachable sample_externals chain_universe s"
    "codecs_ok (en_codecs (gap_environment s))" "consistent (en_codecs (gap_environment s)) (rn_store (sample_start s)) s"
    by (rule gap_scanned)
  have "rn_publications (sample_start s) = []" by (simp add: sample_start_def)
  from scan_never_closes_gaps[OF s(4,5) gap_environment_serves chain_gap_ids s(3) this surjective_pairing] s(1,2)
  show ?thesis by metis
qed

theorem connected_gap_repair_refused_witness:
  "\<exists>s gap confirmation e. broken_history = Some s \<and> cs_gaps s = [gap]
     \<and> fst (confirm_current_catalog (gap_environment s) s (Some (gp_lower_checkpoint gap)) (sample_start s)) = Ok confirmation
     \<and> reduce_catalog_gap_repair sample_externals s (gp_gap_id gap) (Connected [chain ! 1]) confirmation sample_context = Err e"
proof -
  obtain s where s: "broken_history = Some s" "length (cs_gaps s) = 1" "reachable sample_externals chain_universe s" "frontier_at 0 s"
    and at: "at_target CoveragePartial s" by (rule gap_scanned)
  obtain gap where gap: "cs_gaps s = [gap]" using s(2) by (auto simp: length_Suc_conv)
  have "verified_activation s (Some sample_genesis) = Ok (ActVerified None)"
    using s(4) by (simp add: verified_activation_def frontier_at_def sample_metadata_def)
  moreover have "chain ! 0 \<in> set chain" by (simp add: chain_def)
  then have "set_option (latest_catalog_checkpoint s) \<subseteq> lb_checkpoint ` set chain"
    using s(4) by (auto simp: frontier_at_def latest_catalog_checkpoint_def)
  ultimately obtain st1 where "verify_catalog_candidate (gap_environment s) s (sample_start s) = (Ok (ActVerified None), st1)"
    using sample_candidate[of s "listed_codecs [] s" "sample_start s"] s(4) unfolding gap_environment_def by (auto simp: frontier_at_def)
  then obtain c where c: "confirm_current_catalog (gap_environment s) s (Some (gp_lower_checkpoint gap)) (sample_start s) = (Ok c, st1)"
    using at by (simp add: confirm_current_catalog_def run_bind_def run_result_def run_return_def at_target_def ok_or_def)
  from connected_gap_repair_refused[OF s(3) chain_gap_ids c, of "gp_gap_id gap" "[chain ! 1]" sample_context] s(1) gap c
  show ?thesis by auto
qed

end
