(* ===== verification/Catalog_Activation.thy ===== *)
theory Catalog_Activation
  imports Catalog_Worker
begin

text \<open>
  The part of \<open>src/inspection/catalog/worker.rs\<close> before the scan: the catalog directory of a source, the candidate files in
  it, their activation or quarantine, and the creation of a new catalog. A candidate file is given by its path and
  its tables. Renaming a file and creating the directory are interactions that can fail; the state of the run lists the files
  it has quarantined with the reason. The activation loop waits for a source that is behind; its fuel bounds the rounds, and
  \<open>None\<close> is a run that still waits.
\<close>

section \<open>Paths and scopes\<close>


definition source_catalog_directory :: "string \<Rightarrow> (string, service_error) result" where
  "source_catalog_directory fingerprint =
     and_then (ok_or (strip_prefix ''sha256:'' fingerprint)
       (SvInvalidSource ''catalog source fingerprint has an unknown format'')) (\<lambda>digest.
     if length digest \<noteq> 64 \<or> \<not> list_all is_ascii_hexdigit digest
     then Err (SvInvalidSource ''catalog source fingerprint is invalid'')
     else Ok (to_ascii_lowercase digest))"

definition resolve_catalog_network_scope :: "'n environment \<Rightarrow> network_scope run_of" where
  "resolve_catalog_network_scope env =
     run_bind (ensure_current env) (\<lambda>_.
     run_bind (chain_status env) (\<lambda>status.
     run_bind (ensure_current env) (\<lambda>_.
     case ct_genesis_id status of
       Some genesis \<Rightarrow> run_return (GenesisId genesis)
     | None \<Rightarrow>
         run_bind (time_status env) (\<lambda>time.
         run_bind (ensure_current env) (\<lambda>_.
         run_bind (run_result (map_err map_source_error (range_request_new 0 (ls_lib (ct_snapshot status)) 1))) (\<lambda>request.
         run_bind (finalized_range env request) (\<lambda>events.
         run_bind (ensure_current env) (\<lambda>_.
         case events of
           [] \<Rightarrow> run_result (Err (SvSource ''L1 source cannot return its earliest finalized anchor block''))
         | e # _ \<Rightarrow> run_return (FinalizedAnchor (i64_text (ts_genesis_time_unix_ms time)) (cp_slot (event_checkpoint e))
             (cp_block_id (event_checkpoint e)) (cp_parent_id (event_checkpoint e)))))))))))"

definition source_behind_message :: "u64 \<Rightarrow> u64 \<Rightarrow> string" where
  "source_behind_message lib required =
     ''Bedrock is still syncing: finalized LIB '' @ u64_text lib @ '' has not reached Zone Catalog checkpoint ''
     @ u64_text required @ ''. Zones resume automatically when it catches up.''"

section \<open>Catalog files\<close>

definition file_task :: "'n environment \<Rightarrow> string \<Rightarrow> unit run_of" where
  "file_task env failed = observe (\<lambda>t. case en_file_fault env t of
     Some fault \<Rightarrow> Err (SvWorker (WorkerText (failed @ '': '' @ fault))) | None \<Rightarrow> Ok ())"

definition quarantine_catalog :: "'n environment \<Rightarrow> string \<Rightarrow> string \<Rightarrow> unit run_of" where
  "quarantine_catalog env path reason =
     run_bind (ensure_current env) (\<lambda>_.
     run_bind (file_task env ''failed to quarantine Zone Catalog'') (\<lambda>_.
     run_bind (\<lambda>st. (Ok (), st\<lparr>rn_quarantined := rn_quarantined st @ [(path, reason)]\<rparr>)) (\<lambda>_.
     ensure_current env)))"

text \<open>What opening a candidate gives: its snapshot, an invalidated catalog, or another error.\<close>

datatype opened = Opened catalog_snapshot | OpenInvalidated | OpenFailed service_error

definition open_result :: "'n environment \<Rightarrow> database \<Rightarrow> nat \<Rightarrow> opened" where
  "open_result env db t = (case en_storage_fault env t of
     Some fault \<Rightarrow> OpenFailed (SvCatalog (CatalogText fault))
   | None \<Rightarrow> (case and_then (open_store (en_codecs env) False db) (snapshot (en_codecs env)) of
       Ok s \<Rightarrow> Opened s
     | Err (Invalidated _ _) \<Rightarrow> OpenInvalidated
     | Err e \<Rightarrow> OpenFailed (map_catalog_error e)))"

definition open_catalog_snapshot :: "'n environment \<Rightarrow> database \<Rightarrow> opened run_of" where
  "open_catalog_snapshot env db =
     run_bind (ensure_current env) (\<lambda>_.
     run_bind (observe (\<lambda>t. Ok (open_result env db t))) (\<lambda>result.
     run_bind (ensure_current env) (\<lambda>_. run_return result)))"

definition open_catalog :: "'n environment \<Rightarrow> database \<Rightarrow> unit run_of" where
  "open_catalog env db = run_blocking_catalog env (\<lambda>_.
     and_then (open_store (en_codecs env) False db) (\<lambda>store. Ok (store, ())))"

section \<open>Candidates\<close>

datatype candidate_outcome =
    CandidateActive
  | CandidateRetry
  | CandidateRefused string

text \<open>One round of the activation loop of \<open>open_or_create_catalog\<close>.\<close>

definition activate_candidate :: "'n environment \<Rightarrow> database \<Rightarrow> identity_promotion option \<Rightarrow> candidate_outcome option run_of" where
  "activate_candidate env db promotion =
     run_bind (open_catalog env db) (\<lambda>_.
     run_bind (case promotion of
         Some p \<Rightarrow> run_bind (now_unix env) (\<lambda>now. apply_catalog_identity_promotion 4 env p now)
       | None \<Rightarrow> run_bind (catalog_snapshot_of env) (\<lambda>s'. run_return (Some s'))) (\<lambda>active.
     case active of
       None \<Rightarrow> run_return None
     | Some s' \<Rightarrow> run_bind (publish_verified env s') (\<lambda>_. run_return (Some CandidateActive))))"

definition wait_with :: "'n environment \<Rightarrow> publication \<Rightarrow> candidate_outcome option run_of" where
  "wait_with env p =
     run_bind (publish env p) (\<lambda>_.
     run_bind (wait_for_retry env CATALOG_POLL_INTERVAL) (\<lambda>_. run_return (Some CandidateRetry)))"

definition candidate_round :: "'n environment \<Rightarrow> database \<Rightarrow> catalog_snapshot \<Rightarrow> candidate_outcome option run_of" where
  "candidate_round env db s =
     run_bind (verify_catalog_candidate env s) (\<lambda>activation. case activation of
       ActVerified promotion \<Rightarrow>
         if en_run_mode env = Rebuild then run_return (Some (CandidateRefused ''rebuild''))
         else activate_candidate env db promotion
     | ActSourceBehind lib required \<Rightarrow>
         wait_with env \<lparr>pb_verification_state = StateSourceBehind, pb_catalog = Some s,
           pb_readiness = Some \<lparr>rr_phase = WaitingForBedrock, rr_finalized_lib_slot = lib,
             rr_required_checkpoint_slot = required\<rparr>,
           pb_current_error = Some (source_behind_message lib required)\<rparr>
     | ActCachedUnverified detail \<Rightarrow>
         wait_with env \<lparr>pb_verification_state = StateCachedUnverified, pb_catalog = Some s, pb_readiness = None,
           pb_current_error = Some detail\<rparr>
     | ActMismatch detail \<Rightarrow>
         run_bind (publish env \<lparr>pb_verification_state = StateMismatch, pb_catalog = None, pb_readiness = None,
             pb_current_error = Some detail\<rparr>) (\<lambda>_.
         run_return (Some (CandidateRefused ''mismatch''))))"

text \<open>The loop for one candidate: \<open>True\<close> when it is active, \<open>False\<close> when it was quarantined.\<close>

fun candidate_loop :: "nat \<Rightarrow> 'n environment \<Rightarrow> string \<Rightarrow> database \<Rightarrow> catalog_snapshot \<Rightarrow> bool option run_of" where
  "candidate_loop 0 env path db s = run_return None"
| "candidate_loop (Suc fuel) env path db s =
     run_bind (candidate_round env db s) (\<lambda>outcome. case outcome of
       None \<Rightarrow> run_return None
     | Some CandidateActive \<Rightarrow> run_return (Some True)
     | Some CandidateRetry \<Rightarrow> candidate_loop fuel env path db s
     | Some (CandidateRefused reason) \<Rightarrow>
         run_bind (quarantine_catalog env path reason) (\<lambda>_. run_return (Some False)))"

section \<open>A new catalog\<close>

definition metadata_new :: "'n environment \<Rightarrow> network_scope \<Rightarrow> u64 \<Rightarrow> catalog_metadata run_of" where
  "metadata_new env scope created_at =
     run_bind (run_result (map_err map_catalog_error (canonical_network_scope scope))) (\<lambda>scope.
     run_bind (observe (\<lambda>t. map_err (\<lambda>e. SvCatalog (CatalogText e)) (en_file_id env t))) (\<lambda>random.
     run_return \<lparr>cm_catalog_file_id = ''catalog_'' @ random, cm_network_scope = scope, cm_identity_aliases = [],
       cm_identity_assurance = (case scope of GenesisId _ \<Rightarrow> SourceAttested | FinalizedAnchor _ _ _ _ \<Rightarrow> Provisional),
       cm_identity_transition = None, cm_catalog_revision = 0, cm_created_at_unix = created_at,
       cm_updated_at_unix = created_at\<rparr>))"

definition create_catalog :: "'n environment \<Rightarrow> unit run_of" where
  "create_catalog env =
     run_bind (resolve_catalog_network_scope env) (\<lambda>scope.
     run_bind (now_unix env) (\<lambda>now.
     run_bind (metadata_new env scope now) (\<lambda>metadata.
     run_bind (observe (\<lambda>t. Ok (en_path_exists env t (cm_catalog_file_id metadata @ ''.redb'')))) (\<lambda>path_exists.
     run_blocking_catalog env (\<lambda>_.
       and_then (create_store (en_codecs env) path_exists metadata) (\<lambda>store. Ok (store, ())))))))"

section \<open>A run\<close>

fun open_or_create_catalog :: "nat \<Rightarrow> 'n environment \<Rightarrow> (string \<times> database) list \<Rightarrow> unit option run_of" where
  "open_or_create_catalog fuel env [] =
     run_bind (create_catalog env) (\<lambda>_.
     run_bind (catalog_snapshot_of env) (\<lambda>s.
     run_bind (publish_verified env s) (\<lambda>_. run_return (Some ()))))"
| "open_or_create_catalog fuel env ((path, db) # candidates) =
     run_bind (ensure_current env) (\<lambda>_.
     run_bind (open_catalog_snapshot env db) (\<lambda>result. case result of
       OpenInvalidated \<Rightarrow>
         run_bind (quarantine_catalog env path ''invalid'') (\<lambda>_. open_or_create_catalog fuel env candidates)
     | OpenFailed e \<Rightarrow> run_result (Err e)
     | Opened s \<Rightarrow>
         run_bind (publish env \<lparr>pb_verification_state = StateCachedUnverified, pb_catalog = Some s, pb_readiness = None,
             pb_current_error = None\<rparr>) (\<lambda>_.
         run_bind (candidate_loop fuel env path db s) (\<lambda>active. case active of
           None \<Rightarrow> run_return None
         | Some True \<Rightarrow> run_return (Some ())
         | Some False \<Rightarrow> open_or_create_catalog fuel env candidates))))"

definition run_source ::
  "nat \<Rightarrow> nat \<Rightarrow> 'n environment \<Rightarrow> 'n externals \<Rightarrow> string \<Rightarrow> (string \<times> database) list \<Rightarrow> scan_state option run_of" where
  "run_source fuel cycles env ext fingerprint candidates =
     run_bind (run_result (source_catalog_directory fingerprint)) (\<lambda>_.
     run_bind (file_task env ''failed to create Zone Catalog directory'') (\<lambda>_.
     run_bind (open_or_create_catalog fuel env candidates) (\<lambda>opened. case opened of
       None \<Rightarrow> run_return None
     | Some _ \<Rightarrow>
         run_bind (ensure_current env) (\<lambda>_. run_catalog_scan cycles env ext))))"

end
