(* ===== verification/Activation_Properties.thy ===== *)
theory Activation_Properties
  imports Worker_Properties Catalog_Activation
begin

text \<open>
  Activation and creation hand the scan a catalog that it can keep: a run publishes only reachable catalogs as verified, from
  its first publication on, and moves a catalog file away only when the file is invalidated, the source contradicts it, or a
  rebuild was asked for.
\<close>

section \<open>Specifications with weaker errors\<close>

lemma spec_error:
  assumes "spec A m B E" "\<And>s p. E s p \<Longrightarrow> E' s p"
  shows "spec A m B E'"
  by (rule specI) (use spec_Ok[OF assms(1)] spec_Err[OF assms(1)] assms(2) in blast)+

lemma spec_ex: "(\<And>s. spec (A s) m B E) \<Longrightarrow> spec (\<lambda>st ps. \<exists>s. A s st ps) m B E"
  unfolding spec_def by blast

definition unverified :: assertion where
  "unverified st ps \<longleftrightarrow> (\<forall>p \<in> set ps. pb_verification_state p \<noteq> StateVerified)"

lemma spec_unverified: "untouched m \<Longrightarrow> (\<And>s p. unverified s p \<Longrightarrow> E s p) \<Longrightarrow> spec unverified m (\<lambda>_. unverified) E"
  by (rule spec_untouched)

lemma publish_unverified:
  "pb_verification_state p \<noteq> StateVerified \<Longrightarrow> (\<And>s p. unverified s p \<Longrightarrow> E s p) \<Longrightarrow> spec unverified (publish env p) (\<lambda>_. unverified) E"
  by (auto simp: spec_def publish_def Let_def unverified_def)

section \<open>Promotion in a kept catalog\<close>

context catalog_keeper
begin

lemma update_spec:
  "spec (held good s) (run_blocking_catalog env (\<lambda>store. update_metadata (en_codecs env) store revision now update))
    (\<lambda>s'. held good s') (kept good)"
  by (rule spec_blocking) (auto simp: held_def kept_def intro: updated)

lemma promotion_loop_held:
  "spec (held good s) (promotion_loop fuel env p now s) (\<lambda>r st ps. kept good st ps \<and> (\<forall>s'. r = Some s' \<longrightarrow> held good s' st ps)) (kept good)"
proof (induction fuel arbitrary: s)
  case 0
  show ?case unfolding promotion_loop.simps by (rule spec_return) (auto intro: held_kept)
next
  case (Suc fuel)
  note step = spec_bind[OF update_spec Suc] and current = spec_bind[OF spec_held[OF untouched_primitives(1)]]
  have rebind: "spec (held good s) (observe (\<lambda>t. en_rebind env t a b)) (\<lambda>_. held good s) (kept good)" for a b
    by (rule spec_held) simp
  show ?case unfolding promotion_loop.simps Let_def prepare_identity_promotion_def mark_identity_settings_rebound_def commit_identity_promotion_def
    by (auto split: option.splits transition_stage.splits intro!: step current spec_bind[OF rebind] spec_result spec_return intro: held_kept)
qed

end

section \<open>Activation and creation\<close>

definition published :: "(catalog_store \<Rightarrow> catalog_snapshot \<Rightarrow> bool) \<Rightarrow> assertion" where
  "published good st ps \<longleftrightarrow> verified_ok (\<lambda>c. \<exists>st. good st c) ps"

lemma unverified_published: "unverified st ps \<Longrightarrow> published good st ps"
  by (auto simp: unverified_def published_def verified_ok_def)

lemma kept_published: "kept good st ps \<Longrightarrow> published good st ps"
  by (auto simp: kept_def held_def published_def)

lemma unverified_kept: "unverified st ps \<Longrightarrow> \<exists>s. good st' s \<Longrightarrow> kept good st' ps"
  by (auto simp: unverified_def kept_def held_def verified_ok_def)

definition activated :: "(catalog_store \<Rightarrow> catalog_snapshot \<Rightarrow> bool) \<Rightarrow> candidate_outcome option \<Rightarrow> assertion" where
  "activated good r = (case r of None \<Rightarrow> published good | Some CandidateActive \<Rightarrow> kept good | Some _ \<Rightarrow> unverified)"

text \<open>A catalog is kept from its opening or its creation on.\<close>

locale catalog_opener = catalog_keeper +
  fixes readable :: "database \<Rightarrow> bool" and ready :: bool
  assumes opened: "readable db \<Longrightarrow> open_store (en_codecs env) False db = Ok st \<Longrightarrow> \<exists>s. good st s"
    and created: "ready \<Longrightarrow> create_store (en_codecs env) path_exists md = Ok st \<Longrightarrow> \<exists>s. good st s"
begin

lemma open_spec:
  assumes "readable db"
  shows "spec unverified (open_catalog env db) (\<lambda>_. kept good) (published good)"
  unfolding open_catalog_def
  by (rule spec_blocking)
    (auto simp: and_then_Ok intro: unverified_published kept_published unverified_kept opened[OF assms])

lemma untouched_create:
  "untouched (resolve_catalog_network_scope env)" "untouched (metadata_new env scope now)"
  unfolding resolve_catalog_network_scope_def metadata_new_def
  by (auto intro!: untouched_bind untouched_split split: option.splits list.splits)

lemma create_spec:
  assumes ready
  shows "spec unverified (create_catalog env) (\<lambda>_. kept good) (published good)"
proof -
  have task: "spec unverified (run_blocking_catalog env (\<lambda>_.
      and_then (create_store (en_codecs env) path_exists md) (\<lambda>store. Ok (store, ())))) (\<lambda>_. kept good) (published good)" for path_exists md
    by (rule spec_blocking) (auto simp: and_then_Ok intro: unverified_published kept_published unverified_kept created[OF assms])
  show ?thesis unfolding create_catalog_def
    by (intro spec_bind[OF spec_unverified] untouched_create task) (simp_all add: unverified_published)
qed

lemma promotion_spec: "spec (kept good) (apply_catalog_identity_promotion fuel env p now)
    (\<lambda>r st ps. kept good st ps \<and> (\<forall>s. r = Some s \<longrightarrow> held good s st ps)) (kept good)"
proof -
  have "spec (held good s) (apply_catalog_identity_promotion fuel env p now)
      (\<lambda>r st ps. kept good st ps \<and> (\<forall>s. r = Some s \<longrightarrow> held good s st ps)) (kept good)" for s
    unfolding apply_catalog_identity_promotion_def
    by (rule spec_bind[OF snapshot_spec], rule spec_fact) (simp add: promotion_loop_held)
  then show ?thesis unfolding kept_def by (rule spec_ex)
qed

end

section \<open>A run\<close>

context catalog_opener
begin

lemma publish_kept: "spec (held good s) (publish_verified env s) (\<lambda>_. kept good) (published good)"
  by (rule spec_error[OF spec_weaken[OF spec_publish_verified[of good s env]]]) (auto intro: held_kept kept_published)

lemma activate_spec:
  assumes "readable db"
  shows "spec unverified (activate_candidate env db promotion) (activated good) (published good)"
proof -
  have finished: "spec (\<lambda>st ps. kept good st ps \<and> (\<forall>s. active = Some s \<longrightarrow> held good s st ps)) (case active of
        None \<Rightarrow> run_return None
      | Some s \<Rightarrow> run_bind (publish_verified env s) (\<lambda>_. run_return (Some CandidateActive))) (activated good) (published good)" for active
  proof (cases active)
    case None
    then show ?thesis by (auto intro!: spec_return simp: activated_def kept_published)
  next
    case (Some s)
    have "spec (held good s) (run_bind (publish_verified env s) (\<lambda>_. run_return (Some CandidateActive))) (activated good) (published good)"
      by (rule spec_bind[OF publish_kept]) (auto intro!: spec_return simp: activated_def)
    then show ?thesis unfolding Some option.case by (rule spec_weaken) simp_all
  qed
  have plain: "spec (kept good) (run_bind (catalog_snapshot_of env) (\<lambda>s. run_return (Some s)))
      (\<lambda>r st ps. kept good st ps \<and> (\<forall>s. r = Some s \<longrightarrow> held good s st ps)) (kept good)"
    unfolding kept_def
    by (rule spec_ex, rule spec_bind[OF snapshot_spec[unfolded kept_def]]) (auto intro!: spec_return)
  have promoted: "spec (kept good) (run_bind (now_unix env) (\<lambda>now. apply_catalog_identity_promotion 4 env p now))
      (\<lambda>r st ps. kept good st ps \<and> (\<forall>s. r = Some s \<longrightarrow> held good s st ps)) (kept good)" for p
    by (rule spec_bind[OF spec_untouched promotion_spec]) simp_all
  have "spec (kept good) (case promotion of
        Some p \<Rightarrow> run_bind (now_unix env) (\<lambda>now. apply_catalog_identity_promotion 4 env p now)
      | None \<Rightarrow> run_bind (catalog_snapshot_of env) (\<lambda>s'. run_return (Some s')))
      (\<lambda>r st ps. kept good st ps \<and> (\<forall>s. r = Some s \<longrightarrow> held good s st ps)) (published good)"
    by (rule spec_error[where E = "kept good"]) (auto intro: plain promoted kept_published split: option.splits)
  then show ?thesis unfolding activate_candidate_def
    by (intro spec_bind[OF open_spec[OF assms]] spec_bind[OF _ finished])
qed

lemma wait_spec:
  "pb_verification_state p \<noteq> StateVerified \<Longrightarrow> spec unverified (wait_with env p) (activated good) (published good)"
  unfolding wait_with_def
  by (rule spec_bind[OF publish_unverified], assumption, erule unverified_published, rule spec_bind[OF spec_unverified])
    (auto intro!: spec_return simp: activated_def unverified_published)

lemma round_spec:
  assumes "readable db"
  shows "spec unverified (candidate_round env db s) (activated good) (published good)"
  unfolding candidate_round_def
proof (rule spec_bind[OF spec_unverified[OF untouched_verify unverified_published]])
  fix activation
  have mismatch: "spec unverified (run_bind (publish env \<lparr>pb_verification_state = StateMismatch, pb_catalog = None, pb_readiness = None,
      pb_current_error = Some detail\<rparr>) (\<lambda>_. run_return (Some (CandidateRefused ''mismatch'')))) (activated good) (published good)" for detail
    by (rule spec_bind[OF publish_unverified]) (auto intro!: spec_return simp: activated_def unverified_published)
  show "spec unverified (case activation of
       ActVerified promotion \<Rightarrow>
         if en_run_mode env = Rebuild then run_return (Some (CandidateRefused ''rebuild''))
         else activate_candidate env db promotion
     | ActSourceBehind lib required \<Rightarrow>
         wait_with env \<lparr>pb_verification_state = StateSourceBehind, pb_catalog = Some s,
           pb_readiness = Some \<lparr>rr_phase = WaitingForBedrock, rr_finalized_lib_slot = lib,
             rr_required_checkpoint_slot = required\<rparr>,
           pb_current_error = Some (source_behind_message lib required)\<rparr>
     | ActCachedUnverified detail \<Rightarrow>
         wait_with env \<lparr>pb_verification_state = StateCachedUnverified, pb_catalog = Some s, pb_readiness = None,
           pb_current_error = Some detail\<rparr>
     | ActMismatch detail \<Rightarrow>
         run_bind (publish env \<lparr>pb_verification_state = StateMismatch, pb_catalog = None, pb_readiness = None,
             pb_current_error = Some detail\<rparr>) (\<lambda>_.
         run_return (Some (CandidateRefused ''mismatch'')))) (activated good) (published good)"
    using mismatch by (auto intro!: spec_return activate_spec[OF assms] wait_spec simp: activated_def split: candidate_activation.splits)
qed

end

section \<open>From the candidates to the scan\<close>

definition settled :: "(catalog_store \<Rightarrow> catalog_snapshot \<Rightarrow> bool) \<Rightarrow> bool option \<Rightarrow> assertion" where
  "settled good r = (case r of None \<Rightarrow> published good | Some True \<Rightarrow> kept good | Some False \<Rightarrow> unverified)"

lemma untouched_quarantine: "untouched (quarantine_catalog env path reason)"
  unfolding quarantine_catalog_def file_task_def by (auto intro!: untouched_bind simp: untouched_def[where m = "\<lambda>st. (Ok (), _ st)"])

context catalog_opener
begin

lemma quarantine_spec: "spec unverified (quarantine_catalog env path reason) (\<lambda>_. unverified) (published good)"
  by (rule spec_unverified[OF untouched_quarantine unverified_published])

lemma candidate_loop_spec:
  assumes "readable db"
  shows "spec unverified (candidate_loop fuel env path db s) (settled good) (published good)"
proof (induction fuel)
  case 0
  show ?case unfolding candidate_loop.simps by (rule spec_return) (simp add: settled_def unverified_published)
next
  case (Suc fuel)
  have "spec (activated good r) (case r of
       None \<Rightarrow> run_return None
     | Some CandidateActive \<Rightarrow> run_return (Some True)
     | Some CandidateRetry \<Rightarrow> candidate_loop fuel env path db s
     | Some (CandidateRefused reason) \<Rightarrow>
         run_bind (quarantine_catalog env path reason) (\<lambda>_. run_return (Some False))) (settled good) (published good)" for r
    by (auto simp: activated_def intro!: Suc spec_return spec_bind[OF quarantine_spec] split: option.splits candidate_outcome.splits)
      (simp_all add: settled_def)
  then show ?case unfolding candidate_loop.simps by (rule spec_bind[OF round_spec[OF assms]])
qed

lemma open_or_create_spec:
  assumes "\<forall>(path, db) \<in> set candidates. readable db" and ready: ready
  shows "spec unverified (open_or_create_catalog fuel env candidates)
    (\<lambda>r. case r of None \<Rightarrow> published good | Some _ \<Rightarrow> kept good) (published good)"
  using assms(1)
proof (induction candidates)
  case Nil
  have "spec (kept good) (run_bind (catalog_snapshot_of env) (\<lambda>s. run_bind (publish_verified env s) (\<lambda>_. run_return (Some ()))))
      (\<lambda>r. case r of None \<Rightarrow> published good | Some _ \<Rightarrow> kept good) (published good)"
    unfolding kept_def
    by (rule spec_ex, rule spec_bind[OF spec_error[OF snapshot_spec]])
      (auto intro!: spec_fact spec_bind[OF publish_kept[unfolded kept_def]] spec_return intro: kept_published)
  then show ?case unfolding open_or_create_catalog.simps by (rule spec_bind[OF create_spec[OF ready]])
next
  case (Cons c candidates)
  obtain path db where c: "c = (path, db)" "readable db" using Cons.prems by (cases c) auto
  let ?post = "\<lambda>r. case r of None \<Rightarrow> published good | Some _ \<Rightarrow> kept good"
  have rest: "spec unverified (open_or_create_catalog fuel env candidates) ?post (published good)" using Cons by auto
  have open_s: "untouched (open_catalog_snapshot env db)"
    unfolding open_catalog_snapshot_def by (auto intro!: untouched_bind)
  have next_candidate: "spec (settled good active) (case active of None \<Rightarrow> run_return None | Some True \<Rightarrow> run_return (Some ())
      | Some False \<Rightarrow> open_or_create_catalog fuel env candidates) ?post (published good)" for active
    using rest by (auto simp: settled_def intro!: spec_return split: option.splits bool.splits)
  have "spec unverified (case result of
       OpenInvalidated \<Rightarrow> run_bind (quarantine_catalog env path ''invalid'') (\<lambda>_. open_or_create_catalog fuel env candidates)
     | OpenFailed e \<Rightarrow> run_result (Err e)
     | Opened s \<Rightarrow>
         run_bind (publish env \<lparr>pb_verification_state = StateCachedUnverified, pb_catalog = Some s, pb_readiness = None,
             pb_current_error = None\<rparr>) (\<lambda>_.
         run_bind (candidate_loop fuel env path db s) (\<lambda>active. case active of
           None \<Rightarrow> run_return None | Some True \<Rightarrow> run_return (Some ())
         | Some False \<Rightarrow> open_or_create_catalog fuel env candidates))) ?post (published good)" for result
    using rest by (cases result) (auto intro!: spec_result spec_bind[OF quarantine_spec] spec_bind[OF publish_unverified]
        spec_bind[OF candidate_loop_spec[OF c(2)] next_candidate] simp: unverified_published)
  then show ?case unfolding c open_or_create_catalog.simps
    by (intro spec_bind[OF spec_unverified[OF _ unverified_published]] open_s) simp_all
qed

lemma run_source_spec:
  assumes "\<forall>(path, db) \<in> set candidates. readable db" ready
  shows "spec unverified (run_source fuel cycles env ext fingerprint candidates) (\<lambda>_. published good) (published good)"
proof -
  have "spec (kept good) (run_bind (ensure_current env) (\<lambda>_. run_catalog_scan cycles env ext)) (\<lambda>_. published good) (published good)"
    unfolding kept_def
    by (rule spec_ex, rule spec_bind[OF spec_error[OF spec_held]], simp, erule kept_published,
        rule spec_error[OF spec_weaken[OF run_scan_spec]])
      (auto intro: kept_published held_kept)
  then have "spec (case r of None \<Rightarrow> published good | Some _ \<Rightarrow> kept good) (case r of None \<Rightarrow> run_return None
      | Some _ \<Rightarrow> run_bind (ensure_current env) (\<lambda>_. run_catalog_scan cycles env ext)) (\<lambda>_. published good) (published good)" for r :: "unit option"
    by (cases r) (auto intro!: spec_return)
  then show ?thesis unfolding run_source_def
    by (intro spec_bind[OF spec_unverified[OF _ unverified_published]] spec_bind[OF open_or_create_spec[OF assms]])
      (simp_all add: file_task_def)
qed

end

section \<open>The stored catalog\<close>

text \<open>
  What a run relies on: the codecs read what they write, and the source identifies blocks. A catalog file has key-sorted
  tables that, if they read back at all, read back as a reachable catalog.
\<close>

definition served_run :: "'n environment \<Rightarrow> 'n externals \<Rightarrow> (string \<Rightarrow> 'n l1_block option) \<Rightarrow> bool" where
  "served_run env ext U \<longleftrightarrow> codecs_ok (en_codecs env) \<and> env_serves U env \<and> gap_ids_differ ext U"

definition catalog_file :: "'n environment \<Rightarrow> 'n externals \<Rightarrow> (string \<Rightarrow> 'n l1_block option) \<Rightarrow> database \<Rightarrow> bool" where
  "catalog_file env ext U db \<longleftrightarrow> sorted_tables db \<and> (\<forall>s. read_snapshot (en_codecs env) db = Ok s \<longrightarrow> reachable ext U s)"

interpretation opener: catalog_opener env ext "stored_catalog env ext U 0"
  "\<lambda>db. served_run env ext U \<and> catalog_file env ext U db" "served_run env ext U" for env ext U
proof unfold_locales
  fix db st assume "served_run env ext U \<and> catalog_file env ext U db" "open_store (en_codecs env) False db = Ok st"
  then show "\<exists>s. stored_catalog env ext U 0 st s"
    by (auto simp: served_run_def catalog_file_def stored_catalog_def consistent_def open_store_def snapshot_def and_then_Ok)
next
  fix path_exists md st assume r: "served_run env ext U" "create_store (en_codecs env) path_exists md = Ok st"
  have "snapshot (en_codecs env) st = Ok (initial_snapshot md)" "sorted_tables (st_database st)"
    using create_store_Ok[OF _ r(2)] r(1) by (simp_all add: served_run_def initial_snapshot_def)
  then show "\<exists>s. stored_catalog env ext U 0 st s"
    using r(1) Created[of ext U md] by (auto simp: served_run_def stored_catalog_def consistent_def)
qed

lemma run_published:
  assumes "served_run env ext U" "\<forall>(path, db) \<in> set candidates. catalog_file env ext U db" "rn_publications st = []"
    and run: "run_source fuel cycles env ext fingerprint candidates st = (r, st')"
  shows "verified_ok (reachable ext U) (rn_publications st')"
proof -
  have "\<forall>(path, db) \<in> set candidates. served_run env ext U \<and> catalog_file env ext U db" using assms(1,2) by auto
  from opener.run_source_spec[OF this assms(1), of fuel cycles fingerprint] run assms(3)
  have "published (stored_catalog env ext U 0) (rn_store st') (rn_publications st')"
    unfolding spec_def by (cases r) (fastforce simp: unverified_def)+
  then show ?thesis by (auto simp: published_def verified_ok_def stored_catalog_def)
qed

section \<open>Quarantined files\<close>

text \<open>\<open>quarantines Q m\<close>: a run of \<open>m\<close> quarantines only files and reasons of \<open>Q\<close>.\<close>

definition quarantines :: "(string \<times> string) set \<Rightarrow> 'a run_of \<Rightarrow> bool" where
  "quarantines Q m \<longleftrightarrow> (\<forall>st r st'. m st = (r, st') \<longrightarrow> set (rn_quarantined st') \<subseteq> set (rn_quarantined st) \<union> Q)"

lemma quarantines_bind:
  assumes "quarantines Q m" "\<And>x st st'. m st = (Ok x, st') \<Longrightarrow> quarantines Q (f x)"
  shows "quarantines Q (run_bind m f)"
  unfolding quarantines_def
proof (intro allI impI)
  fix st r st' assume "run_bind m f st = (r, st')"
  then consider x st1 where "m st = (Ok x, st1)" "f x st1 = (r, st')" | e where "m st = (Err e, st')"
    by (auto simp: run_bind_cases)
  then show "set (rn_quarantined st') \<subseteq> set (rn_quarantined st) \<union> Q"
  proof cases
    case 1
    then have "set (rn_quarantined st1) \<subseteq> set (rn_quarantined st) \<union> Q" "set (rn_quarantined st') \<subseteq> set (rn_quarantined st1) \<union> Q"
      using assms(1) assms(2)[OF 1(1)] by (auto simp: quarantines_def)
    then show ?thesis by blast
  next
    case 2
    then show ?thesis using assms(1) by (auto simp: quarantines_def)
  qed
qed

lemma quarantines_observe [simp]: "quarantines Q (observe f)"
  by (auto simp: quarantines_def observe_def)

lemma quarantines_primitives [simp]:
  "quarantines Q (ensure_current env)" "quarantines Q (chain_status env)" "quarantines Q (time_status env)"
  "quarantines Q (finalized_range env request)" "quarantines Q (source_block env i)" "quarantines Q (now_unix env)"
  "quarantines Q (run_return x)" "quarantines Q (run_result q)" "quarantines Q (publish env p)" "quarantines Q (blocking_task env task)"
  "quarantines Q (file_task env failed)"
  by (simp_all add: ensure_current_def chain_status_def time_status_def finalized_range_def source_block_def now_unix_def file_task_def)
    (auto simp: quarantines_def run_return_def run_result_def publish_def blocking_task_def Let_def split: option.splits result.splits)

lemma quarantines_split:
  "(\<And>x. v = Some x \<Longrightarrow> quarantines Q (f x)) \<Longrightarrow> (v = None \<Longrightarrow> quarantines Q g) \<Longrightarrow> quarantines Q (case v of None \<Rightarrow> g | Some x \<Rightarrow> f x)"
  by (cases v) auto

lemma quarantines_blocking [simp]:
  "quarantines Q (run_blocking_catalog env task)" "quarantines Q (catalog_snapshot_of env)" "quarantines Q (publish_verified env s)"
  "quarantines Q (wait_for_retry env d)" "quarantines Q (open_catalog env db)" "quarantines Q (open_catalog_snapshot env db)"
  unfolding catalog_snapshot_of_def run_blocking_catalog_def publish_verified_def wait_for_retry_def open_catalog_def open_catalog_snapshot_def
  by (auto intro!: quarantines_bind)

lemma quarantines_verify [simp]: "quarantines Q (verify_catalog_candidate env s)"
proof -
  have "quarantines Q (verify_checks env lib checks)" for lib checks
    by (induction checks) (auto intro!: quarantines_bind quarantines_split)
  then show ?thesis unfolding verify_catalog_candidate_def verify_reported_def verify_genesis_time_def Let_def
    by (auto intro!: quarantines_bind quarantines_split)
qed

lemma quarantines_promotion [simp]: "quarantines Q (apply_catalog_identity_promotion fuel env p now)"
proof -
  have "quarantines Q (promotion_loop fuel env p now s)" for s
    by (induction fuel arbitrary: s) (auto simp: Let_def intro!: quarantines_bind split: option.splits transition_stage.splits)
  then show ?thesis unfolding apply_catalog_identity_promotion_def by (auto intro!: quarantines_bind)
qed

lemma quarantines_create [simp]: "quarantines Q (create_catalog env)"
  unfolding create_catalog_def resolve_catalog_network_scope_def metadata_new_def
  by (auto intro!: quarantines_bind quarantines_split split: list.splits)

lemma quarantines_file: "(path, reason) \<in> Q \<Longrightarrow> quarantines Q (quarantine_catalog env path reason)"
proof -
  assume "(path, reason) \<in> Q"
  then have "quarantines Q (\<lambda>st. (Ok (), st\<lparr>rn_quarantined := rn_quarantined st @ [(path, reason)]\<rparr>))" by (auto simp: quarantines_def)
  then show ?thesis unfolding quarantine_catalog_def by (auto intro!: quarantines_bind)
qed

definition contradicted :: "'n environment \<Rightarrow> catalog_snapshot \<Rightarrow> bool" where
  "contradicted env s \<longleftrightarrow> (\<exists>st detail st'. verify_catalog_candidate env s st = (Ok (ActMismatch detail), st'))"

definition opens_as :: "'n environment \<Rightarrow> database \<Rightarrow> catalog_snapshot catalog_result" where
  "opens_as env db = and_then (open_store (en_codecs env) False db) (snapshot (en_codecs env))"

definition may_quarantine :: "'n environment \<Rightarrow> (string \<times> database) list \<Rightarrow> (string \<times> string) set" where
  "may_quarantine env candidates = {(path, reason). \<exists>db. (path, db) \<in> set candidates
     \<and> ((reason = ''invalid'' \<and> (\<exists>why detail. opens_as env db = Err (Invalidated why detail)))
       \<or> (\<exists>s. opens_as env db = Ok s \<and> ((reason = ''rebuild'' \<and> en_run_mode env = Rebuild) \<or> (reason = ''mismatch'' \<and> contradicted env s))))}"

lemma may_quarantineI:
  "(path, db) \<in> set candidates \<Longrightarrow> \<exists>why detail. opens_as env db = Err (Invalidated why detail) \<Longrightarrow> (path, ''invalid'') \<in> may_quarantine env candidates"
  "(path, db) \<in> set candidates \<Longrightarrow> opens_as env db = Ok s
    \<Longrightarrow> (reason = ''rebuild'' \<and> en_run_mode env = Rebuild) \<or> (reason = ''mismatch'' \<and> contradicted env s)
    \<Longrightarrow> (path, reason) \<in> may_quarantine env candidates"
  unfolding may_quarantine_def by blast+

lemma refused_reason:
  assumes "candidate_round env db s st = (Ok (Some (CandidateRefused reason)), st')"
  shows "(reason = ''rebuild'' \<and> en_run_mode env = Rebuild) \<or> (reason = ''mismatch'' \<and> contradicted env s)"
proof -
  obtain a st1 where a: "verify_catalog_candidate env s st = (Ok a, st1)"
    using assms unfolding candidate_round_def run_bind_Ok by blast
  show ?thesis
  proof (cases a)
    case (ActMismatch detail)
    then have "contradicted env s" using a by (auto simp: contradicted_def)
    then show ?thesis using assms a ActMismatch by (auto simp: candidate_round_def ok_simps)
  qed (use assms a in \<open>auto simp: candidate_round_def activate_candidate_def wait_with_def ok_simps split: if_splits option.splits\<close>)
qed

lemma candidate_round_quarantines: "quarantines Q (candidate_round env db s)"
  unfolding candidate_round_def activate_candidate_def wait_with_def
  by (auto intro!: quarantines_bind quarantines_split split: candidate_activation.splits)

lemma candidate_loop_quarantines:
  assumes "(path, db) \<in> set candidates" "opens_as env db = Ok s"
  shows "quarantines (may_quarantine env candidates) (candidate_loop fuel env path db s)"
proof (induction fuel)
  case (Suc fuel)
  show ?case unfolding candidate_loop.simps
  proof (rule quarantines_bind[OF candidate_round_quarantines])
    fix outcome st st' assume round: "candidate_round env db s st = (Ok outcome, st')"
    show "quarantines (may_quarantine env candidates) (case outcome of
       None \<Rightarrow> run_return None
     | Some CandidateActive \<Rightarrow> run_return (Some True)
     | Some CandidateRetry \<Rightarrow> candidate_loop fuel env path db s
     | Some (CandidateRefused reason) \<Rightarrow>
         run_bind (quarantine_catalog env path reason) (\<lambda>_. run_return (Some False)))"
      using Suc may_quarantineI(2)[OF assms refused_reason[of env db s st _ st']] round
      by (auto intro!: quarantines_bind quarantines_file split: option.splits candidate_outcome.splits)
  qed
qed simp

lemma open_or_create_quarantines:
  assumes "set rest \<subseteq> set candidates"
  shows "quarantines (may_quarantine env candidates) (open_or_create_catalog fuel env rest)"
  using assms
proof (induction rest)
  case Nil
  show ?case by (auto intro!: quarantines_bind)
next
  case (Cons c rest)
  obtain path db where c: "c = (path, db)" "(path, db) \<in> set candidates" using Cons.prems by (cases c) auto
  have rest: "quarantines (may_quarantine env candidates) (open_or_create_catalog fuel env rest)" using Cons by auto
  have result: "(result = OpenInvalidated \<longrightarrow> (\<exists>why detail. opens_as env db = Err (Invalidated why detail)))
      \<and> (\<forall>s. result = Opened s \<longrightarrow> opens_as env db = Ok s)" if "open_catalog_snapshot env db st = (Ok result, st')" for result st st'
    using that by (auto simp: open_catalog_snapshot_def ok_simps observe_def open_result_def opens_as_def
        split: option.splits result.splits catalog_error.splits)
  show ?case unfolding c(1) open_or_create_catalog.simps
  proof (rule quarantines_bind[OF quarantines_primitives(1)], rule quarantines_bind[OF quarantines_blocking(6)])
    fix result st st' assume "open_catalog_snapshot env db st = (Ok result, st')"
    note r = result[OF this]
    show "quarantines (may_quarantine env candidates) (case result of
       OpenInvalidated \<Rightarrow> run_bind (quarantine_catalog env path ''invalid'') (\<lambda>_. open_or_create_catalog fuel env rest)
     | OpenFailed e \<Rightarrow> run_result (Err e)
     | Opened s \<Rightarrow>
         run_bind (publish env \<lparr>pb_verification_state = StateCachedUnverified, pb_catalog = Some s, pb_readiness = None,
             pb_current_error = None\<rparr>) (\<lambda>_.
         run_bind (candidate_loop fuel env path db s) (\<lambda>active. case active of
           None \<Rightarrow> run_return None | Some True \<Rightarrow> run_return (Some ())
         | Some False \<Rightarrow> open_or_create_catalog fuel env rest)))"
      using r rest may_quarantineI(1)[OF c(2)] candidate_loop_quarantines[OF c(2)]
      by (cases result) (auto intro!: quarantines_bind quarantines_file split: option.splits bool.splits)
  qed
qed

section \<open>Properties\<close>

text \<open>
  C7: Everything a run publishes as verified, from the activation or creation of a catalog to its last scan cycle, is
  a reachable catalog, whatever the source, the storage layer and the file system answer and wherever the run stops. The
  candidate files are only assumed to be sorted tables that read back, if at all, as reachable catalogs.
\<close>

theorem run_publishes_reachable_catalogs:
  assumes "served_run env ext U" "\<forall>(path, db) \<in> set candidates. catalog_file env ext U db" "rn_publications st = []"
    and "run_source fuel cycles env ext fingerprint candidates st = (r, st')"
    and "p \<in> set (rn_publications st')" "pb_verification_state p = StateVerified"
  shows "\<exists>s. pb_catalog p = Some s \<and> reachable ext U s"
  using run_published[OF assms(1-4)] assms(5,6) by (auto simp: verified_ok_def)


end
