(* ===== verification/Catalog_Service.thy ===== *)
theory Catalog_Service
  imports Catalog_Run
begin

text \<open>
  The catalog service, from \<open>src/inspection/catalog/service.rs\<close>: the report that the service shows, the revisions of its
  sources, and the controller that starts and stops runs. The controller and the runs are concurrent tasks. Their
  interleavings are the steps of \<open>service_step\<close>: a step is one store to the desired revision, one update of the report
  (which the watch channel makes atomic), or one transition of a task. In particular the two stores of \<open>begin_revision\<close>
  and of \<open>clear\<close> are separate steps, and a run can publish between them.

  The state lists every run ever started, with the publications the report took from it. Waiting for a stopped run is a
  step that needs the run to have finished. The command channel is the choice of the next command.
\<close>

section \<open>The report\<close>

datatype source_kind = DirectHttp | LogoscoreCli | ModuleSource

record source_descriptor =
  sd_kind :: source_kind
  sd_endpoint :: "string option"
  sd_fingerprint :: string

record service_report =
  sr_source_revision :: u64
  sr_source_fingerprint :: "string option"
  sr_verification_state :: verification_state
  sr_catalog :: "catalog_snapshot option"
  sr_readiness :: "readiness_report option"
  sr_current_error :: "string option"
  sr_worker_running :: bool

definition default_report :: service_report where
  "default_report = \<lparr>sr_source_revision = 0, sr_source_fingerprint = None, sr_verification_state = StateEmpty, sr_catalog = None,
     sr_readiness = None, sr_current_error = None, sr_worker_running = False\<rparr>"

definition begin_report :: "u64 \<Rightarrow> source_descriptor \<Rightarrow> service_report \<Rightarrow> service_report" where
  "begin_report revision source report = report\<lparr>sr_source_revision := revision, sr_source_fingerprint := Some (sd_fingerprint source),
     sr_verification_state := StateVerifying, sr_catalog := None, sr_readiness := None, sr_current_error := None,
     sr_worker_running := False\<rparr>"

definition mark_running_report :: "u64 \<Rightarrow> u64 \<Rightarrow> service_report \<Rightarrow> service_report" where
  "mark_running_report desired revision report =
     (if desired \<noteq> revision \<or> sr_source_revision report \<noteq> revision then report else report\<lparr>sr_worker_running := True\<rparr>)"

definition clear_report :: "u64 \<Rightarrow> service_report" where
  "clear_report revision = default_report\<lparr>sr_source_revision := revision\<rparr>"

definition accepts_publication :: "bool \<Rightarrow> u64 \<Rightarrow> u64 \<Rightarrow> service_report \<Rightarrow> bool" where
  "accepts_publication cancelled desired revision report \<longleftrightarrow> \<not> (cancelled \<or> desired \<noteq> revision \<or> sr_source_revision report \<noteq> revision)"

definition publish_report :: "publication \<Rightarrow> service_report \<Rightarrow> service_report" where
  "publish_report p report = report\<lparr>sr_verification_state := pb_verification_state p, sr_catalog := pb_catalog p,
     sr_readiness := pb_readiness p, sr_current_error := pb_current_error p\<rparr>"

definition finish_report :: "u64 \<Rightarrow> u64 \<Rightarrow> string option \<Rightarrow> service_report \<Rightarrow> service_report" where
  "finish_report desired revision error report =
     (if desired \<noteq> revision \<or> sr_source_revision report \<noteq> revision then report
      else
        let report = report\<lparr>sr_worker_running := False, sr_readiness := None\<rparr>
        in case error of
          None \<Rightarrow> report
        | Some e \<Rightarrow>
            let report = report\<lparr>sr_current_error := Some e\<rparr>
            in if sr_verification_state report = StateVerifying
               then report\<lparr>sr_verification_state := (if sr_catalog report \<noteq> None then StateCachedUnverified else StateEmpty)\<rparr>
               else report)"

section \<open>Runs and the controller\<close>

record catalog_run =
  cr_source :: source_descriptor
  cr_revision :: u64
  cr_mode :: run_mode
  cr_cancelled :: bool
  cr_finished :: bool
  cr_panicked :: bool
  cr_accepted :: "publication list"

text \<open>
  What the controller is doing: waiting for a command; about to reset the report for a new revision, to cancel the old run,
  or to start the new run once the old one has ended; about to clear the report, to cancel the last run, or to stop once it
  has ended; or stopped.
\<close>

datatype controller =
    Idle
  | Resetting u64 source_descriptor run_mode
  | Stopping u64 source_descriptor run_mode
  | Joining "nat option" u64 source_descriptor run_mode
  | Clearing u64
  | ClosingRun
  | Closing "nat option"
  | ControllerStopped

record service_state =
  sv_desired :: u64
  sv_report :: service_report
  sv_runs :: "catalog_run list"
  sv_active :: "nat option"
  sv_shutdown :: bool
  sv_controller :: controller

definition service_new :: service_state where
  "service_new = \<lparr>sv_desired = 0, sv_report = default_report, sv_runs = [], sv_active = None, sv_shutdown = False,
     sv_controller = Idle\<rparr>"

definition run_cancelled :: "service_state \<Rightarrow> catalog_run \<Rightarrow> bool" where
  "run_cancelled s run \<longleftrightarrow> cr_cancelled run \<or> sv_shutdown s"

definition is_current :: "service_state \<Rightarrow> catalog_run \<Rightarrow> bool" where
  "is_current s run \<longleftrightarrow> \<not> run_cancelled s run \<and> sv_desired s = cr_revision run"

definition next_source_revision :: "service_state \<Rightarrow> (u64, service_error) result" where
  "next_source_revision s = ok_or (checked_add (sv_desired s) 1) (SvInvalidState ''catalog source revision is exhausted'')"

text \<open>The printed error; the texts of storage and ingestion errors are a parameter.\<close>

definition service_error_text :: "(catalog_failure \<Rightarrow> string) \<Rightarrow> (worker_detail \<Rightarrow> string) \<Rightarrow> service_error \<Rightarrow> string" where
  "service_error_text catalog_text worker_text e = (case e of
     SvInvalidSource d \<Rightarrow> ''invalid catalog source: '' @ d
   | SvInvalidState d \<Rightarrow> ''invalid catalog service state: '' @ d
   | SvSource d \<Rightarrow> ''catalog source failed: '' @ d
   | SvCatalog d \<Rightarrow> ''Zone Catalog failed: '' @ catalog_text d
   | SvWorker d \<Rightarrow> ''Zone Catalog worker failed: '' @ worker_text d
   | SvJoin d \<Rightarrow> ''Zone Catalog task failed: '' @ d
   | SvCancelled \<Rightarrow> ''Zone Catalog run was cancelled''
   | SvStaleRevision expected current \<Rightarrow>
       ''Zone Catalog source revision is stale: expected '' @ u64_text expected @ '', current '' @ u64_text current)"

definition is_stale_error :: "service_error \<Rightarrow> bool" where
  "is_stale_error e = (case e of SvCancelled \<Rightarrow> True | SvStaleRevision _ _ \<Rightarrow> True | _ \<Rightarrow> False)"

text \<open>The error a finished run leaves in the report.\<close>

definition run_error ::
  "(service_error \<Rightarrow> string) \<Rightarrow> service_state \<Rightarrow> catalog_run \<Rightarrow> (unit, service_error) result \<Rightarrow> string option" where
  "run_error shown s run outcome = (case outcome of
     Ok () \<Rightarrow> if is_current s run then Some ''Zone Catalog worker stopped unexpectedly'' else None
   | Err e \<Rightarrow> if is_stale_error e \<and> \<not> is_current s run then None else Some (shown e))"

section \<open>Operations\<close>

definition set_run :: "nat \<Rightarrow> catalog_run \<Rightarrow> service_state \<Rightarrow> service_state" where
  "set_run i run s = s\<lparr>sv_runs := (sv_runs s)[i := run]\<rparr>"

text \<open>\<open>publish\<close> of a run.\<close>

definition publish_run :: "nat \<Rightarrow> publication \<Rightarrow> service_state \<Rightarrow> service_state" where
  "publish_run i p s =
     (let run = sv_runs s ! i in
      if accepts_publication (run_cancelled s run) (sv_desired s) (cr_revision run) (sv_report s)
      then (set_run i (run\<lparr>cr_accepted := cr_accepted run @ [p]\<rparr>) s)\<lparr>sv_report := publish_report p (sv_report s)\<rparr>
      else s)"

text \<open>The end of the task of a run, with \<open>finish\<close>.\<close>

definition finish_run :: "(service_error \<Rightarrow> string) \<Rightarrow> nat \<Rightarrow> (unit, service_error) result \<Rightarrow> service_state \<Rightarrow> service_state" where
  "finish_run shown i outcome s =
     (let run = sv_runs s ! i in
      (set_run i (run\<lparr>cr_finished := True\<rparr>) s)\<lparr>sv_report :=
        finish_report (sv_desired s) (cr_revision run) (run_error shown s run outcome) (sv_report s)\<rparr>)"

definition panic_run :: "nat \<Rightarrow> service_state \<Rightarrow> service_state" where
  "panic_run i s = set_run i ((sv_runs s ! i)\<lparr>cr_finished := True, cr_panicked := True\<rparr>) s"

text \<open>\<open>configure_catalog_run\<close> up to the store of the desired revision: the answer, if it is known, and the new state.\<close>

definition configure_begin ::
  "source_descriptor \<Rightarrow> bool \<Rightarrow> run_mode \<Rightarrow> service_state \<Rightarrow> (u64, service_error) result option \<times> service_state" where
  "configure_begin source force_restart mode s =
     (if is_some_and (sv_active s) (\<lambda>i. cr_source (sv_runs s ! i) = source \<and> \<not> cr_finished (sv_runs s ! i)) \<and> \<not> force_restart
      then (Some (Ok (sv_desired s)), s)
      else case next_source_revision s of
        Err e \<Rightarrow> (Some (Err e), s)
      | Ok revision \<Rightarrow> (None, s\<lparr>sv_desired := revision, sv_controller := Resetting revision source mode\<rparr>))"

definition control_mode :: "bool \<Rightarrow> run_mode" where
  "control_mode rebuild = (if rebuild then Rebuild else Resume)"

definition restart_begin :: "bool \<Rightarrow> service_state \<Rightarrow> (u64, service_error) result option \<times> service_state" where
  "restart_begin rebuild s = (case sv_active s of
     None \<Rightarrow> (Some (Err (SvInvalidState ''catalog service has no configured source'')), s)
   | Some i \<Rightarrow> configure_begin (cr_source (sv_runs s ! i)) True (control_mode rebuild) s)"

text \<open>The first half of \<open>stop_catalog_run\<close>: the active run is taken and cancelled.\<close>

definition cancel_active :: "service_state \<Rightarrow> service_state" where
  "cancel_active s = (case sv_active s of
     None \<Rightarrow> s
   | Some i \<Rightarrow> (set_run i ((sv_runs s ! i)\<lparr>cr_cancelled := True\<rparr>) s)\<lparr>sv_active := None\<rparr>)"

definition reset_for :: "u64 \<Rightarrow> source_descriptor \<Rightarrow> run_mode \<Rightarrow> service_state \<Rightarrow> service_state" where
  "reset_for revision source mode s =
     s\<lparr>sv_report := begin_report revision source (sv_report s), sv_controller := Stopping revision source mode\<rparr>"

definition stop_for :: "u64 \<Rightarrow> source_descriptor \<Rightarrow> run_mode \<Rightarrow> service_state \<Rightarrow> service_state" where
  "stop_for revision source mode s = (cancel_active s)\<lparr>sv_controller := Joining (sv_active s) revision source mode\<rparr>"

definition run_ended :: "nat option \<Rightarrow> service_state \<Rightarrow> bool" where
  "run_ended old s = is_none_or old (\<lambda>i. cr_finished (sv_runs s ! i))"

definition join_failed :: "nat option \<Rightarrow> service_state \<Rightarrow> bool" where
  "join_failed old s = is_some_and old (\<lambda>i. cr_panicked (sv_runs s ! i))"

text \<open>The rest of \<open>configure_catalog_run\<close> once the old run has ended.\<close>

definition start_run :: "nat option \<Rightarrow> u64 \<Rightarrow> source_descriptor \<Rightarrow> run_mode \<Rightarrow> service_state \<Rightarrow> (u64, service_error) result \<times> service_state" where
  "start_run old revision source mode s =
     (let idle = s\<lparr>sv_controller := Idle\<rparr> in
      if join_failed old s then (Err (SvJoin ''panic''), idle)
      else if sv_shutdown s then (Err SvCancelled, idle)
      else (Ok revision, idle\<lparr>
        sv_report := mark_running_report (sv_desired s) revision (sv_report s),
        sv_runs := sv_runs s @ [\<lparr>cr_source = source, cr_revision = revision, cr_mode = mode, cr_cancelled = False,
          cr_finished = False, cr_panicked = False, cr_accepted = []\<rparr>],
        sv_active := Some (length (sv_runs s))\<rparr>))"

definition invalidate_begin :: "service_state \<Rightarrow> service_state" where
  "invalidate_begin s =
     (let revision = saturating_add (sv_desired s) 1 in s\<lparr>sv_desired := revision, sv_controller := Clearing revision\<rparr>)"

definition clear_for :: "u64 \<Rightarrow> service_state \<Rightarrow> service_state" where
  "clear_for revision s = s\<lparr>sv_report := clear_report revision, sv_controller := ClosingRun\<rparr>"

text \<open>The shutdown token is cancelled and with it every run; it is already cancelled when the service was dropped.\<close>

definition close_run :: "service_state \<Rightarrow> service_state" where
  "close_run s = (cancel_active s)\<lparr>sv_controller := Closing (sv_active s), sv_shutdown := True\<rparr>"

section \<open>Steps\<close>

inductive service_step :: "(service_error \<Rightarrow> string) \<Rightarrow> service_state \<Rightarrow> service_state \<Rightarrow> bool" for shown where
  Configured: "sv_controller s = Idle \<Longrightarrow> configure_begin source False Resume s = (answer, s') \<Longrightarrow> service_step shown s s'"
| Controlled: "sv_controller s = Idle \<Longrightarrow> restart_begin rebuild s = (answer, s') \<Longrightarrow> service_step shown s s'"
| Reset: "sv_controller s = Resetting revision source mode \<Longrightarrow> service_step shown s (reset_for revision source mode s)"
| Stopped: "sv_controller s = Stopping revision source mode \<Longrightarrow> service_step shown s (stop_for revision source mode s)"
| Started: "sv_controller s = Joining old revision source mode \<Longrightarrow> run_ended old s
    \<Longrightarrow> start_run old revision source mode s = (answer, s') \<Longrightarrow> service_step shown s s'"
| ReportInvalidated: "sv_controller s = Idle \<Longrightarrow> service_step shown s (invalidate_begin s)"
| Cleared: "sv_controller s = Clearing revision \<Longrightarrow> service_step shown s (clear_for revision s)"
| LastStopped: "sv_controller s = ClosingRun \<Longrightarrow> service_step shown s (close_run s)"
| Closed: "sv_controller s = Closing old \<Longrightarrow> run_ended old s \<Longrightarrow> service_step shown s (s\<lparr>sv_controller := ControllerStopped\<rparr>)"
| Dropped: "service_step shown s (s\<lparr>sv_shutdown := True\<rparr>)"
| Published: "i < length (sv_runs s) \<Longrightarrow> \<not> cr_finished (sv_runs s ! i) \<Longrightarrow> service_step shown s (publish_run i p s)"
| Finished: "i < length (sv_runs s) \<Longrightarrow> \<not> cr_finished (sv_runs s ! i) \<Longrightarrow> service_step shown s (finish_run shown i outcome s)"
| Panicked: "i < length (sv_runs s) \<Longrightarrow> \<not> cr_finished (sv_runs s ! i) \<Longrightarrow> service_step shown s (panic_run i s)"

inductive service_reaches :: "(service_error \<Rightarrow> string) \<Rightarrow> service_state \<Rightarrow> bool" for shown where
  New: "service_reaches shown service_new"
| Step: "service_reaches shown s \<Longrightarrow> service_step shown s s' \<Longrightarrow> service_reaches shown s'"

end
