(* ===== verification/Service_Properties.thy ===== *)
theory Service_Properties
  imports Catalog_Service
begin

text \<open>
  The service under every interleaving of the controller and its runs: a report shows a catalog only under the fingerprint
  and the revision of the run that published it, and two runs are never active at the same time.
\<close>

section \<open>The invariant\<close>

text \<open>The revisions of the runs ascend and stay within the desired revision; a revision being prepared is new.\<close>

definition revisions_ok :: "service_state \<Rightarrow> bool" where
  "revisions_ok s \<longleftrightarrow> sorted_wrt (<) (map cr_revision (sv_runs s)) \<and> (\<forall>run \<in> set (sv_runs s). cr_revision run \<le> sv_desired s)
     \<and> sr_source_revision (sv_report s) \<le> sv_desired s"

definition preparing :: "service_state \<Rightarrow> u64 \<Rightarrow> bool" where
  "preparing s revision \<longleftrightarrow> revision = sv_desired s \<and> (\<forall>run \<in> set (sv_runs s). cr_revision run < revision)"

definition reset_report :: "service_state \<Rightarrow> u64 \<Rightarrow> source_descriptor \<Rightarrow> bool" where
  "reset_report s revision source \<longleftrightarrow> sr_source_revision (sv_report s) = revision
     \<and> sr_source_fingerprint (sv_report s) = Some (sd_fingerprint source)"

definition controller_ok :: "service_state \<Rightarrow> bool" where
  "controller_ok s \<longleftrightarrow> (case sv_controller s of
     Resetting revision source mode \<Rightarrow> preparing s revision
   | Stopping revision source mode \<Rightarrow> preparing s revision \<and> reset_report s revision source
   | Joining old revision source mode \<Rightarrow> preparing s revision \<and> reset_report s revision source
   | Clearing revision \<Rightarrow> revision = sv_desired s
   | _ \<Rightarrow> True)"

text \<open>The unfinished run, if there is one, is the active run or the one the controller waits for.\<close>

definition awaited :: "controller \<Rightarrow> nat option" where
  "awaited c = (case c of Joining old _ _ _ \<Rightarrow> old | Closing old \<Rightarrow> old | _ \<Rightarrow> None)"

definition waiting :: "controller \<Rightarrow> bool" where
  "waiting c = (case c of Joining _ _ _ _ \<Rightarrow> True | Closing _ \<Rightarrow> True | ControllerStopped \<Rightarrow> True | _ \<Rightarrow> False)"

definition runs_ok :: "service_state \<Rightarrow> bool" where
  "runs_ok s \<longleftrightarrow> is_none_or (sv_active s) (\<lambda>i. i < length (sv_runs s)) \<and> is_none_or (awaited (sv_controller s)) (\<lambda>i. i < length (sv_runs s))
     \<and> (waiting (sv_controller s) \<longrightarrow> sv_active s = None)
     \<and> (\<forall>i < length (sv_runs s). \<not> cr_finished (sv_runs s ! i) \<longrightarrow> sv_active s = Some i \<or> awaited (sv_controller s) = Some i)"

text \<open>What the report shows was published by the run of its revision and, if it has a fingerprint, of its source.\<close>

definition shown_by :: "service_report \<Rightarrow> catalog_run \<Rightarrow> bool" where
  "shown_by report run \<longleftrightarrow> cr_revision run = sr_source_revision report
     \<and> is_none_or (sr_source_fingerprint report) (\<lambda>f. f = sd_fingerprint (cr_source run))"

definition report_ok :: "service_state \<Rightarrow> bool" where
  "report_ok s \<longleftrightarrow> (\<forall>run \<in> set (sv_runs s). cr_revision run = sr_source_revision (sv_report s) \<longrightarrow> shown_by (sv_report s) run)
     \<and> (sr_catalog (sv_report s) \<noteq> None \<longrightarrow> (\<exists>run \<in> set (sv_runs s). shown_by (sv_report s) run
          \<and> (\<exists>p \<in> set (cr_accepted run). pb_catalog p = sr_catalog (sv_report s))))
     \<and> (sr_verification_state (sv_report s) = StateVerified \<longrightarrow> (\<exists>run \<in> set (sv_runs s). shown_by (sv_report s) run
          \<and> (\<exists>p \<in> set (cr_accepted run). pb_verification_state p = StateVerified \<and> pb_catalog p = sr_catalog (sv_report s))))"

definition service_ok :: "service_state \<Rightarrow> bool" where
  "service_ok s \<longleftrightarrow> revisions_ok s \<and> controller_ok s \<and> runs_ok s \<and> report_ok s"

lemmas service_defs = revisions_ok_def controller_ok_def runs_ok_def report_ok_def shown_by_def preparing_def reset_report_def awaited_def waiting_def

section \<open>Changes that keep the runs\<close>

definition extends_run :: "catalog_run \<Rightarrow> catalog_run \<Rightarrow> bool" where
  "extends_run a b \<longleftrightarrow> cr_revision b = cr_revision a \<and> cr_source b = cr_source a \<and> set (cr_accepted a) \<subseteq> set (cr_accepted b)"

lemma extends_refl [simp]: "extends_run a a" "list_all2 extends_run rs rs"
  by (simp_all add: extends_run_def list_all2_conv_all_nth)

lemma extends_update: "extends_run (rs ! i) run \<Longrightarrow> list_all2 extends_run rs (rs[i := run])"
  by (cases "i < length rs") (auto simp: list_all2_conv_all_nth nth_list_update)

lemma extended_revisions: "list_all2 extends_run rs rs' \<Longrightarrow> map cr_revision rs' = map cr_revision rs"
  by (auto simp: list_all2_conv_all_nth extends_run_def intro: nth_equalityI)

lemma extended_revision_set: "list_all2 extends_run rs rs' \<Longrightarrow> cr_revision ` set rs' = cr_revision ` set rs"
  using extended_revisions[of rs rs'] by (simp flip: set_map)

lemma extended_forward: "list_all2 extends_run rs rs' \<Longrightarrow> run \<in> set rs \<Longrightarrow> \<exists>run' \<in> set rs'. extends_run run run'"
  by (metis in_set_conv_nth list_all2_conv_all_nth)

lemma extended_backward: "list_all2 extends_run rs rs' \<Longrightarrow> run' \<in> set rs' \<Longrightarrow> \<exists>run \<in> set rs. extends_run run run'"
  by (metis in_set_conv_nth list_all2_conv_all_nth)

lemma shown_extended:
  "extends_run a b \<Longrightarrow> sr_source_revision r' = sr_source_revision r \<Longrightarrow> sr_source_fingerprint r' = sr_source_fingerprint r
    \<Longrightarrow> shown_by r' b \<longleftrightarrow> shown_by r a"
  by (simp add: shown_by_def extends_run_def)

lemma report_kept:
  assumes s: "report_ok s" and runs: "list_all2 extends_run (sv_runs s) (sv_runs s')"
    and same: "sr_source_revision (sv_report s') = sr_source_revision (sv_report s)"
      "sr_source_fingerprint (sv_report s') = sr_source_fingerprint (sv_report s)" "sr_catalog (sv_report s') = sr_catalog (sv_report s)"
    and state: "sr_verification_state (sv_report s') = StateVerified \<Longrightarrow> sr_verification_state (sv_report s) = StateVerified"
  shows "report_ok s'"
  unfolding report_ok_def
proof (intro conjI ballI impI)
  note ext = shown_extended[OF _ same(1,2)]
  fix run' assume "run' \<in> set (sv_runs s')" "cr_revision run' = sr_source_revision (sv_report s')"
  then show "shown_by (sv_report s') run'"
    using extended_backward[OF runs] s ext same unfolding report_ok_def extends_run_def by metis
next
  note ext = shown_extended[OF _ same(1,2)]
  assume "sr_catalog (sv_report s') \<noteq> None"
  then obtain run p where "run \<in> set (sv_runs s)" "shown_by (sv_report s) run" "p \<in> set (cr_accepted run)" "pb_catalog p = sr_catalog (sv_report s)"
    using s same(3) unfolding report_ok_def by auto
  then show "\<exists>run \<in> set (sv_runs s'). shown_by (sv_report s') run \<and> (\<exists>p \<in> set (cr_accepted run). pb_catalog p = sr_catalog (sv_report s'))"
    using extended_forward[OF runs, of run] ext same(3) unfolding extends_run_def by (metis subsetD)
next
  note ext = shown_extended[OF _ same(1,2)]
  assume "sr_verification_state (sv_report s') = StateVerified"
  then obtain run p where "run \<in> set (sv_runs s)" "shown_by (sv_report s) run" "p \<in> set (cr_accepted run)"
    "pb_verification_state p = StateVerified" "pb_catalog p = sr_catalog (sv_report s)"
    using s state unfolding report_ok_def by auto
  then show "\<exists>run \<in> set (sv_runs s'). shown_by (sv_report s') run
      \<and> (\<exists>p \<in> set (cr_accepted run). pb_verification_state p = StateVerified \<and> pb_catalog p = sr_catalog (sv_report s'))"
    using extended_forward[OF runs, of run] ext same(3) unfolding extends_run_def by (metis subsetD)
qed

lemma revisions_kept:
  assumes "revisions_ok s" "list_all2 extends_run (sv_runs s) (sv_runs s')" "sv_desired s \<le> sv_desired s'"
    "sr_source_revision (sv_report s') \<le> sv_desired s'"
  shows "revisions_ok s'"
proof -
  have m: "map cr_revision (sv_runs s') = map cr_revision (sv_runs s)" by (rule extended_revisions[OF assms(2)])
  have "cr_revision run \<le> sv_desired s'" if "run \<in> set (sv_runs s')" for run
  proof -
    have "cr_revision run \<in> cr_revision ` set (sv_runs s)" using that extended_revision_set[OF assms(2)] by blast
    then show ?thesis using assms(1,3) by (force simp: revisions_ok_def)
  qed
  then show ?thesis using assms(1,4) m by (simp add: revisions_ok_def)
qed

lemma preparing_alt: "preparing s revision \<longleftrightarrow> revision = sv_desired s \<and> (\<forall>n \<in> cr_revision ` set (sv_runs s). n < revision)"
  by (simp add: preparing_def)

lemma preparing_kept:
  "preparing s revision \<Longrightarrow> list_all2 extends_run (sv_runs s) (sv_runs s') \<Longrightarrow> sv_desired s' = sv_desired s \<Longrightarrow> preparing s' revision"
  unfolding preparing_alt using extended_revision_set[of "sv_runs s" "sv_runs s'"] by metis

lemma controller_kept:
  assumes "controller_ok s" "list_all2 extends_run (sv_runs s) (sv_runs s')" "sv_desired s' = sv_desired s" "sv_controller s' = sv_controller s"
    "sr_source_revision (sv_report s') = sr_source_revision (sv_report s)"
    "sr_source_fingerprint (sv_report s') = sr_source_fingerprint (sv_report s)"
  shows "controller_ok s'"
  using assms(1,3-6) preparing_kept[OF _ assms(2,3)]
  by (auto simp: controller_ok_def reset_report_def split: controller.splits)

text \<open>Changes of the report and of one run that keep the report's revision, source and catalog.\<close>

lemma service_kept:
  assumes "service_ok s" "list_all2 extends_run (sv_runs s) (sv_runs s')" "sv_desired s' = sv_desired s" "sv_controller s' = sv_controller s"
    and same: "sr_source_revision (sv_report s') = sr_source_revision (sv_report s)"
      "sr_source_fingerprint (sv_report s') = sr_source_fingerprint (sv_report s)" "sr_catalog (sv_report s') = sr_catalog (sv_report s)"
    and state: "sr_verification_state (sv_report s') = StateVerified \<Longrightarrow> sr_verification_state (sv_report s) = StateVerified"
    and runs: "runs_ok s'"
  shows "service_ok s'"
proof -
  have "revisions_ok s" "controller_ok s" "report_ok s" using assms(1) by (simp_all add: service_ok_def)
  then show ?thesis
    using revisions_kept[OF _ assms(2)] controller_kept[OF _ assms(2,3,4) same(1,2)] report_kept[OF _ assms(2) same state] runs assms(3) same(1)
    by (simp add: service_ok_def revisions_ok_def)
qed

section \<open>Every step keeps the invariant\<close>

lemma runs_updated:
  assumes "runs_ok s" "sv_active s' = sv_active s" "sv_controller s' = sv_controller s" "sv_runs s' = (sv_runs s)[i := run]"
    "cr_finished (sv_runs s ! i) \<Longrightarrow> cr_finished run"
  shows "runs_ok s'"
proof -
  have "cr_finished ((sv_runs s)[i := run] ! j)" if "j < length (sv_runs s)" "cr_finished (sv_runs s ! j)" for j
    using that assms(5) by (cases "i = j") auto
  then show ?thesis using assms(1-4) unfolding runs_ok_def by auto
qed

lemma finish_keeps:
  assumes "service_ok s"
  shows "service_ok (finish_run shown i outcome s)" "service_ok (panic_run i s)"
proof -
  have ext: "list_all2 extends_run (sv_runs s) ((sv_runs s)[i := (sv_runs s ! i)\<lparr>cr_finished := True\<rparr>])"
    "list_all2 extends_run (sv_runs s) ((sv_runs s)[i := (sv_runs s ! i)\<lparr>cr_finished := True, cr_panicked := True\<rparr>])"
    by (rule extends_update, simp add: extends_run_def)+
  have runs: "runs_ok s" using assms by (simp add: service_ok_def)
  show "service_ok (finish_run shown i outcome s)"
    by (rule service_kept[OF assms]) (use ext runs_updated[OF runs] in
        \<open>auto simp: finish_run_def set_run_def finish_report_def Let_def split: option.splits if_splits\<close>)
  show "service_ok (panic_run i s)"
    by (rule service_kept[OF assms]) (use ext runs_updated[OF runs] in \<open>auto simp: panic_run_def set_run_def\<close>)
qed

lemma publish_keeps:
  assumes s: "service_ok s" and i: "i < length (sv_runs s)"
  shows "service_ok (publish_run i p s)"
proof (cases "accepts_publication (run_cancelled s (sv_runs s ! i)) (sv_desired s) (cr_revision (sv_runs s ! i)) (sv_report s)")
  case True
  let ?run = "(sv_runs s ! i)\<lparr>cr_accepted := cr_accepted (sv_runs s ! i) @ [p]\<rparr>"
  let ?s = "(set_run i ?run s)\<lparr>sv_report := publish_report p (sv_report s)\<rparr>"
  have parts: "revisions_ok s" "controller_ok s" "runs_ok s" "report_ok s" using s by (simp_all add: service_ok_def)
  have ext: "list_all2 extends_run (sv_runs s) (sv_runs ?s)"
    by (simp add: set_run_def) (rule extends_update, auto simp: extends_run_def)
  have report: "sr_source_revision (sv_report ?s) = sr_source_revision (sv_report s)"
    "sr_source_fingerprint (sv_report ?s) = sr_source_fingerprint (sv_report s)"
    "sr_catalog (sv_report ?s) = pb_catalog p" "sr_verification_state (sv_report ?s) = pb_verification_state p"
    by (simp_all add: publish_report_def)
  have "cr_revision (sv_runs s ! i) = sr_source_revision (sv_report s)" using True by (simp add: accepts_publication_def)
  then have "shown_by (sv_report s) (sv_runs s ! i)" using parts(4) i by (simp add: report_ok_def)
  then have shown: "shown_by (sv_report ?s) ?run" using report by (simp add: shown_by_def)
  have run: "?run \<in> set (sv_runs ?s)" using i by (simp add: set_run_def set_update_memI)
  have "shown_by (sv_report ?s) run'" if "run' \<in> set (sv_runs ?s)" "cr_revision run' = sr_source_revision (sv_report ?s)" for run'
    using extended_backward[OF ext that(1)] that(2) parts(4) shown_extended[OF _ report(1,2)] report(1)
    unfolding report_ok_def extends_run_def by metis
  then have "report_ok ?s" unfolding report_ok_def report(3,4) using run shown by (auto intro!: bexI[of _ ?run])
  moreover have "revisions_ok ?s" by (rule revisions_kept[OF parts(1) ext]) (use parts(1) report(1) in \<open>simp_all add: set_run_def revisions_ok_def\<close>)
  moreover have "controller_ok ?s" by (rule controller_kept[OF parts(2) ext]) (simp_all add: set_run_def report publish_report_def)
  moreover have "runs_ok ?s" by (rule runs_updated[OF parts(3), where i = i and run = ?run]) (simp_all add: set_run_def)
  ultimately show ?thesis using True by (simp add: service_ok_def publish_run_def Let_def)
qed (use s in \<open>simp add: publish_run_def Let_def\<close>)

lemma cancel_extends: "list_all2 extends_run (sv_runs s) (sv_runs (cancel_active s))"
  by (auto simp: cancel_active_def set_run_def extends_run_def intro!: extends_update split: option.splits)

lemma cancel_simps [simp]:
  "sv_desired (cancel_active s) = sv_desired s" "sv_report (cancel_active s) = sv_report s" "sv_active (cancel_active s) = None"
  "sv_controller (cancel_active s) = sv_controller s" "length (sv_runs (cancel_active s)) = length (sv_runs s)"
  by (simp_all add: cancel_active_def set_run_def split: option.splits)

lemma cancel_finished: "j < length (sv_runs s) \<Longrightarrow> cr_finished (sv_runs (cancel_active s) ! j) = cr_finished (sv_runs s ! j)"
proof (cases "sv_active s")
  case (Some i)
  then show "j < length (sv_runs s) \<Longrightarrow> ?thesis" by (cases "i = j") (simp_all add: cancel_active_def set_run_def)
qed (simp add: cancel_active_def)

text \<open>The active run is cancelled and the controller waits for it.\<close>

lemma stop_keeps:
  assumes s: "service_ok s" and "awaited (sv_controller s) = None"
    and next_ok: "controller_ok ((cancel_active s)\<lparr>sv_controller := c\<rparr>)" and c: "awaited c = sv_active s"
  shows "service_ok ((cancel_active s)\<lparr>sv_controller := c\<rparr>)"
proof -
  let ?s = "(cancel_active s)\<lparr>sv_controller := c\<rparr>"
  have parts: "revisions_ok s" "runs_ok s" "report_ok s" using s by (simp_all add: service_ok_def)
  have ext: "list_all2 extends_run (sv_runs s) (sv_runs ?s)" using cancel_extends by simp
  have "revisions_ok ?s" by (rule revisions_kept[OF parts(1) ext]) (use parts(1) in \<open>simp_all add: revisions_ok_def\<close>)
  moreover have "report_ok ?s" by (rule report_kept[OF parts(3) ext]) simp_all
  moreover have "runs_ok ?s" using parts(2) assms(2) c by (auto simp: runs_ok_def cancel_finished)
  ultimately show ?thesis using next_ok by (simp add: service_ok_def)
qed

lemma stop_for_keeps:
  assumes "service_ok s" "sv_controller s = Stopping revision source mode"
  shows "service_ok (stop_for revision source mode s)"
  unfolding stop_for_def
proof (rule stop_keeps[OF assms(1)])
  have "preparing s revision" "reset_report s revision source" using assms by (simp_all add: service_ok_def controller_ok_def)
  then show "controller_ok ((cancel_active s)\<lparr>sv_controller := Joining (sv_active s) revision source mode\<rparr>)"
    using preparing_kept[OF _ cancel_extends] by (auto simp: controller_ok_def reset_report_def preparing_def)
qed (simp_all add: assms(2) awaited_def)

lemma shutdown_keeps: "service_ok s \<Longrightarrow> service_ok (s\<lparr>sv_shutdown := True\<rparr>)"
  by (rule service_kept) (simp_all add: service_ok_def runs_ok_def)

lemma close_run_keeps:
  assumes "service_ok s" "sv_controller s = ClosingRun"
  shows "service_ok (close_run s)"
proof -
  have "service_ok ((cancel_active s)\<lparr>sv_controller := Closing (sv_active s)\<rparr>)"
    by (rule stop_keeps[OF assms(1)]) (simp_all add: assms(2) awaited_def controller_ok_def)
  from shutdown_keeps[OF this] show ?thesis by (simp add: close_run_def)
qed

text \<open>A new revision is above every revision so far, and its report shows nothing yet.\<close>

lemma configure_keeps:
  assumes s: "service_ok s" and idle: "sv_controller s = Idle" and step: "configure_begin source force_restart mode s = (answer, s')"
  shows "service_ok s'"
proof (cases "s' = s")
  case False
  then obtain revision where r: "checked_add (sv_desired s) 1 = Some revision"
    "s' = s\<lparr>sv_desired := revision, sv_controller := Resetting revision source mode\<rparr>"
    using step by (auto simp: configure_begin_def next_source_revision_def ok_or_def split: if_splits option.splits result.splits)
  have up: "sv_desired s < revision" using r(1) by (auto simp: checked_add_Some word_less_nat_alt)
  have parts: "revisions_ok s" "runs_ok s" "report_ok s" using s by (simp_all add: service_ok_def)
  have "\<forall>run \<in> set (sv_runs s). cr_revision run < revision" using parts(1) up by (auto simp: revisions_ok_def)
  moreover have "revisions_ok s'" by (rule revisions_kept[OF parts(1)]) (use parts(1) up r(2) in \<open>auto simp: revisions_ok_def\<close>)
  moreover have "report_ok s'" by (rule report_kept[OF parts(3)]) (simp_all add: r(2))
  moreover have "runs_ok s'" using parts(2) idle by (simp add: r(2) runs_ok_def awaited_def waiting_def)
  ultimately show ?thesis by (simp add: service_ok_def controller_ok_def preparing_def r(2))
qed (use s in simp)

lemma restart_keeps:
  assumes "service_ok s" "sv_controller s = Idle" "restart_begin rebuild s = (answer, s')"
  shows "service_ok s'"
  using assms configure_keeps[OF assms(1,2)] by (auto simp: restart_begin_def split: option.splits)

lemma reset_keeps:
  assumes s: "service_ok s" and c: "sv_controller s = Resetting revision source mode"
  shows "service_ok (reset_for revision source mode s)"
proof -
  have p: "preparing s revision" using s c by (simp add: service_ok_def controller_ok_def)
  then show ?thesis using s c
    by (auto simp: service_ok_def service_defs reset_for_def begin_report_def)
qed

lemma saturating_add_ge: "a \<le> saturating_add a b"
proof (cases "checked_add a b")
  case None
  then show ?thesis by (auto simp: checked_add_def saturating_add_def split: if_splits)
next
  case (Some c)
  then have "saturating_add a b = c" by (auto simp: checked_add_def saturating_add_def split: if_splits)
  then show ?thesis using checked_add_Some[OF Some] by (simp add: word_le_nat_alt)
qed

lemma invalidate_keeps:
  assumes "service_ok s" "sv_controller s = Idle"
  shows "service_ok (invalidate_begin s)"
proof -
  have up: "sv_desired s \<le> saturating_add (sv_desired s) 1" by (rule saturating_add_ge)
  have parts: "revisions_ok s" "runs_ok s" "report_ok s" using assms by (simp_all add: service_ok_def)
  have "revisions_ok (invalidate_begin s)"
    by (rule revisions_kept[OF parts(1)]) (use parts(1) up in \<open>auto simp: invalidate_begin_def Let_def revisions_ok_def\<close>)
  moreover have "report_ok (invalidate_begin s)" by (rule report_kept[OF parts(3)]) (simp_all add: invalidate_begin_def Let_def)
  moreover have "runs_ok (invalidate_begin s)" using parts(2) assms(2) by (simp add: invalidate_begin_def Let_def runs_ok_def awaited_def waiting_def)
  ultimately show ?thesis by (simp add: service_ok_def controller_ok_def invalidate_begin_def Let_def)
qed

lemma clear_keeps:
  assumes "service_ok s" "sv_controller s = Clearing revision"
  shows "service_ok (clear_for revision s)"
  using assms by (auto simp: service_ok_def service_defs clear_for_def clear_report_def default_report_def)

lemma start_keeps:
  assumes s: "service_ok s" and c: "sv_controller s = Joining old revision source mode" and ended: "run_ended old s"
    and step: "start_run old revision source mode s = (answer, s')"
  shows "service_ok s'"
proof -
  have parts: "revisions_ok s" "controller_ok s" "runs_ok s" "report_ok s" using s by (simp_all add: service_ok_def)
  have p: "preparing s revision" "reset_report s revision source" using parts(2) c by (simp_all add: controller_ok_def)
  have runs: "\<forall>i < length (sv_runs s). cr_finished (sv_runs s ! i)" "sv_active s = None"
    using parts(3) c ended by (auto simp: runs_ok_def awaited_def waiting_def run_ended_def)
  show ?thesis
  proof (cases "join_failed old s \<or> sv_shutdown s")
    case True
    then have "s' = s\<lparr>sv_controller := Idle\<rparr>" using step by (auto simp: start_run_def Let_def split: if_splits)
    then show ?thesis using parts runs by (simp add: service_ok_def service_defs)
  next
    case False
    let ?run = "\<lparr>cr_source = source, cr_revision = revision, cr_mode = mode, cr_cancelled = False, cr_finished = False,
      cr_panicked = False, cr_accepted = []\<rparr>"
    have s': "sv_runs s' = sv_runs s @ [?run]" "sv_active s' = Some (length (sv_runs s))" "sv_controller s' = Idle" "sv_desired s' = sv_desired s"
      "sv_report s' = mark_running_report (sv_desired s) revision (sv_report s)"
      using step False by (auto simp: start_run_def Let_def)
    have report: "sr_source_revision (sv_report s') = revision" "sr_source_fingerprint (sv_report s') = Some (sd_fingerprint source)"
      "sr_catalog (sv_report s') = sr_catalog (sv_report s)" "sr_verification_state (sv_report s') = sr_verification_state (sv_report s)"
      using p(2) by (auto simp: s'(5) mark_running_report_def reset_report_def)
    have shown: "shown_by (sv_report s') run \<longleftrightarrow> shown_by (sv_report s) run" for run
      using p(2) report(1,2) by (simp add: shown_by_def reset_report_def)
    have "shown_by (sv_report s') ?run" by (simp add: shown_by_def report)
    then have "report_ok s'" using parts(4) report p(2) by (auto simp: report_ok_def s'(1) shown reset_report_def)
    moreover have "revisions_ok s'" using parts(1) p report(1) by (auto simp: revisions_ok_def preparing_def s' sorted_wrt_append)
    moreover have "runs_ok s'" using runs by (auto simp: runs_ok_def s' awaited_def waiting_def nth_append less_Suc_eq)
    ultimately show ?thesis by (simp add: service_ok_def controller_ok_def s')
  qed
qed

lemma service_step_keeps: "service_step shown s s' \<Longrightarrow> service_ok s \<Longrightarrow> service_ok s'"
proof (induction rule: service_step.cases)
  case (Closed s old)
  then show ?case by (auto simp: service_ok_def service_defs run_ended_def split: option.splits)
qed (auto intro: configure_keeps restart_keeps reset_keeps stop_for_keeps start_keeps invalidate_keeps clear_keeps close_run_keeps shutdown_keeps
    publish_keeps finish_keeps)

lemma service_reaches_ok: "service_reaches shown s \<Longrightarrow> service_ok s"
proof (induction rule: service_reaches.induct)
  case New
  show ?case by (simp add: service_ok_def service_defs service_new_def default_report_def)
qed (rule service_step_keeps)

section \<open>Properties\<close>

text \<open>
  C9: Under every interleaving of configuration, retry, rebuild, shutdown and the publications of old and new runs, a report that
  shows a catalog for a source shows one that a run of this source, with the revision of the report, published; and it is
  shown as verified only if this run published it as verified. No run ever publishes into the report of another source.
\<close>

theorem report_shows_its_own_source:
  assumes "service_reaches shown s" "sr_source_fingerprint (sv_report s) = Some f"
    and "sr_catalog (sv_report s) = Some c \<or> sr_verification_state (sv_report s) = StateVerified"
  shows "\<exists>run \<in> set (sv_runs s). sd_fingerprint (cr_source run) = f \<and> cr_revision run = sr_source_revision (sv_report s)
    \<and> (\<exists>p \<in> set (cr_accepted run). pb_catalog p = sr_catalog (sv_report s)
        \<and> (sr_verification_state (sv_report s) = StateVerified \<longrightarrow> pb_verification_state p = StateVerified))"
  using service_reaches_ok[OF assms(1)] assms(2,3)
  by (cases "sr_verification_state (sv_report s) = StateVerified")
    (fastforce simp: service_ok_def report_ok_def shown_by_def)+

text \<open>
  C10: Two runs are never active at the same time: a run starts only after the run before it has ended. Every run has a revision
  of its own: later runs have greater revisions, none of which exceeds the desired revision.
\<close>

theorem one_run_at_a_time:
  assumes "service_reaches shown s"
  shows "sorted_wrt (<) (map cr_revision (sv_runs s)) \<and> (\<forall>run \<in> set (sv_runs s). cr_revision run \<le> sv_desired s)
    \<and> (\<forall>i j. i < length (sv_runs s) \<and> j < length (sv_runs s) \<and> \<not> cr_finished (sv_runs s ! i) \<and> \<not> cr_finished (sv_runs s ! j) \<longrightarrow> i = j)"
proof -
  have ok: "revisions_ok s" "runs_ok s" using service_reaches_ok[OF assms] by (simp_all add: service_ok_def)
  have one: "sv_active s = Some i \<or> awaited (sv_controller s) = Some i" if "i < length (sv_runs s)" "\<not> cr_finished (sv_runs s ! i)" for i
    using ok(2) that by (simp add: runs_ok_def)
  have "sv_active s = None \<or> awaited (sv_controller s) = None"
    using ok(2) by (cases "sv_controller s") (auto simp: runs_ok_def awaited_def waiting_def)
  then have "i = j" if "i < length (sv_runs s)" "j < length (sv_runs s)" "\<not> cr_finished (sv_runs s ! i)" "\<not> cr_finished (sv_runs s ! j)" for i j
    using one[OF that(1,3)] one[OF that(2,4)] by auto
  then show ?thesis using ok(1) by (simp add: revisions_ok_def)
qed

section \<open>A configured service\<close>

definition sample_fingerprint :: string where
  "sample_fingerprint = ''sha256:'' @ replicate 64 (CHR ''0'')"

definition sample_source :: source_descriptor where
  "sample_source = \<lparr>sd_kind = LogoscoreCli, sd_endpoint = None, sd_fingerprint = sample_fingerprint\<rparr>"

definition sample_publication :: publication where
  "sample_publication = \<lparr>pb_verification_state = StateVerified, pb_catalog = Some empty_snapshot, pb_readiness = None, pb_current_error = None\<rparr>"

definition sample_started :: service_state where
  "sample_started = snd (start_run None 1 sample_source Resume (stop_for 1 sample_source Resume (reset_for 1 sample_source Resume
     (snd (configure_begin sample_source False Resume service_new)))))"

definition sample_service :: "publication \<Rightarrow> service_state" where
  "sample_service p = publish_run 0 p sample_started"

lemma sample_service_simps:
  "sv_controller service_new = Idle"
  "sv_controller (snd (configure_begin sample_source False Resume service_new)) = Resetting 1 sample_source Resume"
  "length (sv_runs sample_started) = 1" "cr_finished (sv_runs sample_started ! 0) = False"
  "sr_source_fingerprint (sv_report (sample_service p)) = Some sample_fingerprint"
  "sr_catalog (sv_report (sample_service p)) = pb_catalog p" "sr_verification_state (sv_report (sample_service p)) = pb_verification_state p"
  "sv_runs (sample_service p) = [\<lparr>cr_source = sample_source, cr_revision = 1, cr_mode = Resume, cr_cancelled = False, cr_finished = False,
     cr_panicked = False, cr_accepted = [p]\<rparr>]"
  by (simp_all add: sample_service_def sample_started_def sample_source_def service_new_def default_report_def
      configure_begin_def next_source_revision_def checked_add_def ok_or_def reset_for_def begin_report_def stop_for_def cancel_active_def
      start_run_def Let_def join_failed_def mark_running_report_def publish_run_def accepts_publication_def run_cancelled_def
      set_run_def publish_report_def)

lemma sample_service_reached: "service_reaches shown (sample_service p)"
proof -
  let ?configured = "snd (configure_begin sample_source False Resume service_new)"
  let ?reset = "reset_for 1 sample_source Resume ?configured" and ?old = "sv_active service_new"
  have c: "sv_controller ?reset = Stopping 1 sample_source Resume" "sv_active ?reset = None"
    by (simp_all add: reset_for_def configure_begin_def service_new_def next_source_revision_def checked_add_def ok_or_def)
  have "service_reaches shown ?configured"
    by (rule service_reaches.Step[OF service_reaches.New]) (rule Configured[OF sample_service_simps(1) surjective_pairing])
  then have "service_reaches shown ?reset" using service_reaches.Step Reset[OF sample_service_simps(2)] by blast
  then have stopped: "service_reaches shown (stop_for 1 sample_source Resume ?reset)" using service_reaches.Step Stopped[OF c(1)] by blast
  have j: "sv_controller (stop_for 1 sample_source Resume ?reset) = Joining None 1 sample_source Resume" by (simp add: stop_for_def c(2))
  have "service_reaches shown sample_started" unfolding sample_started_def
    by (rule service_reaches.Step[OF stopped]) (rule Started[OF j _ surjective_pairing], simp add: run_ended_def)
  then show ?thesis unfolding sample_service_def
    by (rule service_reaches.Step) (rule Published, simp_all add: sample_service_simps)
qed

theorem report_shows_its_own_source_witness:
  "\<exists>run p. run \<in> set (sv_runs (sample_service sample_publication)) \<and> sd_fingerprint (cr_source run) = sample_fingerprint
     \<and> p \<in> set (cr_accepted run) \<and> pb_catalog p = Some empty_snapshot \<and> pb_verification_state p = StateVerified"
  using report_shows_its_own_source[OF sample_service_reached[of "\<lambda>_. []" sample_publication] sample_service_simps(5), of empty_snapshot]
  by (auto simp: sample_service_simps sample_publication_def)

theorem one_run_at_a_time_witness:
  "cr_revision (sv_runs (sample_service sample_publication) ! 0) \<le> sv_desired (sample_service sample_publication)"
proof -
  have "sv_runs (sample_service sample_publication) ! 0 \<in> set (sv_runs (sample_service sample_publication))"
    by (simp add: sample_service_simps)
  then show ?thesis using one_run_at_a_time[OF sample_service_reached[of "\<lambda>_. []" sample_publication]] by blast
qed

end
