(* ===== verification/Activation_Samples.thy ===== *)
theory Activation_Samples
  imports Run_Samples Activation_Properties Service_Properties
begin

text \<open>A run that activates the complete sample catalog and one that finds an invalid file witness the properties of activation.\<close>

section \<open>Interactions of the sample environment\<close>

lemma sample_blocking:
  assumes "task (rn_store st) = Ok (store, x)"
  shows "run_blocking_catalog (sample_environment cd) task st = (Ok x, st\<lparr>rn_moment := rn_moment st + 3, rn_store := store\<rparr>)"
proof -
  have "blocking_task (sample_environment cd) task st' = (Ok x, st'\<lparr>rn_moment := rn_moment st' + 1, rn_store := store\<rparr>)"
    if "rn_store st' = rn_store st" for st'
    using assms that by (simp add: blocking_task_def Let_def sample_environment_def)
  then show ?thesis by (simp add: run_blocking_catalog_def run_bind_def run_return_def)
qed

lemma sample_publish: "publish (sample_environment cd) p st
    = (Ok True, st\<lparr>rn_moment := rn_moment st + 1, rn_publications := rn_publications st @ [p]\<rparr>)"
  by (simp add: publish_def Let_def sample_environment_def)

lemma sample_codecs_of [simp]: "en_codecs (sample_environment cd) = cd" "en_run_mode (sample_environment cd) = Resume"
  "en_storage_fault (sample_environment cd) t = None" "en_file_fault (sample_environment cd) t = None"
  by (simp_all add: sample_environment_def)

section \<open>An activated catalog\<close>

definition sample_file :: "catalog_snapshot \<Rightarrow> (string \<times> database) list" where
  "sample_file s = [(''catalog_a.redb'', st_database (listed_store s))]"

definition verified_publication :: "catalog_snapshot \<Rightarrow> publication" where
  "verified_publication s = \<lparr>pb_verification_state = StateVerified, pb_catalog = Some s, pb_readiness = None, pb_current_error = None\<rparr>"

lemma listed_store_opens:
  assumes "consistent cd (listed_store s) s"
  shows "open_store cd False (st_database (listed_store s)) = Ok (listed_store s)" "snapshot cd (listed_store s) = Ok s"
proof -
  have "listed_store s = \<lparr>st_read_only = False, st_database = st_database (listed_store s)\<rparr>" by (simp add: listed_store_def)
  moreover show "snapshot cd (listed_store s) = Ok s" using assms by (simp add: consistent_def)
  ultimately show "open_store cd False (st_database (listed_store s)) = Ok (listed_store s)" by (simp add: open_store_def)
qed

lemma activates:
  assumes c: "consistent cd (listed_store s) s"
    and v: "\<And>st. \<exists>st'. verify_catalog_candidate (sample_environment cd) s st = (Ok (ActVerified None), st')"
  shows "\<exists>st'. candidate_round (sample_environment cd) (st_database (listed_store s)) s st = (Ok (Some CandidateActive), st')
    \<and> rn_store st' = listed_store s \<and> verified_publication s \<in> set (rn_publications st')"
proof -
  obtain st1 where st1: "verify_catalog_candidate (sample_environment cd) s st = (Ok (ActVerified None), st1)" using v by blast
  note o = listed_store_opens[OF c]
  have "open_catalog (sample_environment cd) (st_database (listed_store s)) st1 = (Ok (), st1\<lparr>rn_moment := rn_moment st1 + 3, rn_store := listed_store s\<rparr>)"
    unfolding open_catalog_def by (rule sample_blocking) (simp add: o)
  moreover have "catalog_snapshot_of (sample_environment cd) st2 = (Ok s, st2\<lparr>rn_moment := rn_moment st2 + 3, rn_store := listed_store s\<rparr>)"
    if "rn_store st2 = listed_store s" for st2
    unfolding catalog_snapshot_of_def by (rule sample_blocking) (simp add: o that)
  ultimately show ?thesis
    using st1 by (simp add: candidate_round_def activate_candidate_def run_bind_def run_return_def publish_verified_def sample_publish
        verified_publication_def)
qed

lemma run_activates:
  assumes c: "consistent cd (listed_store s) s"
    and v: "\<And>st. \<exists>st'. verify_catalog_candidate (sample_environment cd) s st = (Ok (ActVerified None), st')"
  shows "verified_publication s \<in> set (rn_publications (snd (run_source 1 0 (sample_environment cd) ext sample_fingerprint (sample_file s) st)))"
proof -
  let ?env = "sample_environment cd" and ?db = "st_database (listed_store s)"
  have dir: "\<exists>d. source_catalog_directory sample_fingerprint = Ok d" unfolding is_ok_iff[symmetric] by code_simp
  note o = listed_store_opens[OF c]
  have opened: "open_catalog_snapshot ?env ?db st = (Ok (Opened s), st\<lparr>rn_moment := rn_moment st + 3\<rparr>)" for st
    by (simp add: open_catalog_snapshot_def run_bind_def run_return_def observe_def open_result_def o)
  have read: "catalog_snapshot_of ?env st = (Ok s, st\<lparr>rn_moment := rn_moment st + 3, rn_store := listed_store s\<rparr>)"
    if "rn_store st = listed_store s" for st
    unfolding catalog_snapshot_of_def by (rule sample_blocking) (simp add: o that)
  obtain st1 where round: "candidate_round ?env ?db s st0 = (Ok (Some CandidateActive), st1 st0)"
    "rn_store (st1 st0) = listed_store s" "verified_publication s \<in> set (rn_publications (st1 st0))" for st0
    using activates[OF c v] by metis
  obtain d where "source_catalog_directory sample_fingerprint = Ok d" using dir by blast
  then show ?thesis using round
    by (simp add: run_source_def sample_file_def run_bind_def run_return_def run_result_def file_task_def observe_def opened sample_publish
        run_catalog_scan_def read)
qed

lemma complete_stored:
  obtains s where "direct_history = Some s" "at_target CoverageComplete s" "reachable sample_externals chain_universe s"
    "consistent (listed_codecs [] s) (listed_store s) s"
    "\<And>st. \<exists>st'. verify_catalog_candidate (gap_environment s) s st = (Ok (ActVerified None), st')"
proof -
  obtain s where s: "direct_history = Some s" "at_target CoverageComplete s" "reachable sample_externals chain_universe s"
    "frontier_at 2 s" "validate_snapshot s = Ok ()" using direct_reachable by metis
  obtain rs gs where c: "covered sample_externals chain_universe rs gs s" using reachable_covered[OF s(3) chain_gap_ids] by blast
  have "verified_activation s (Some sample_genesis) = Ok (ActVerified None)"
    using s(4) by (simp add: verified_activation_def frontier_at_def sample_metadata_def)
  moreover have "chain ! 2 \<in> set chain" by (simp add: chain_def)
  then have "set_option (latest_catalog_checkpoint s) \<subseteq> lb_checkpoint ` set chain"
    using s(4) by (auto simp: frontier_at_def latest_catalog_checkpoint_def)
  ultimately have "\<exists>st'. verify_catalog_candidate (gap_environment s) s st = (Ok (ActVerified None), st')" for st
    using sample_candidate[of s "listed_codecs [] s" st] s(4) unfolding gap_environment_def by (auto simp: frontier_at_def)
  then show ?thesis using that s listed_consistent[OF coveredD(1)[OF c] s(5)] by blast
qed

lemma sample_served: "served_run (gap_environment s) sample_externals chain_universe"
  using gap_environment_serves[of s] chain_gap_ids
  by (simp add: served_run_def gap_environment_def listed_codecs_ok)

lemma sample_catalog_file:
  assumes "consistent (listed_codecs [] s) (listed_store s) s" "reachable sample_externals chain_universe s"
  shows "\<forall>(path, db) \<in> set (sample_file s). catalog_file (gap_environment s) sample_externals chain_universe db"
  using assms by (simp add: sample_file_def catalog_file_def gap_environment_def consistent_def snapshot_def)

theorem run_publishes_reachable_catalogs_witness:
  "\<exists>s. direct_history = Some s \<and> verified_publication s
       \<in> set (rn_publications (snd (run_source 1 0 (gap_environment s) sample_externals sample_fingerprint (sample_file s) (sample_start s))))
     \<and> reachable sample_externals chain_universe s"
proof -
  obtain s where s: "direct_history = Some s" "reachable sample_externals chain_universe s" "consistent (listed_codecs [] s) (listed_store s) s"
    and verified: "\<And>st. \<exists>st'. verify_catalog_candidate (gap_environment s) s st = (Ok (ActVerified None), st')"
    by (rule complete_stored) (rule that)
  let ?run = "run_source 1 0 (gap_environment s) sample_externals sample_fingerprint (sample_file s) (sample_start s)"
  have p: "verified_publication s \<in> set (rn_publications (snd ?run))"
    using run_activates[OF s(3) verified[unfolded gap_environment_def]] by (simp add: gap_environment_def)
  have "rn_publications (sample_start s) = []" by (simp add: sample_start_def)
  from run_publishes_reachable_catalogs[OF sample_served sample_catalog_file[OF s(3,2)] this surjective_pairing p]
  have "reachable sample_externals chain_universe s" by (simp add: verified_publication_def)
  then show ?thesis using s(1) p by blast
qed

section \<open>An invalid file\<close>

definition blank_file :: "(string \<times> database) list" where
  "blank_file = [(''catalog_b.redb'', \<lparr>db_metadata = [], db_zones = [], db_evidence = [], db_segments = [], db_gaps = []\<rparr>)]"

lemma blank_quarantined:
  "rn_quarantined (snd (open_or_create_catalog 1 (gap_environment empty_snapshot) blank_file (sample_start empty_snapshot)))
     = [(''catalog_b.redb'', ''invalid'')]"
  by code_simp


end
