(* ===== verification/L1_Pages.thy ===== *)
theory L1_Pages
  imports L1_Source
begin

text \<open>
  What the L1 source guarantees about the pages it returns. The NDJSON parser is compared with a declarative reading of
  the body: cut it at newlines, drop blank lines, decode each line, and require ascending slots and one chain
  snapshot. Every page either source returns passes all checks the engine makes on a page.
\<close>

section \<open>The declarative reading\<close>

definition line_decodes :: "'n externals \<Rightarrow> 'n l1_codec \<Rightarrow> l1_range_request \<Rightarrow> bytes \<Rightarrow> 'n l1_event \<Rightarrow> bool" where
  "line_decodes ext codec request line e \<longleftrightarrow>
     (\<exists>wire. lx_event codec line = Ok wire \<and> parse_wire_event ext wire request = Ok e)"

definition one_page :: "'n l1_event list \<Rightarrow> bool" where
  "one_page es \<longleftrightarrow> strictly_sorted (map (\<lambda>e. cp_slot (event_checkpoint e)) es)
     \<and> (\<forall>e \<in> set es. le_snapshot e = le_snapshot (hd es))"

fun body_lines :: "bytes \<Rightarrow> bytes list" where
  "body_lines [] = [[]]"
| "body_lines (b # bs) = (if b = 10 then [] # body_lines bs else (b # hd (body_lines bs)) # tl (body_lines bs))"

abbreviation blank :: "bytes \<Rightarrow> bool" where
  "blank \<equiv> list_all is_ascii_whitespace"

definition reads_lines ::
  "'n externals \<Rightarrow> 'n l1_codec \<Rightarrow> l1_source_limits \<Rightarrow> l1_range_request \<Rightarrow> bytes list \<Rightarrow> 'n l1_event list \<Rightarrow> bool" where
  "reads_lines ext codec limits request ls es \<longleftrightarrow>
     list_all2 (line_decodes ext codec request) (filter (\<lambda>l. \<not> blank l) ls) es
     \<and> (\<forall>l \<in> set ls. blank l \<or> length l \<le> sl_ndjson_line_bytes limits)
     \<and> length es \<le> lr_blocks_limit request \<and> one_page es"

section \<open>Events\<close>

text \<open>The state of the range parser is a function of the events read so far.\<close>

definition state_of :: "'n l1_event list \<Rightarrow> 'n range_state" where
  "state_of es = \<lparr>rg_events = es, rg_snapshot = (if es = [] then None else Some (le_snapshot (hd es))),
     rg_previous_slot = (if es = [] then None else Some (cp_slot (event_checkpoint (last es))))\<rparr>"

lemma sorted_snoc:
  fixes xs :: "u64 list"
  shows "strictly_sorted (xs @ [y]) \<longleftrightarrow> strictly_sorted xs \<and> (xs \<noteq> [] \<longrightarrow> last xs < y)"
  by (induction xs rule: rev_induct) (auto simp: sorted_wrt_append)

lemma one_page_snoc:
  "one_page (es @ [e]) \<longleftrightarrow> one_page es
     \<and> (es \<noteq> [] \<longrightarrow> cp_slot (event_checkpoint (last es)) < cp_slot (event_checkpoint e) \<and> le_snapshot (hd es) = le_snapshot e)"
proof (cases "es = []")
  case False
  have "(\<forall>x \<in> set (es @ [e]). le_snapshot x = le_snapshot (hd (es @ [e])))
      \<longleftrightarrow> (\<forall>x \<in> set es. le_snapshot x = le_snapshot (hd es)) \<and> le_snapshot (hd es) = le_snapshot e"
    unfolding set_append ball_Un hd_append2[OF False] by (simp add: eq_commute)
  then show ?thesis
    unfolding one_page_def map_append list.map sorted_snoc using False by (simp only: last_map[OF False] map_is_Nil_conv) argo
qed (simp add: one_page_def)

lemma parse_range_event_Ok:
  assumes "one_page es"
  shows "parse_range_event_bytes ext codec line request (state_of es) loc = Ok st \<longleftrightarrow>
    length es < lr_blocks_limit request
    \<and> (\<exists>e. line_decodes ext codec request line e \<and> one_page (es @ [e]) \<and> st = state_of (es @ [e]))"
  using assms unfolding parse_range_event_bytes_def line_decodes_def one_page_snoc
  by (cases "es = []") (auto simp: state_of_def ok_simps linorder_not_le not_less)

lemma parse_range_event_one_page:
  assumes "parse_range_event_bytes ext codec line request (state_of es) loc = Ok st" "one_page es"
  shows "\<exists>e. line_decodes ext codec request line e \<and> one_page (es @ [e]) \<and> st = state_of (es @ [e])
    \<and> length es < lr_blocks_limit request"
  using assms unfolding parse_range_event_Ok[OF assms(2)] by blast

section \<open>Lines\<close>

lemma body_lines_nonempty [simp]: "body_lines bs \<noteq> []"
  by (cases bs) auto

lemma body_lines_newline:
  "10 \<notin> set line \<Longrightarrow> body_lines (line @ 10 # rest) = line # body_lines rest"
  by (induction line) auto

lemma body_lines_rest: "10 \<notin> set bs \<Longrightarrow> body_lines bs = [bs]"
  by (induction bs) auto

lemma body_lines_split:
  assumes "10 \<in> set bs"
  shows "body_lines bs = takeWhile (\<lambda>b. b \<noteq> 10) bs # body_lines (drop (length (takeWhile (\<lambda>b. b \<noteq> 10) bs) + 1) bs)"
proof -
  obtain l r where s: "bs = l @ 10 # r" "10 \<notin> set l" using split_list_first[OF assms] by blast
  have "takeWhile (\<lambda>b. b \<noteq> 10) bs = l" unfolding s(1) using s(2) by (subst takeWhile_append2) auto
  then show ?thesis using s by (simp add: body_lines_newline)
qed

lemma body_lines_append:
  "body_lines (xs @ ys) = butlast (body_lines xs) @ body_lines (last (body_lines xs) @ ys)"
proof (induction xs)
  case (Cons b bs)
  have d: "body_lines bs = hd (body_lines bs) # tl (body_lines bs)" by (rule list.collapse[symmetric]) simp
  show ?case
  proof (cases "b = 10")
    case False
    show ?thesis
    proof (cases "tl (body_lines bs) = []")
      case True
      with d have "body_lines bs = [hd (body_lines bs)]" by simp
      then show ?thesis using False Cons.IH by (cases "body_lines bs") auto
    next
      case ne: False
      then obtain l ls where "body_lines bs = l # ls" "ls \<noteq> []" by (cases "body_lines bs") auto
      then show ?thesis using False Cons.IH by auto
    qed
  qed (use Cons in auto)
qed simp

lemma last_line_rest: "10 \<notin> set (last (body_lines bs))"
proof (induction bs)
  case (Cons b bs)
  then show ?case by (cases "body_lines bs") (auto split: if_splits)
qed simp

lemma parse_line_events:
  assumes "np_range p = state_of es" "one_page es"
  shows "parse_line ext codec p line = Ok q \<longleftrightarrow>
    (blank line \<and> q = p
     \<or> \<not> blank line \<and> length line \<le> sl_ndjson_line_bytes (np_limits p) \<and> length es < lr_blocks_limit (np_request p)
       \<and> (\<exists>e. line_decodes ext codec (np_request p) line e \<and> one_page (es @ [e]) \<and> q = p\<lparr>np_range := state_of (es @ [e])\<rparr>))"
  unfolding parse_line_def assms(1) by (auto simp: ok_simps parse_range_event_Ok[OF assms(2)])

lemma reads_lines_snoc:
  "reads_lines ext codec L R (ls @ [l]) es' \<longleftrightarrow> (\<exists>es. reads_lines ext codec L R ls es \<and>
     (blank l \<and> es' = es
      \<or> \<not> blank l \<and> length l \<le> sl_ndjson_line_bytes L \<and> length es < lr_blocks_limit R
        \<and> (\<exists>e. line_decodes ext codec R l e \<and> one_page (es @ [e]) \<and> es' = es @ [e])))"
proof (cases "blank l")
  case False
  show ?thesis
  proof
    assume "reads_lines ext codec L R (ls @ [l]) es'"
    moreover from this False obtain es e where "es' = es @ [e]" "line_decodes ext codec R l e"
      "list_all2 (line_decodes ext codec R) (filter (\<lambda>l. \<not> blank l) ls) es"
      by (auto simp: reads_lines_def list_all2_append1 list_all2_Cons1)
    ultimately show "\<exists>es. reads_lines ext codec L R ls es \<and> (blank l \<and> es' = es
      \<or> \<not> blank l \<and> length l \<le> sl_ndjson_line_bytes L \<and> length es < lr_blocks_limit R
        \<and> (\<exists>e. line_decodes ext codec R l e \<and> one_page (es @ [e]) \<and> es' = es @ [e]))"
      using False by (intro exI[of _ es]) (auto simp: reads_lines_def one_page_snoc)
  qed (use False in \<open>auto simp: reads_lines_def list_all2_appendI\<close>)
qed (auto simp: reads_lines_def)

lemma reads_lines_unique:
  "reads_lines ext codec L R ls es \<Longrightarrow> reads_lines ext codec L R ls es' \<Longrightarrow> es = es'"
proof -
  have "list_all2 (line_decodes ext codec R) xs es \<Longrightarrow> list_all2 (line_decodes ext codec R) xs es' \<Longrightarrow> es = es'" for xs
    by (induction xs arbitrary: es es') (auto simp: list_all2_Cons1 line_decodes_def)
  then show "reads_lines ext codec L R ls es \<Longrightarrow> reads_lines ext codec L R ls es' \<Longrightarrow> es = es'"
    by (auto simp: reads_lines_def)
qed

lemma reads_lines_prefix:
  "reads_lines ext codec L R (ls @ ls') es \<Longrightarrow> \<exists>es'. reads_lines ext codec L R ls es'"
proof (induction ls' arbitrary: es rule: rev_induct)
  case (snoc l ls')
  then show ?case by (metis append_assoc reads_lines_snoc)
qed auto

section \<open>The parser\<close>

text \<open>\<open>p\<close> has consumed the lines \<open>ls\<close>, which read as \<open>es\<close>, and holds \<open>rest\<close>.\<close>

definition parser_at where
  "parser_at ext codec L R ls es rest n p \<longleftrightarrow> np_limits p = L \<and> np_request p = R \<and> np_range p = state_of es
     \<and> np_pending p = rest \<and> np_received_bytes p = n \<and> reads_lines ext codec L R ls es"

lemma parser_at_line:
  assumes "parser_at ext codec L R ls es rest n p"
  shows "parse_line ext codec p line = Ok q \<Longrightarrow> \<exists>es'. parser_at ext codec L R (ls @ [line]) es' rest n q"
    and "reads_lines ext codec L R (ls @ [line]) es' \<Longrightarrow> \<exists>q. parse_line ext codec p line = Ok q"
proof -
  have p: "np_limits p = L" "np_request p = R" "np_range p = state_of es" "np_pending p = rest" "np_received_bytes p = n"
    and r: "reads_lines ext codec L R ls es" and o: "one_page es"
    using assms by (auto simp: parser_at_def reads_lines_def)
  note line = parse_line_events[OF p(3) o, of ext codec line]
  show "parse_line ext codec p line = Ok q \<Longrightarrow> \<exists>es'. parser_at ext codec L R (ls @ [line]) es' rest n q"
    unfolding line parser_at_def reads_lines_snoc using p r by auto
  show "reads_lines ext codec L R (ls @ [line]) es' \<Longrightarrow> \<exists>q. parse_line ext codec p line = Ok q"
    unfolding line reads_lines_snoc p using reads_lines_unique[OF r] by blast
qed

lemma parser_at_drain:
  assumes "parser_at ext codec L R ls es rest n p"
  shows "drain_lines ext codec p = Ok q
      \<Longrightarrow> \<exists>es'. parser_at ext codec L R (ls @ butlast (body_lines rest)) es' (last (body_lines rest)) n q"
    and "reads_lines ext codec L R (ls @ butlast (body_lines rest)) es' \<Longrightarrow> \<exists>q. drain_lines ext codec p = Ok q"
proof -
  have "(\<forall>q. drain_lines ext codec p = Ok q
      \<longrightarrow> (\<exists>es'. parser_at ext codec L R (ls @ butlast (body_lines rest)) es' (last (body_lines rest)) n q))
    \<and> ((\<exists>es'. reads_lines ext codec L R (ls @ butlast (body_lines rest)) es') \<longrightarrow> (\<exists>q. drain_lines ext codec p = Ok q))"
    using assms
  proof (induction ext codec p arbitrary: ls es rest rule: drain_lines.induct)
    case (1 ext codec p)
    have rest: "np_pending p = rest" using "1.prems" by (simp add: parser_at_def)
    show ?case
    proof (cases "10 \<in> set rest")
      case False
      then show ?thesis using "1.prems" by (auto simp: drain_lines.simps[of ext codec p] rest body_lines_rest)
    next
      case True
      let ?line = "takeWhile (\<lambda>b. b \<noteq> 10) rest"
      let ?trailing = "drop (length ?line + 1) rest"
      let ?p = "p\<lparr>np_pending := ?trailing, np_line_number := usize_increment (np_line_number p)\<rparr>"
      have at: "parser_at ext codec L R ls es ?trailing n ?p" using "1.prems" by (simp add: parser_at_def)
      note step = drain_lines.simps[of ext codec p, unfolded rest Let_def]
      have lines: "ls @ butlast (body_lines rest) = (ls @ [?line]) @ butlast (body_lines ?trailing)"
        "last (body_lines rest) = last (body_lines ?trailing)"
        by (simp_all add: body_lines_split[OF True])
      show ?thesis
      proof (cases "parse_line ext codec ?p ?line")
        case (Ok q)
        obtain es' where "parser_at ext codec L R (ls @ [?line]) es' ?trailing n q" using parser_at_line(1)[OF at Ok] by blast
        note IH = "1.IH"[unfolded rest, OF _ refl refl Ok this]
        have "drain_lines ext codec p = drain_lines ext codec q" unfolding step Ok using True by simp
        with IH True show ?thesis unfolding lines by simp
      next
        case (Err e)
        have "\<not> reads_lines ext codec L R ((ls @ [?line]) @ butlast (body_lines ?trailing)) es'" for es'
          using reads_lines_prefix[of ext codec L R "ls @ [?line]"] parser_at_line(2)[OF at, of ?line] unfolding Err by blast
        moreover have "drain_lines ext codec p = Err e" unfolding step Err using True by simp
        ultimately show ?thesis unfolding lines by simp
      qed
    qed
  qed
  then show "drain_lines ext codec p = Ok q
      \<Longrightarrow> \<exists>es'. parser_at ext codec L R (ls @ butlast (body_lines rest)) es' (last (body_lines rest)) n q"
    and "reads_lines ext codec L R (ls @ butlast (body_lines rest)) es' \<Longrightarrow> \<exists>q. drain_lines ext codec p = Ok q" by blast+
qed

text \<open>\<open>p\<close> has received exactly \<open>body\<close>.\<close>

definition parser_read where
  "parser_read ext codec L R body p \<longleftrightarrow>
     (\<exists>es. parser_at ext codec L R (butlast (body_lines body)) es (last (body_lines body)) (length body) p)"

lemma parser_read_new: "parser_read ext codec L R [] (ndjson_new R L)"
  by (simp add: parser_read_def parser_at_def ndjson_new_def range_start_def state_of_def reads_lines_def one_page_def)

lemma lines_so_far:
  "butlast (body_lines (xs @ ys)) = butlast (body_lines xs) @ butlast (body_lines (last (body_lines xs) @ ys))"
  "last (body_lines (xs @ ys)) = last (body_lines (last (body_lines xs) @ ys))"
  unfolding body_lines_append[of xs ys] by (simp_all add: butlast_append)

lemma parser_read_push:
  assumes "parser_read ext codec L R body p"
  shows "push_chunk ext codec p chunk = Ok q
      \<Longrightarrow> parser_read ext codec L R (body @ chunk) q \<and> length (body @ chunk) \<le> sl_range_response_bytes L \<and> length (body @ chunk) < 2 ^ 64"
    and "\<lbrakk>length (body @ chunk) < 2 ^ 64; length (body @ chunk) \<le> sl_range_response_bytes L;
        length (last (body_lines (body @ chunk))) \<le> sl_ndjson_line_bytes L;
        reads_lines ext codec L R (butlast (body_lines (body @ chunk))) es'\<rbrakk> \<Longrightarrow> \<exists>q. push_chunk ext codec p chunk = Ok q"
proof -
  obtain es where p: "parser_at ext codec L R (butlast (body_lines body)) es (last (body_lines body)) (length body) p"
    using assms by (auto simp: parser_read_def)
  let ?n = "length (body @ chunk)"
  let ?p = "p\<lparr>np_received_bytes := ?n, np_pending := last (body_lines body) @ chunk\<rparr>"
  have at: "parser_at ext codec L R (butlast (body_lines body)) es (last (body_lines body) @ chunk) ?n ?p"
    using p by (simp add: parser_at_def)
  note drain = parser_at_drain[OF at, folded lines_so_far]
  have f: "np_received_bytes p + length chunk = ?n" "np_pending p = last (body_lines body)" "np_limits p = L"
    using p by (simp_all add: parser_at_def)
  note push = push_chunk_def[of ext codec p chunk, unfolded f Let_def]
  { assume "push_chunk ext codec p chunk = Ok q"
    then have "drain_lines ext codec ?p = Ok q" "?n < 2 ^ 64" "?n \<le> sl_range_response_bytes L"
      unfolding push by (auto simp: ok_simps split: if_splits)
    then show "parser_read ext codec L R (body @ chunk) q \<and> ?n \<le> sl_range_response_bytes L \<and> ?n < 2 ^ 64"
      using drain(1) unfolding parser_read_def by blast }
  assume a: "?n < 2 ^ 64" "?n \<le> sl_range_response_bytes L" "length (last (body_lines (body @ chunk))) \<le> sl_ndjson_line_bytes L"
    "reads_lines ext codec L R (butlast (body_lines (body @ chunk))) es'"
  obtain q where q: "drain_lines ext codec ?p = Ok q" using drain(2)[OF a(4)] by blast
  have "length (np_pending q) \<le> sl_ndjson_line_bytes (np_limits q)" using drain(1)[OF q] a(3) by (auto simp: parser_at_def)
  then show "\<exists>q. push_chunk ext codec p chunk = Ok q"
    using a(1,2) q unfolding push by (intro exI[of _ q]) (simp add: not_less not_le)
qed

lemma parser_read_finish:
  assumes "parser_read ext codec L R body p"
  shows "finish_parser ext codec p = Ok es \<longleftrightarrow> reads_lines ext codec L R (body_lines body) es"
proof -
  obtain es0 where p: "parser_at ext codec L R (butlast (body_lines body)) es0 (last (body_lines body)) (length body) p"
    using assms by (auto simp: parser_read_def)
  let ?p = "p\<lparr>np_pending := [], np_line_number := usize_increment (np_line_number p)\<rparr>"
  have all: "body_lines body = butlast (body_lines body) @ [last (body_lines body)]" by simp
  have pend: "np_pending p = last (body_lines body)" using p by (simp add: parser_at_def)
  have at: "parser_at ext codec L R (butlast (body_lines body)) es0 [] (length body) ?p" using p by (simp add: parser_at_def)
  note line = parser_at_line[OF at, of "last (body_lines body)", folded all]
  have events: "rg_events (np_range q) = es'" if "parser_at ext codec L R ls es' rest n q" for ls es' rest n q
    using that by (simp add: parser_at_def state_of_def)
  show ?thesis
  proof (cases "last (body_lines body) = []")
    case True
    have "reads_lines ext codec L R (body_lines body) = reads_lines ext codec L R (butlast (body_lines body))"
      by (subst all, rule ext) (simp add: reads_lines_snoc True)
    moreover have "reads_lines ext codec L R (butlast (body_lines body)) es0" using p by (simp add: parser_at_def)
    ultimately show ?thesis using reads_lines_unique events[OF p] True by (auto simp: finish_parser_def pend)
  next
    case False
    show ?thesis
    proof
      assume "finish_parser ext codec p = Ok es"
      then obtain q where q: "parse_line ext codec ?p (last (body_lines body)) = Ok q" "rg_events (np_range q) = es"
        using False by (auto simp: finish_parser_def pend ok_simps)
      then show "reads_lines ext codec L R (body_lines body) es" using line(1)[OF q(1)] events by (auto simp: parser_at_def)
    next
      assume r: "reads_lines ext codec L R (body_lines body) es"
      then obtain q where q: "parse_line ext codec ?p (last (body_lines body)) = Ok q" using line(2) by blast
      obtain es' where es': "parser_at ext codec L R (body_lines body) es' [] (length body) q" using line(1)[OF q] by blast
      then have "es' = es" using reads_lines_unique[OF _ r] by (auto simp: parser_at_def)
      then show "finish_parser ext codec p = Ok es" using q events[OF es'] False by (simp add: finish_parser_def pend)
    qed
  qed
qed

lemma first_line_append: "10 \<notin> set xs \<Longrightarrow> hd (body_lines (xs @ ys)) = xs @ hd (body_lines ys)"
  by (induction xs) auto

lemma last_line_shorter:
  assumes "\<forall>l \<in> set (body_lines (xs @ ys)). length l \<le> m"
  shows "length (last (body_lines xs)) \<le> m"
proof -
  let ?l = "hd (body_lines (last (body_lines xs) @ ys))"
  have "?l \<in> set (body_lines (xs @ ys))" unfolding body_lines_append[of xs ys] by simp
  then show ?thesis using assms first_line_append[OF last_line_rest[of xs], of ys] by force
qed

lemma parser_read_chunks:
  assumes "parser_read ext codec L R body p"
  shows "fold_result (push_chunk ext codec) p cs = Ok q \<Longrightarrow> parser_read ext codec L R (body @ concat cs) q"
    and "\<lbrakk>length (body @ concat cs) < 2 ^ 64; length (body @ concat cs) \<le> sl_range_response_bytes L;
        \<forall>l \<in> set (body_lines (body @ concat cs)). length l \<le> sl_ndjson_line_bytes L;
        reads_lines ext codec L R (body_lines (body @ concat cs)) es\<rbrakk> \<Longrightarrow> \<exists>q. fold_result (push_chunk ext codec) p cs = Ok q"
  using assms
proof (induction cs arbitrary: body p)
  case (Cons c cs)
  { case 1
    then obtain u where "push_chunk ext codec p c = Ok u" "fold_result (push_chunk ext codec) u cs = Ok q"
      by (auto simp: ok_simps)
    then show ?case using Cons.IH(1)[of u "body @ c"] parser_read_push(1)[OF 1(2)] by simp }
  { case 2
    have "reads_lines ext codec L R (butlast (body_lines (body @ c)) @ body_lines (last (body_lines (body @ c)) @ concat cs)) es"
      using 2(4) body_lines_append[of "body @ c" "concat cs"] by simp
    then obtain es' where es': "reads_lines ext codec L R (butlast (body_lines (body @ c))) es'" using reads_lines_prefix by blast
    have last: "length (last (body_lines (body @ c))) \<le> sl_ndjson_line_bytes L"
      by (rule last_line_shorter[of _ "concat cs"]) (use 2(3) in simp)
    obtain u where u: "push_chunk ext codec p c = Ok u" using parser_read_push(2)[OF 2(5) _ _ last es'] 2(1,2) by auto
    have "parser_read ext codec L R (body @ c) u" using parser_read_push(1)[OF 2(5) u] by simp
    then obtain q where "fold_result (push_chunk ext codec) u cs = Ok q" using Cons.IH(2)[of "body @ c" u] 2(1-4) by auto
    then show ?case using u by simp }
qed simp_all

text \<open>A body whose lines are within the limit parses the same way however it is cut into chunks.\<close>

lemma chunks_parse:
  assumes "\<forall>l \<in> set (body_lines (concat cs)). length l \<le> sl_ndjson_line_bytes L"
  shows "and_then (fold_result (push_chunk ext codec) (ndjson_new R L) cs) (finish_parser ext codec) = Ok es
    \<longleftrightarrow> length (concat cs) \<le> sl_range_response_bytes L \<and> length (concat cs) < 2 ^ 64
      \<and> reads_lines ext codec L R (body_lines (concat cs)) es"
proof (cases "cs = []")
  case True
  then show ?thesis using parser_read_finish[OF parser_read_new] by (simp add: body_lines_rest)
next
  case False
  show ?thesis
  proof
    assume "and_then (fold_result (push_chunk ext codec) (ndjson_new R L) cs) (finish_parser ext codec) = Ok es"
    then obtain q where q: "fold_result (push_chunk ext codec) (ndjson_new R L) cs = Ok q" "finish_parser ext codec q = Ok es"
      by (auto simp: ok_simps)
    have cs: "cs = butlast cs @ [last cs]" using False by simp
    obtain u where u: "fold_result (push_chunk ext codec) (ndjson_new R L) (butlast cs) = Ok u" "push_chunk ext codec u (last cs) = Ok q"
      using q(1) by (subst (asm) cs) (auto simp: fold_result_append ok_simps)
    have "concat (butlast cs) @ last cs = concat cs" using arg_cong[OF cs, of concat] by simp
    then show "length (concat cs) \<le> sl_range_response_bytes L \<and> length (concat cs) < 2 ^ 64
        \<and> reads_lines ext codec L R (body_lines (concat cs)) es"
      using parser_read_push(1)[OF parser_read_chunks(1)[OF parser_read_new u(1)] u(2)]
        parser_read_finish[of ext codec L R "concat cs" q es] q(2) by auto
  next
    assume r: "length (concat cs) \<le> sl_range_response_bytes L \<and> length (concat cs) < 2 ^ 64
        \<and> reads_lines ext codec L R (body_lines (concat cs)) es"
    then obtain q where q: "fold_result (push_chunk ext codec) (ndjson_new R L) cs = Ok q"
      using parser_read_chunks(2)[OF parser_read_new, of cs L ext codec R es] assms(1) by auto
    from r parser_read_finish[OF parser_read_chunks(1)[OF parser_read_new q]] q
    show "and_then (fold_result (push_chunk ext codec) (ndjson_new R L) cs) (finish_parser ext codec) = Ok es" by simp
  qed
qed

section \<open>What a decoded event satisfies\<close>

lemma ascii_lower_lower: "is_ascii_hexdigit (ascii_lower c) \<Longrightarrow> is_lower_hexdigit (ascii_lower c)"
  by (auto simp: is_ascii_hexdigit_def ascii_lower_def split: if_splits)

lemma l1_canonical_hex_id_valid:
  assumes "l1_canonical_hex_id v label = Ok i"
  shows "hex_id i"
proof -
  have "length i = 64" "list_all is_ascii_hexdigit i" "i = map ascii_lower (trim v)"
    using assms by (auto simp: l1_canonical_hex_id_def to_ascii_lowercase_def Let_def split: if_splits)
  then show ?thesis using ascii_lower_lower by (simp add: hex_id_def list_all_iff)
qed

lemma required_hex_id_valid: "required_hex_id v label = Ok i \<Longrightarrow> hex_id i"
  by (auto simp: required_hex_id_def ok_simps intro: l1_canonical_hex_id_valid)

lemma parse_block_valid:
  assumes "parse_block ext v label = Ok b"
  shows "hex_id (cp_block_id (lb_checkpoint b)) \<and> hex_id (cp_parent_id (lb_checkpoint b))"
  using assms by (auto simp: parse_block_def header_field_def ok_simps intro: required_hex_id_valid split: if_splits option.splits)

lemma event_in_range_Ok:
  "event_in_range R c snapshot = Ok () \<longleftrightarrow> lr_slot_from R \<le> cp_slot c \<and> cp_slot c \<le> br_slot (lr_target_lib R)
     \<and> cp_slot c \<le> br_slot (ls_lib snapshot) \<and> br_slot (lr_target_lib R) \<le> br_slot (ls_lib snapshot)
     \<and> (br_slot (ls_lib snapshot) = br_slot (lr_target_lib R) \<longrightarrow> br_block_id (ls_lib snapshot) = br_block_id (lr_target_lib R))
     \<and> (cp_slot c = br_slot (lr_target_lib R) \<longrightarrow> cp_block_id c = br_block_id (lr_target_lib R))"
  by (auto simp: event_in_range_def Let_def not_less)

lemma line_decodes_valid:
  assumes "line_decodes ext codec R line e"
  shows "validate_event_against_target e (lr_target_lib R) = Ok ()"
    and "lr_slot_from R \<le> cp_slot (event_checkpoint e)"
    and "engine_validate_checkpoint (event_checkpoint e) l = Ok ()"
proof -
  obtain wire where w: "parse_wire_event ext wire R = Ok e" using assms by (auto simp: line_decodes_def)
  have r: "event_in_range R (event_checkpoint e) (le_snapshot e) = Ok ()"
    using w by (auto simp: parse_wire_event_def ok_simps Let_def)
  show "lr_slot_from R \<le> cp_slot (event_checkpoint e)" using r unfolding event_in_range_Ok by simp
  show "validate_event_against_target e (lr_target_lib R) = Ok ()"
    using r unfolding event_in_range_Ok by (simp add: validate_event_against_target_def Let_def not_less[symmetric])
  have "parse_block ext (we_block wire) ''finalized range event'' = Ok (le_block e)"
    using w by (auto simp: parse_wire_event_def ok_simps Let_def)
  then show "engine_validate_checkpoint (event_checkpoint e) l = Ok ()"
    using parse_block_valid by (simp add: engine_validate_checkpoint_def validate_id_def ok_simps)
qed

definition page_ok :: "l1_range_request \<Rightarrow> 'n l1_event list \<Rightarrow> bool" where
  "page_ok R es \<longleftrightarrow> length es \<le> lr_blocks_limit R \<and> validate_page_snapshots es = Ok ()
     \<and> validate_strictly_ascending_slots es = Ok ()
     \<and> (\<forall>e \<in> set es. validate_event_against_target e (lr_target_lib R) = Ok () \<and> lr_slot_from R \<le> cp_slot (event_checkpoint e)
          \<and> engine_validate_checkpoint (event_checkpoint e) LRecoveredBlock = Ok ())"

lemma page_ascending_from_Ok:
  "ascending_from previous es = Ok () \<longleftrightarrow> strictly_sorted (map (\<lambda>e. cp_slot (event_checkpoint e)) es)
     \<and> (\<forall>e \<in> set es. is_none_or previous (\<lambda>p. p < cp_slot (event_checkpoint e)))"
  by (induction previous es rule: ascending_from.induct) (auto simp: is_some_and_def is_none_or_def not_le split: option.splits)

lemma one_page_checks:
  "one_page es \<Longrightarrow> validate_page_snapshots es = Ok ()"
  "one_page es \<Longrightarrow> validate_strictly_ascending_slots es = Ok ()"
  by (cases es; auto simp: one_page_def validate_page_snapshots_def ok_simps validate_strictly_ascending_slots_def page_ascending_from_Ok)+

lemma page_okI:
  assumes "one_page es" "length es \<le> lr_blocks_limit R" "\<And>e. e \<in> set es \<Longrightarrow> \<exists>line. line_decodes ext codec R line e"
  shows "page_ok R es"
  unfolding page_ok_def using assms one_page_checks line_decodes_valid by blast

lemma array_events_page:
  assumes "parse_array_events ext codec R i (state_of es) vs = Ok st" "one_page es" "length es \<le> lr_blocks_limit R"
    "\<forall>e \<in> set es. \<exists>line. line_decodes ext codec R line e"
  shows "\<exists>es'. st = state_of es' \<and> page_ok R es'"
  using assms
proof (induction vs arbitrary: i es)
  case Nil
  then show ?case using page_okI[of es R ext codec] by auto
next
  case (Cons v vs)
  obtain encoded st' loc where st: "parse_range_event_bytes ext codec encoded R (state_of es) loc = Ok st'"
    "parse_array_events ext codec R (i + 1) st' vs = Ok st" using Cons.prems(1) by (auto simp: ok_simps)
  obtain e where e: "line_decodes ext codec R encoded e" "one_page (es @ [e])" "st' = state_of (es @ [e])" "length es < lr_blocks_limit R"
    using parse_range_event_one_page[OF st(1) Cons.prems(2)] by blast
  have "\<forall>x \<in> set (es @ [e]). \<exists>line. line_decodes ext codec R line x" using Cons.prems(4) e(1) by auto
  then show ?case using Cons.IH[OF st(2)[unfolded e(3)] e(2)] e(4) by simp
qed

lemma reads_lines_page:
  assumes "reads_lines ext codec L R ls es"
  shows "page_ok R es"
proof (rule page_okI[of _ _ ext codec])
  have "list_all2 (line_decodes ext codec R) (filter (\<lambda>l. \<not> blank l) ls) es" using assms by (simp add: reads_lines_def)
  then show "\<exists>line. line_decodes ext codec R line e" if "e \<in> set es" for e
    using that by (auto simp: list_all2_conv_all_nth in_set_conv_nth)
qed (use assms in \<open>auto simp: reads_lines_def\<close>)

lemma range_start_state: "range_start = state_of []"
  by (simp add: range_start_def state_of_def)

lemma read_chunks_pushed:
  assumes "fold_result (\<lambda>p c. and_then (map_err f c) (push_chunk ext codec p)) p cs = Ok q"
  shows "\<exists>bs. cs = map Ok bs \<and> fold_result (push_chunk ext codec) p bs = Ok q"
  using assms
proof (induction cs arbitrary: p)
  case (Cons c cs)
  then obtain b u where "c = Ok b" "push_chunk ext codec p b = Ok u"
    "fold_result (\<lambda>p c. and_then (map_err f c) (push_chunk ext codec p)) u cs = Ok q" by (auto simp: ok_simps)
  moreover from this(3) Cons.IH obtain bs where "cs = map Ok bs" "fold_result (push_chunk ext codec) u bs = Ok q" by blast
  ultimately show ?case by (intro exI[of _ "b # bs"]) simp
qed simp

lemma direct_range_page: "direct_finalized_range ext codec L fetch R = Ok es \<Longrightarrow> page_ok R es"
proof -
  assume "direct_finalized_range ext codec L fetch R = Ok es"
  then obtain q cs where "fold_result (\<lambda>p c. and_then (map_err (source_unavailable ''finalized range body read failed'') c)
      (push_chunk ext codec p)) (ndjson_new R L) cs = Ok q" "finish_parser ext codec q = Ok es"
    by (auto simp: direct_finalized_range_def ok_simps)
  then obtain bs where bs: "fold_result (push_chunk ext codec) (ndjson_new R L) bs = Ok q" "finish_parser ext codec q = Ok es"
    using read_chunks_pushed by blast
  show "page_ok R es"
    using parser_read_finish[OF parser_read_chunks(1)[OF parser_read_new bs(1)]] bs(2) reads_lines_page by blast
qed

lemma array_range_page: "parse_catalog_l1_range_array ext codec v R L = Ok es \<Longrightarrow> page_ok R es"
proof -
  assume "parse_catalog_l1_range_array ext codec v R L = Ok es"
  then obtain vs st where "parse_array_events ext codec R 0 (state_of []) vs = Ok st" "rg_events st = es"
    by (auto simp: parse_catalog_l1_range_array_def ok_simps range_start_state split: if_splits)
  moreover from array_events_page[OF this(1)] obtain es' where "st = state_of es'" "page_ok R es'" by (auto simp: one_page_def)
  ultimately show "page_ok R es" by (simp add: state_of_def)
qed

lemma module_range_page: "module_finalized_range ext codec L call R = Ok es \<Longrightarrow> page_ok R es"
  by (auto simp: module_finalized_range_def ok_simps intro: array_range_page)

lemma direct_range_iff:
  assumes "\<forall>l \<in> set (body_lines (concat chunks)). length l \<le> sl_ndjson_line_bytes L" "sl_range_response_bytes L < 2 ^ 64"
  shows "direct_finalized_range ext codec L (\<lambda>_. Ok \<lparr>hr_content_length = declared, hr_chunks = map Ok chunks\<rparr>) R = Ok es
    \<longleftrightarrow> 0 < sl_range_response_bytes L \<and> is_none_or declared (\<lambda>n. unat n \<le> sl_range_response_bytes L)
      \<and> length (concat chunks) \<le> sl_range_response_bytes L \<and> reads_lines ext codec L R (body_lines (concat chunks)) es"
proof -
  have f: "fold_result (\<lambda>p c. and_then (map_err f c) (push_chunk ext codec p)) p (map Ok cs) = fold_result (push_chunk ext codec) p cs"
    for f p cs by (induction cs arbitrary: p) simp_all
  have c: "and_then (map_err InvalidResponse (ensure_response_content_length r m)) (\<lambda>_. g) = Ok es
      \<longleftrightarrow> 0 < m \<and> is_none_or (hr_content_length r) (\<lambda>n. unat n \<le> m) \<and> g = Ok es" for r m g
    by (cases "hr_content_length r") (auto simp: ensure_response_content_length_def fail_if_def not_less)
  show ?thesis unfolding direct_finalized_range_def
    using chunks_parse[OF assms(1), of ext codec R es] assms(2) by (simp add: c f) linarith
qed

subsection \<open>A concrete page\<close>

text \<open>A decoder for lines of one byte: the byte is the slot of the block and the last digit of its identifier.\<close>

definition digit_id :: "nat \<Rightarrow> string" where
  "digit_id n = replicate 63 (CHR ''0'') @ [char_of (48 + n)]"

definition sample_wire :: "nat \<Rightarrow> nat wire_event" where
  "sample_wire n = \<lparr>we_block = JObject [(''header'', JObject [(''slot'', JNumber n), (''id'', JString (digit_id n)),
       (''parent_block'', JString (digit_id (n - 1)))]), (''transactions'', JArray [])],
     we_tip = JString (digit_id 9), we_tip_slot = JNumber 9, we_lib = JString (digit_id 3), we_lib_slot = JNumber 3\<rparr>"

definition sample_codec :: "nat l1_codec" where
  "sample_codec = \<lparr>lx_event = (\<lambda>line. case line of [b] \<Rightarrow> Ok (sample_wire (unat b)) | _ \<Rightarrow> Err []),
     lx_to_vec = (\<lambda>_. Err []), lx_as_i64 = (\<lambda>_. None)\<rparr>"

definition sample_number :: "nat externals" where
  "sample_number = \<lparr>x_as_u64 = (\<lambda>n. Some (of_nat n)), x_number_text = (\<lambda>_. []), x_json_to_vec = (\<lambda>_. None),
     x_hex_decode = (\<lambda>_. None), x_hex_encode = (\<lambda>_. []), x_sha256 = (\<lambda>bs. bs), x_sequencer_block = (\<lambda>_. None)\<rparr>"

definition sample_request :: l1_range_request where
  "sample_request = \<lparr>lr_slot_from = 1, lr_target_lib = \<lparr>br_slot = 3, br_block_id = digit_id 3\<rparr>, lr_blocks_limit = 4\<rparr>"

definition sample_limits :: l1_source_limits where
  "sample_limits = \<lparr>sl_metadata_response_bytes = 9, sl_block_response_bytes = 9, sl_range_response_bytes = 9,
     sl_ndjson_line_bytes = 2, sl_error_response_bytes = 9\<rparr>"

text \<open>Two events, a blank line, and a chunk boundary inside the blank line.\<close>

definition sample_chunks :: "bytes list" where
  "sample_chunks = [[2, 10, 32], [], [32, 10], [3]]"

definition sample_event :: "nat \<Rightarrow> nat l1_event" where
  "sample_event n = \<lparr>le_block = \<lparr>lb_checkpoint = \<lparr>cp_slot = of_nat n, cp_block_id = digit_id n, cp_parent_id = digit_id (n - 1)\<rparr>,
       lb_payload = we_block (sample_wire n)\<rparr>,
     le_snapshot = \<lparr>ls_tip = \<lparr>br_slot = 9, br_block_id = digit_id 9\<rparr>, ls_lib = \<lparr>br_slot = 3, br_block_id = digit_id 3\<rparr>\<rparr>\<rparr>"

lemma sample_line_decodes:
  "line_decodes sample_number sample_codec sample_request [2] (sample_event 2)"
  "line_decodes sample_number sample_codec sample_request [3] (sample_event 3)"
proof -
  have "list_all (\<lambda>n. lx_event sample_codec [of_nat n] = Ok (sample_wire n)
      \<and> parse_wire_event sample_number (sample_wire n) sample_request = Ok (sample_event n)) [2, 3]" by code_simp
  then show "line_decodes sample_number sample_codec sample_request [2] (sample_event 2)"
    "line_decodes sample_number sample_codec sample_request [3] (sample_event 3)"
    by (auto simp: line_decodes_def)
qed

lemma sample_lines:
  "\<forall>l \<in> set (body_lines (concat sample_chunks)). length l \<le> sl_ndjson_line_bytes sample_limits"
  "reads_lines sample_number sample_codec sample_limits sample_request (body_lines (concat sample_chunks)) (map sample_event [2, 3])"
proof -
  have b: "body_lines (concat sample_chunks) = [[2], [32, 32], [3]]" by (simp add: sample_chunks_def)
  have f: "filter (\<lambda>l. \<not> blank l) [[2], [32, 32], [3]] = [[2], [3 :: u8]]"
    by (simp add: is_ascii_whitespace_def)
  show "\<forall>l \<in> set (body_lines (concat sample_chunks)). length l \<le> sl_ndjson_line_bytes sample_limits"
    by (simp add: b sample_limits_def)
  show "reads_lines sample_number sample_codec sample_limits sample_request (body_lines (concat sample_chunks)) (map sample_event [2, 3])"
    unfolding reads_lines_def b f
  proof (intro conjI)
    show "list_all2 (line_decodes sample_number sample_codec sample_request) [[2], [3]] (map sample_event [2, 3])"
      by (simp add: sample_line_decodes)
  qed (simp_all add: sample_limits_def sample_request_def one_page_def sample_event_def)
qed

lemma sample_body: "length (concat sample_chunks) \<le> sl_range_response_bytes sample_limits"
    "0 < sl_range_response_bytes sample_limits" "sl_range_response_bytes sample_limits < 2 ^ 64"
  by (simp_all add: sample_chunks_def sample_limits_def)

section \<open>Properties\<close>

text \<open>
  C17: Every page the HTTP source or the module source returns passes the checks of the engine on a page that do not depend on the
  catalog: at most the requested number of blocks, which is at most one hundred, one chain snapshot, strictly ascending slots, each block
  within the requested slots and consistent with the fixed target, and canonical block identifiers.
\<close>

theorem range_pages_accepted:
  assumes "range_request_new slot_from target limit = Ok R"
    and "direct_finalized_range ext codec L fetch R = Ok es \<or> module_finalized_range ext codec L call R = Ok es"
  shows "length es \<le> limit \<and> limit \<le> 100 \<and> validate_page_snapshots es = Ok () \<and> validate_strictly_ascending_slots es = Ok ()
    \<and> (\<forall>e \<in> set es. validate_event_against_target e (lr_target_lib R) = Ok () \<and> slot_from \<le> cp_slot (event_checkpoint e)
        \<and> engine_validate_checkpoint (event_checkpoint e) LRecoveredBlock = Ok ())"
proof -
  have "page_ok R es" using assms(2) direct_range_page module_range_page by blast
  moreover have "lr_blocks_limit R = limit" "limit \<le> 100" "lr_slot_from R = slot_from"
    using assms(1) by (auto simp: range_request_new_def MAX_CATALOG_L1_RANGE_BLOCKS_def ok_simps split: if_splits)
  ultimately show ?thesis by (simp add: page_ok_def)
qed

theorem range_pages_accepted_witness:
  "\<exists>R. range_request_new 1 \<lparr>br_slot = 3, br_block_id = digit_id 3\<rparr> 4 = Ok R
     \<and> validate_page_snapshots (map sample_event [2, 3]) = Ok ()
     \<and> list_all (\<lambda>e. validate_event_against_target e (lr_target_lib R) = Ok ()) (map sample_event [2, 3])"
proof -
  have r: "range_request_new 1 \<lparr>br_slot = 3, br_block_id = digit_id 3\<rparr> 4 = Ok sample_request" by code_simp
  have "direct_finalized_range sample_number sample_codec sample_limits
      (\<lambda>_. Ok \<lparr>hr_content_length = None, hr_chunks = map Ok sample_chunks\<rparr>) sample_request = Ok (map sample_event [2, 3])"
    using direct_range_iff[OF sample_lines(1) sample_body(3), where declared = None and ext = sample_number and codec = sample_codec
      and R = sample_request and es = "map sample_event [2, 3]"] sample_lines(2) sample_body(1,2) by simp
  from range_pages_accepted[OF r disjI1, OF this] r show ?thesis by (simp add: list_all_iff)
qed

text \<open>
  C18: For a body none of whose lines is over the line limit, the incremental NDJSON parser reads exactly the decoded non-blank
  lines: the source returns a page if and only if the body and its declared length are within the body limit and the
  lines decode to that page. For such bodies the result does not depend on the chunks they arrive in.
\<close>

theorem range_body_read_exactly:
  assumes "\<forall>l \<in> set (body_lines (concat chunks)). length l \<le> sl_ndjson_line_bytes L" "sl_range_response_bytes L < 2 ^ 64"
  shows "direct_finalized_range ext codec L (\<lambda>_. Ok \<lparr>hr_content_length = declared, hr_chunks = map Ok chunks\<rparr>) R = Ok es
    \<longleftrightarrow> 0 < sl_range_response_bytes L \<and> is_none_or declared (\<lambda>n. unat n \<le> sl_range_response_bytes L)
      \<and> length (concat chunks) \<le> sl_range_response_bytes L \<and> reads_lines ext codec L R (body_lines (concat chunks)) es"
  by (rule direct_range_iff[OF assms])

theorem range_body_read_exactly_witness:
  "direct_finalized_range sample_number sample_codec sample_limits
     (\<lambda>_. Ok \<lparr>hr_content_length = Some 8, hr_chunks = map Ok sample_chunks\<rparr>) sample_request = Ok (map sample_event [2, 3])"
  using range_body_read_exactly[OF sample_lines(1) sample_body(3), where declared = "Some 8" and ext = sample_number and codec = sample_codec
      and R = sample_request and es = "map sample_event [2, 3]"] sample_lines(2) sample_body(1,2)
  by (simp add: sample_limits_def)

end
