(* ===== verification/Spec2Isabelle.thy ===== *)
theory Spec2Isabelle
  imports Activation_Samples L1_Pages
begin

text \<open>
  A verification development of the Zone Catalog of logos-inspector.

  \<^bold>\<open>The program.\<close> The inspector follows an L1 chain and keeps, for every Zone (a Channel of the chain), the evidence of its
  operations in finalized blocks. The Zone Catalog is the part that collects, stores and reports this evidence:

  \<^item> the L1 source (\<^verbatim>\<open>src/src/inspection/catalog/source.rs\<close>) fetches pages of finalized blocks and single blocks;
  \<^item> the decoder (\<^verbatim>\<open>src/src/blockchain/channel_operations.rs\<close>) extracts the Channel operations of a block;
  \<^item> the engine (\<^verbatim>\<open>engine.rs\<close>) reduces a snapshot of the catalog and fetched blocks to a batch of changes; it tracks
    which slots are covered by segments and gaps, and repairs gaps by following parent identifiers;
  \<^item> the store (\<^verbatim>\<open>store.rs\<close>, records in \<^verbatim>\<open>model.rs\<close>) validates a batch and commits it to five tables;
  \<^item> the worker (\<^verbatim>\<open>worker.rs\<close>) opens or creates the catalog file of a source, then scans: catch up, ingest pages, repair;
  \<^item> the service (\<^verbatim>\<open>service.rs\<close>) starts and stops runs of the worker, verifies that a stored catalog belongs to the network
    of the source, promotes a provisional network identity, and shows a report to the user interface.

  A block travels from the source through the worker to the engine, the resulting batch to the store, the new snapshot to a
  publication, and the publication to the report. The theories follow this path, and the property of
  this theory composes them: what a verified report shows is what the engine computed from the blocks of the reported source.

  \<^bold>\<open>Conventions.\<close> A struct is a record whose fields carry a short prefix, an enum a datatype, \<open>u64\<close> the type \<open>64 word\<close>, a string a
  list of bytes, \<open>Result\<close> the datatype \<open>result\<close> with \<open>and_then\<close> for the question-mark operator. Pure code is a HOL function. Code that
  talks to the outside is a function of type \<open>run_of\<close>: it takes an \<open>environment\<close>, whose fields give the answer of the source, the
  clock, the cancellation token, the storage layer and so on at every moment, and threads a \<open>run_state\<close>. Concurrent code is an
  inductive step relation. Third-party code (JSON and Borsh codecs, hex, SHA-256, the HTTP client, redb) is an argument;
  where a property needs a fact about it, the fact is a hypothesis (\<open>codecs_ok\<close>: decoding inverts encoding;
  \<open>gap_ids_differ\<close>: the hashed gap identifiers do not collide; \<open>env_serves\<close>: the source serves one block per identifier).

  \<^bold>\<open>Theories and sources.\<close>

  \<^item> \<open>Prelude\<close>, \<open>Rust_Std\<close>, \<open>Keyed_Records\<close>: results and loops, the parts of Rust's standard library in use (checked
    arithmetic, trimming, integer texts, binary search), and the ordered containers (\<open>BTreeMap\<close>, sorted vectors).
  \<^item> \<open>Catalog_Model\<close> (\<^verbatim>\<open>model.rs\<close>, \<^verbatim>\<open>zones.rs\<close>): all records and every record validator.
  \<^item> \<open>Catalog_Store\<close> (\<^verbatim>\<open>store.rs\<close>): full validation \<open>validate_snapshot\<close>, batch validation, and the in-place application
    \<open>apply_batch_to_snapshot\<close> with its incremental validation. \<open>Catalog_Incremental\<close> proves that the incremental validation accepts
    exactly what the full one accepts. \<open>Catalog_Database\<close> (\<^verbatim>\<open>store.rs\<close>): tables, \<open>create_store\<close>, \<open>open_store\<close>, \<open>read_snapshot\<close>, the
    two commit paths and \<open>update_metadata\<close>; the held snapshot always is what rereading the tables gives.
  \<^item> \<open>Channel_Operations\<close> (\<^verbatim>\<open>channel_operations.rs\<close>): every decoder over a JSON type.
  \<^item> \<open>Catalog_Working\<close>, \<open>Catalog_Engine\<close> (\<^verbatim>\<open>engine.rs\<close>): the working maps, ingestion and Zone recomputation; the reductions
    \<open>prepare_catalog_catch_up_with_resume\<close>, \<open>reduce_catalog_page\<close>, \<open>repair_catalog_ancestry\<close>, \<open>reduce_catalog_repair\<close>,
    \<open>confirm_catalog_repair_gap\<close>, \<open>reduce_catalog_prefix_repair\<close>, \<open>reduce_catalog_gap_repair\<close>.
  \<^item> \<open>Catalog_Repair\<close>: the repair loop ends in its budget, its outcomes are accepted by the reductions and it finds what is there.
    \<open>Catalog_Ingestion\<close>, \<open>Catalog_Zones\<close>: the evidence indexes and the Zone summaries are exact.
  \<^item> \<open>Coverage_Runs\<close>, \<open>Catalog_Coverage\<close>, \<open>Coverage_Pages\<close>, \<open>Coverage_Repairs\<close>, \<open>Coverage_Steps\<close>, \<open>Coverage_Properties\<close>: the
    abstract view of a catalog as a list of runs of linked blocks, the refinement of every engine step to it, the relation
    \<open>reachable\<close>, and its consequences. \<open>Coverage_Histories\<close>, \<open>Coverage_Samples\<close>: two concrete histories as witnesses.
  \<^item> \<open>L1_Source\<close>, \<open>L1_Pages\<close> (\<^verbatim>\<open>source.rs\<close>): requests, the incremental NDJSON parser and the array parser, and what holds of
    every page they return.
  \<^item> \<open>Catalog_Run\<close> (\<^verbatim>\<open>service.rs\<close>): errors, publications, \<open>ensure_current\<close>, \<open>run_blocking_catalog\<close>, \<open>publish\<close>, and the rules to
    reason about a run. \<open>Catalog_Identity\<close>, \<open>Identity_Properties\<close> (\<^verbatim>\<open>service.rs\<close>): \<open>verify_catalog_candidate\<close> and
    \<open>apply_catalog_identity_promotion\<close>; what a verified candidate guarantees, and that a promotion can be interrupted anywhere.
  \<^item> \<open>Catalog_Worker\<close> (\<^verbatim>\<open>worker.rs\<close>): \<open>apply_catalog_page\<close>, \<open>repair_one_catalog_gap\<close>, \<open>run_catalog_scan\<close>. \<open>Worker_Safety\<close> holds the
    locale \<open>catalog_keeper\<close>, the contract of a property of the stored catalog that every batch of the worker keeps;
    \<open>Worker_Properties\<close> interprets it for reachability and for the number of gaps.
  \<^item> \<open>Catalog_Activation\<close>, \<open>Activation_Properties\<close> (\<^verbatim>\<open>worker.rs\<close>): \<open>open_or_create_catalog\<close>, \<open>create_catalog\<close>, \<open>run_source\<close>; the locale
    \<open>catalog_opener\<close> extends \<open>catalog_keeper\<close> by what opening a file must give.
  \<^item> \<open>Catalog_Service\<close>, \<open>Service_Properties\<close> (\<^verbatim>\<open>service.rs\<close>): the report, \<open>configure_catalog_run\<close>, \<open>restart_catalog_run\<close>,
    \<open>stop_catalog_run\<close> and \<open>run_catalog_controller\<close> as the steps of \<open>service_step\<close>, and the invariant \<open>service_ok\<close> of all interleavings.
  \<^item> \<open>Run_Samples\<close>, \<open>Activation_Samples\<close>: concrete runs that witness the properties.

  \<^bold>\<open>What is shown.\<close> Complete coverage is one unbroken chain of blocks from slot zero with exactly its evidence, and two
  complete catalogs of one chain agree whatever their histories. No step loses evidence or moves the cursor back. The worker
  keeps the catalog reachable in every cycle, on every error, and publishes only reachable catalogs as verified; its loops
  end. A catalog file is moved away only for cause. A report shows only catalogs of its own source, and one run is active at a
  time. A verified candidate was confirmed by the source. Promotions are resumable. The
  two commit paths and the two validations of the store are equivalent. Pages of the source pass the checks of the engine.
  One property is a defect: the confirmation the worker builds for a gap repair names the top of the lowest segment where the
  engine expects the top of the segment above the gap, so that the engine refuses every gap repair that found the missing
  blocks and no scan ever closes a gap.

  \<^bold>\<open>Bounds and fuel.\<close> The promotion loop has fuel 4: three stages remain at most and each iteration completes one. The page loop
  has fuel \<open>3 * n + 1\<close> for a page of \<open>n\<close> blocks and the ingestion loop the slot of the target plus 4; both are shown to be
  enough for a source that serves one block per identifier. The repair loop takes the block budget of its
  request. The scan loop never ends by design, so that properties hold for every number of cycles; in the same way the wait
  for a source that is behind has a number of rounds as an argument, and \<open>None\<close> is a run that still waits.

  \<^bold>\<open>What is not modelled.\<close> Failures inside redb (a commit happens or not), the texts of \<open>Display\<close> except where they reach a
  report, the passing of time while waiting and the pacing between pages, the HTTP client and the module transports, the listing of a directory (an argument), the command channel of the
  service (the choice of the next step), the projection of a snapshot to the user interface in \<^verbatim>\<open>report.rs\<close>, and the
  rest of the inspector: L2 queries, decoding of accounts, node supervision, wallet, command line and user interface.
\<close>

section \<open>What the service reports\<close>

text \<open>
  The publications the service took from a run are publications of the worker, run with the source, the revision and the mode
  that the service started it with, on catalog files of this source. \<open>U\<close> gives the blocks of every source by its fingerprint.
\<close>

definition published_by_worker :: "'n externals \<Rightarrow> (string \<Rightarrow> string \<Rightarrow> 'n l1_block option) \<Rightarrow> catalog_run \<Rightarrow> bool" where
  "published_by_worker ext U run \<longleftrightarrow> (let f = sd_fingerprint (cr_source run) in
     \<exists>env fuel cycles candidates st r st'. served_run env ext (U f)
       \<and> (\<forall>(path, db) \<in> set candidates. catalog_file env ext (U f) db) \<and> rn_publications st = []
       \<and> en_source_revision env = cr_revision run \<and> en_run_mode env = cr_mode run
       \<and> run_source fuel cycles env ext f candidates st = (r, st') \<and> set (cr_accepted run) \<subseteq> set (rn_publications st'))"

lemma published_verified:
  assumes "published_by_worker ext U run"
  shows "verified_ok (\<lambda>c. reachable ext (U (sd_fingerprint (cr_source run))) c
    \<and> gap_ids_differ ext (U (sd_fingerprint (cr_source run)))) (cr_accepted run)"
proof -
  obtain ps where "verified_ok (reachable ext (U (sd_fingerprint (cr_source run)))) ps" "set (cr_accepted run) \<subseteq> set ps"
    "gap_ids_differ ext (U (sd_fingerprint (cr_source run)))"
    using assms run_published unfolding published_by_worker_def Let_def served_run_def by metis
  then show ?thesis unfolding verified_ok_def by blast
qed

text \<open>
  C1: Under every interleaving of configuration, retry, rebuild, shutdown and runs, a report of the service that shows a source as
  verified shows a catalog that the steps of the engine reach on the blocks of this very source. If its coverage is complete,
  then the blocks it covers are one unbroken chain from slot zero to the target, it has one segment and no gap, and
  its evidence is exactly the evidence of the Channel operations in these blocks.
\<close>

theorem verified_report_is_whole_chain:
  assumes "service_reaches shown s" "\<forall>run \<in> set (sv_runs s). published_by_worker ext U run"
    "sr_source_fingerprint (sv_report s) = Some f" "sr_verification_state (sv_report s) = StateVerified"
  shows "\<exists>c. sr_catalog (sv_report s) = Some c \<and> reachable ext (U f) c
    \<and> (map_option fr_coverage_status (cs_frontier c) = Some CoverageComplete \<longrightarrow> (\<exists>i bs. good_run (U f) bs \<and> cp_slot (floor_of bs) = 0
      \<and> current_target c = Ok (top_reference bs) \<and> cs_gaps c = []
      \<and> (\<exists>g. set (cs_segments c) = {g} \<and> sg_floor g = floor_of bs \<and> sg_frontier g = top_reference bs)
      \<and> set (cs_evidence c) = (\<Union>b \<in> set bs. set (block_references ext i b))))"
proof -
  have "report_ok s" using service_reaches_ok[OF assms(1)] by (simp add: service_ok_def)
  then obtain run p where run: "run \<in> set (sv_runs s)" "sd_fingerprint (cr_source run) = f" "p \<in> set (cr_accepted run)"
    "pb_verification_state p = StateVerified" "pb_catalog p = sr_catalog (sv_report s)"
    using assms(3,4) by (fastforce simp: report_ok_def shown_by_def)
  then obtain c where c: "sr_catalog (sv_report s) = Some c" "reachable ext (U f) c" "gap_ids_differ ext (U f)"
    using published_verified[of ext U run] assms(2) unfolding verified_ok_def by metis
  from complete_chain[OF c(2,3)] c(1,2) show ?thesis by (intro exI[of _ c] conjI impI) (auto simp: map_option_eq_Some)
qed

lemma published_by_workerI:
  assumes "served_run env ext (U (sd_fingerprint (cr_source run)))"
    "\<forall>(path, db) \<in> set candidates. catalog_file env ext (U (sd_fingerprint (cr_source run))) db" "rn_publications st = []"
    "en_source_revision env = cr_revision run" "en_run_mode env = cr_mode run"
    "set (cr_accepted run) \<subseteq> set (rn_publications (snd (run_source fuel cycles env ext (sd_fingerprint (cr_source run)) candidates st)))"
  shows "published_by_worker ext U run"
  unfolding published_by_worker_def Let_def using assms surjective_pairing by blast

lemma sample_published:
  assumes "consistent (listed_codecs [] c) (listed_store c) c" "reachable sample_externals chain_universe c"
    and verified: "\<And>st. \<exists>st'. verify_catalog_candidate (gap_environment c) c st = (Ok (ActVerified None), st')"
    and "run \<in> set (sv_runs (sample_service (verified_publication c)))"
  shows "published_by_worker sample_externals (\<lambda>_. chain_universe) run"
proof -
  have run: "sd_fingerprint (cr_source run) = sample_fingerprint" "cr_revision run = 1" "cr_mode run = Resume"
    "cr_accepted run = [verified_publication c]"
    using assms(4) by (simp_all add: sample_service_simps sample_source_def)
  have "verified_publication c \<in> set (rn_publications
      (snd (run_source 1 0 (gap_environment c) sample_externals sample_fingerprint (sample_file c) (sample_start c))))"
    using run_activates[OF assms(1) verified[unfolded gap_environment_def]] by (simp add: gap_environment_def)
  then have "set (cr_accepted run) \<subseteq> set (rn_publications (snd (run_source 1 0 (gap_environment c) sample_externals
      (sd_fingerprint (cr_source run)) (sample_file c) (sample_start c))))"
    unfolding run by simp
  then show ?thesis
    by (rule published_by_workerI[OF sample_served sample_catalog_file[OF assms(1,2)], rotated -1])
      (simp_all add: run sample_start_def gap_environment_def sample_environment_def)
qed

theorem verified_report_is_whole_chain_witness:
  "\<exists>c bs. direct_history = Some c \<and> sr_catalog (sv_report (sample_service (verified_publication c))) = Some c
     \<and> good_run chain_universe bs \<and> cp_slot (floor_of bs) = 0 \<and> current_target c = Ok (top_reference bs)"
proof -
  obtain c where c: "direct_history = Some c" "at_target CoverageComplete c" "reachable sample_externals chain_universe c"
    "consistent (listed_codecs [] c) (listed_store c) c"
    and verified: "\<And>st. \<exists>st'. verify_catalog_candidate (gap_environment c) c st = (Ok (ActVerified None), st')"
    by (rule complete_stored) (rule that)
  let ?s = "sample_service (verified_publication c)"
  note published = sample_published[OF c(4,3) verified]
  have report: "sr_verification_state (sv_report ?s) = StateVerified" "sr_catalog (sv_report ?s) = Some c"
    by (simp_all add: sample_service_simps verified_publication_def)
  have "map_option fr_coverage_status (cs_frontier c) = Some CoverageComplete" using c(2) by (simp add: at_target_def)
  then obtain bs where "good_run chain_universe bs" "cp_slot (floor_of bs) = 0" "current_target c = Ok (top_reference bs)"
    using verified_report_is_whole_chain[OF sample_service_reached[of "\<lambda>_. []"] _ sample_service_simps(5) report(1),
        of sample_externals "\<lambda>_. chain_universe"] published report(2) option.inject by metis
  then show ?thesis using c(1) report(2) by blast
qed

end
